(* ===== verification/Rq_Prelude.thy ===== *)
theory Rq_Prelude
  imports Main "HOL-Library.Word" "HOL-Library.AList" "HOL-Library.Multiset"
begin

text \<open>
  The shared base of the development. It names the machine types of the Go sources
  (\<open>byte\<close>, \<open>uint32\<close>), the result type used for every function that returns an
  \<^verbatim>\<open>error\<close>, the theorem collections the component theories add to, and the generic
  facts on lists, association lists and sorting that several components share.
\<close>

section \<open>Machine types and results\<close>

type_synonym u8 = "8 word"

type_synonym u32 = "32 word"

type_synonym bytes = "u8 list"

text \<open>A Go result \<^verbatim>\<open>(T, error)\<close>: \<open>Inl\<close> carries the error, \<open>Inr\<close> the value.\<close>

type_synonym ('e, 'a) result = "'e + 'a"

definition is_ok :: "('e, 'a) result \<Rightarrow> bool" where
  "is_ok r = (case r of Inl _ \<Rightarrow> False | Inr _ \<Rightarrow> True)"

lemma is_ok_simps [simp]: "is_ok (Inl e) = False" "is_ok (Inr x) = True"
  by (simp_all add: is_ok_def)

lemma is_okE [elim]: "is_ok r \<Longrightarrow> (\<And>x. r = Inr x \<Longrightarrow> P) \<Longrightarrow> P"
  by (cases r) auto

section \<open>Theorem collections\<close>

named_theorems io_simps \<open>reading, seeking and writing byte streams\<close>

named_theorems codec_simps \<open>encoding and decoding of fixed-width integers\<close>

named_theorems inv_intros \<open>operations that preserve a component's invariant\<close>

section \<open>Lists\<close>

lemma take_drop_cancel_append [simp]:
  "length xs = n \<Longrightarrow> take n (xs @ ys) = xs"
  "length xs = n \<Longrightarrow> drop n (xs @ ys) = ys"
  by auto

text \<open>Writing a slice \<open>ys\<close> into the buffer \<open>xs\<close> at offset \<open>i\<close>.\<close>

definition blit :: "nat \<Rightarrow> 'a list \<Rightarrow> 'a list \<Rightarrow> 'a list" where
  "blit i ys xs = take i xs @ ys @ drop (i + length ys) xs"

lemma length_blit [simp]: "i + length ys \<le> length xs \<Longrightarrow> length (blit i ys xs) = length xs"
  by (simp add: blit_def)

lemma blit_skip: "length as \<le> i \<Longrightarrow> blit i ys (as @ bs) = as @ blit (i - length as) ys bs"
  by (simp add: blit_def)

lemma blit_0: "length bs = length ys \<Longrightarrow> blit 0 ys (bs @ cs) = ys @ cs"
  by (simp add: blit_def)

text \<open>Splitting a buffer at an offset, to bring it into the shape the \<open>blit\<close> rules rewrite.\<close>

lemma split_at:
  assumes "n \<le> length xs"
  obtains as bs where "xs = as @ bs" and "length as = n" and "length bs = length xs - n"
  using assms by (metis append_take_drop_id length_drop length_take min.absorb2)

section \<open>Association lists as Go maps\<close>

lemma distinct_fst_update [simp]:
  "distinct (map fst al) \<Longrightarrow> distinct (map fst (AList.update k v al))"
  by (rule distinct_update)

lemma map_of_update: "map_of (AList.update k v al) = (map_of al)(k \<mapsto> v)"
  by (rule update_conv')

text \<open>
  \<^verbatim>\<open>for k, v := range src { dst[k] = v }\<close>: copying one map into another. The order in
  which the source map is walked has no influence on the resulting map when its keys are
  distinct, which is what a Go map guarantees.
\<close>

definition copy_map :: "('k \<times> 'v) list \<Rightarrow> ('k \<times> 'v) list \<Rightarrow> ('k \<times> 'v) list" where
  "copy_map src dst = fold (\<lambda>(k, v). AList.update k v) src dst"

lemma distinct_copy_map:
  "distinct (map fst dst) \<Longrightarrow> distinct (map fst (copy_map src dst))"
  unfolding copy_map_def by (induction src arbitrary: dst) auto

lemma map_of_copy_map:
  "distinct (map fst src) \<Longrightarrow> map_of (copy_map src dst) = map_of dst ++ map_of src"
proof (induction src arbitrary: dst)
  case Nil
  then show ?case by (simp add: copy_map_def)
next
  case (Cons kv src)
  obtain k v where kv: "kv = (k, v)" by (cases kv)
  with Cons.prems have k: "map_of src k = None" and d: "distinct (map fst src)"
    by (auto simp: map_of_eq_None_iff)
  have "map_of (copy_map (kv # src) dst) = map_of (copy_map src (AList.update k v dst))"
    by (simp add: copy_map_def kv)
  also have "\<dots> = (map_of dst)(k \<mapsto> v) ++ map_of src"
    using Cons.IH [OF d, of "AList.update k v dst"] by (simp only: map_of_update)
  also have "\<dots> = map_of dst ++ map_of (kv # src)"
    using k by (auto simp: kv map_add_def fun_eq_iff split: option.splits)
  finally show ?case .
qed

section \<open>Sorting by a key\<close>

text \<open>
  When the keys are distinct the sorted list is determined by the elements alone, so a sort
  after a walk in unspecified order gives one result.
\<close>

lemma sort_key_perm_eq:
  assumes "mset xs = mset ys" and "inj_on f (set xs)"
  shows "sort_key f xs = sort_key f ys"
proof (rule properties_for_sort_key)
  show "mset (sort_key f ys) = mset xs" using assms by simp
  have set_eq: "set xs = set ys" using assms(1) by (rule mset_eq_setD)
  show "filter (\<lambda>y. f k = f y) (sort_key f ys) = filter (\<lambda>x. f k = f x) xs"
    if "k \<in> set (sort_key f ys)" for k
  proof -
    have k: "k \<in> set xs" using that set_eq by simp
    have eq: "filter (\<lambda>y. f k = f y) zs = filter (\<lambda>y. k = y) zs" if "set zs = set xs" for zs
      using that k assms(2) by (intro filter_cong) (auto simp: inj_on_def)
    have "mset (filter (\<lambda>y. k = y) (sort_key f ys)) = mset (filter (\<lambda>y. k = y) xs)"
      using assms(1) by (simp add: mset_filter)
    moreover have "filter (\<lambda>y. k = y) zs = replicate (count (mset zs) k) k" for zs :: "'a list"
      by (induction zs) auto
    ultimately show ?thesis
      using set_eq assms(1) by (simp add: eq)
  qed
  show "sorted (map f (sort_key f ys))" by simp
qed

section \<open>Hexadecimal text\<close>

text \<open>What \<^verbatim>\<open>fmt\<close> prints for a byte slice with the verb \<^verbatim>\<open>%x\<close>.\<close>

definition hex_digit :: "nat \<Rightarrow> char" where
  "hex_digit n = ''0123456789abcdef'' ! (n mod 16)"

definition hex_byte :: "u8 \<Rightarrow> string" where
  "hex_byte b = [hex_digit (unat b div 16), hex_digit (unat b mod 16)]"

definition hex :: "bytes \<Rightarrow> string" where
  "hex bs = concat (map hex_byte bs)"

end
