(* ===== verification/Command_Types.thy ===== *)
theory Command_Types
  imports Rq_Prelude
begin

text \<open>
  The protobuf messages of \<^verbatim>\<open>command/proto\<close> that travel between the layers and through
  the Raft log, as records and datatypes with the constructors of the generated Go structs. A
  pointer to a nested message is an option, since the generated getters accept nil; 64-bit
  counters and durations are \<open>int\<close>; a double is its 64 bits. The optional byte
  field of \<^verbatim>\<open>LoadChunkRequest\<close> is an option, because the receiver distinguishes a nil slice.

  The theory also names the two codecs the messages go through. Both are libraries outside the
  repository: a \<open>gzip_lib\<close> compresses and opens a stream, and a \<open>pb_codec\<close> serialises one
  message type.
\<close>

section \<open>Messages\<close>

datatype ParamValue =
    Parameter_I int
  | Parameter_D "64 word"
  | Parameter_B bool
  | Parameter_Y bytes
  | Parameter_S string

record Parameter =
  p_Value :: "ParamValue option"
  p_Name :: string

record Statement =
  Sql :: string
  Parameters :: "Parameter list"
  ForceQuery :: bool

record Request =
  Transaction :: bool
  Statements :: "Statement list"
  DbTimeout :: int

datatype Level = LEVEL_NONE | LEVEL_WEAK | LEVEL_STRONG | LEVEL_AUTO | LEVEL_LINEARIZABLE

record QueryRequest =
  qr_Request :: "Request option"
  qr_Timings :: bool
  qr_Level :: Level
  qr_Freshness :: int
  qr_FreshnessStrict :: bool
  qr_LinearizableTimeout :: int

record QueryRows =
  qs_Columns :: "string list"
  qs_Types :: "string list"
  qs_Values :: "Parameter list list"
  qs_Error :: string

record ExecuteRequest =
  er_Request :: "Request option"
  er_Timings :: bool

record ExecuteResult =
  LastInsertId :: int
  RowsAffected :: int
  res_Error :: string

record ExecuteQueryRequest =
  eqr_Request :: "Request option"
  eqr_Timings :: bool
  eqr_Level :: Level
  eqr_Freshness :: int
  eqr_FreshnessStrict :: bool

datatype ExecuteQueryResponse =
    Resp_Q QueryRows
  | Resp_E ExecuteResult
  | Resp_Error string

datatype BackupFormat = FORMAT_NONE | FORMAT_SQL | FORMAT_BINARY

record BackupRequest =
  br_Format :: BackupFormat
  br_Leader :: bool
  br_Vacuum :: bool
  br_Compress :: bool

record LoadRequest =
  lr_Data :: bytes

record LoadChunkRequest =
  StreamId :: string
  SequenceNum :: int
  IsLast :: bool
  lcr_Data :: "bytes option"
  lcr_Abort :: bool

record JoinRequest =
  jr_Id :: string
  jr_Address :: string
  jr_Voter :: bool

record NotifyRequest =
  nr_Id :: string
  nr_Address :: string

record RemoveNodeRequest =
  rn_Id :: string

record Noop =
  noop_Id :: string

datatype CommandType =
    TYPE_UNKNOWN
  | TYPE_QUERY
  | TYPE_EXECUTE
  | TYPE_NOOP
  | TYPE_LOAD
  | TYPE_JOIN
  | TYPE_EXECUTE_QUERY
  | TYPE_LOAD_CHUNK

record Command =
  cmd_Type :: CommandType
  SubCommand :: bytes
  Compressed :: bool

text \<open>The generated getter: the statements of a possibly nil request.\<close>

definition GetStatements :: "Request option \<Rightarrow> Statement list" where
  "GetStatements rq = (case rq of None \<Rightarrow> [] | Some r \<Rightarrow> Statements r)"

section \<open>Codec libraries\<close>

text \<open>
  A gzip library: \<open>gz_write\<close> is writing a buffer through a fresh writer and closing it,
  \<open>gz_open\<close> is opening a reader, which fails on a bad header (\<open>Inl\<close>) or yields the bytes it
  decodes and the error, if any, that ends them early.
\<close>

record gzip_lib =
  gz_write :: "bytes \<Rightarrow> (string, bytes) result"
  gz_open :: "bytes \<Rightarrow> (string, bytes \<times> string option) result"

text \<open>The documented behaviour: what was compressed is read back, to the end.\<close>

definition gzip_inverse :: "gzip_lib \<Rightarrow> bool" where
  "gzip_inverse g \<longleftrightarrow> (\<forall>b. \<exists>z. gz_write g b = Inr z \<and> gz_open g z = Inr (b, None))"

lemma gzip_inverseE:
  assumes "gzip_inverse g"
  obtains z where "gz_write g b = Inr z" and "gz_open g z = Inr (b, None)"
  using assms unfolding gzip_inverse_def by blast

record 'm pb_codec =
  pb_marshal :: "'m \<Rightarrow> (string, bytes) result"
  pb_unmarshal :: "bytes \<Rightarrow> (string, 'm) result"

text \<open>A message that serialises is read back unchanged.\<close>

definition pb_inverse :: "'m pb_codec \<Rightarrow> 'm \<Rightarrow> bool" where
  "pb_inverse c m \<longleftrightarrow> (case pb_marshal c m of Inl _ \<Rightarrow> True | Inr b \<Rightarrow> pb_unmarshal c b = Inr m)"

lemma pb_inverseD: "pb_inverse c m \<Longrightarrow> pb_marshal c m = Inr b \<Longrightarrow> pb_unmarshal c b = Inr m"
  by (simp add: pb_inverse_def)

text \<open>
  A concrete gzip library for evaluation: a magic byte, then the data as it is.
\<close>

definition sample_gzip :: gzip_lib where
  "sample_gzip = \<lparr>
     gz_write = (\<lambda>b. Inr (31 # b)),
     gz_open = (\<lambda>z. case z of
        [] \<Rightarrow> Inl ''EOF''
      | m # b \<Rightarrow> if m = 31 then Inr (b, None) else Inl ''gzip: invalid header'')\<rparr>"

lemma sample_gzip_inverse: "gzip_inverse sample_gzip"
  by (simp add: gzip_inverse_def sample_gzip_def)

section \<open>Counters\<close>

text \<open>The expvar counters of a package: a name to a number.\<close>

type_synonym counters = "string \<Rightarrow> int"

definition stats_add :: "string \<Rightarrow> int \<Rightarrow> counters \<Rightarrow> counters" where
  "stats_add k n st = st(k := st k + n)"

end
