(* ===== verification/Db_State.thy ===== *)
theory Db_State
  imports Rq_Prelude
begin

text \<open>
  \<^verbatim>\<open>db/state.go\<close>: classification of statements and files, and the small parsers beside it.

  The regular expressions of \<^verbatim>\<open>BreakingPragmas\<close> are sequences of atoms; an atom maps a
  text to all remainders after a match at its start, so a pattern matches when some remainder is
  left. Strings are ASCII: the two non-ASCII letters that Unicode case folding adds to \<^verbatim>\<open>s\<close>
  and \<^verbatim>\<open>k\<close>, and non-ASCII white space, are left out. A file is its contents, or nothing
  when it does not exist.
\<close>

section \<open>Characters\<close>

definition between :: "char \<Rightarrow> char \<Rightarrow> char \<Rightarrow> bool" where
  "between lo hi c \<longleftrightarrow> (of_char lo :: nat) \<le> of_char c \<and> (of_char c :: nat) \<le> of_char hi"

definition lower :: "char \<Rightarrow> char" where
  "lower c = (if between CHR ''A'' CHR ''Z'' c then char_of (of_char c + (32::nat)) else c)"

definition is_space :: "char \<Rightarrow> bool" where
  "is_space c \<longleftrightarrow> c \<in> {CHR '' '', CHR 0x09, CHR 0x0A, CHR 0x0C, CHR 0x0D}"

definition is_word :: "char \<Rightarrow> bool" where
  "is_word c \<longleftrightarrow> between CHR ''0'' CHR ''9'' c \<or> between CHR ''A'' CHR ''Z'' c \<or>
     between CHR ''a'' CHR ''z'' c \<or> c = CHR ''_''"

section \<open>Patterns\<close>

datatype rx_atom =
    Lit string
  | SpaceStar
  | SpacePlus
  | OptSchema

fun strip_lit :: "string \<Rightarrow> string \<Rightarrow> string option" where
  "strip_lit [] s = Some s"
| "strip_lit (p # ps) [] = None"
| "strip_lit (p # ps) (c # s) = (if lower p = lower c then strip_lit ps s else None)"

text \<open>All remainders after some, possibly no, leading characters of a class.\<close>

fun star :: "(char \<Rightarrow> bool) \<Rightarrow> string \<Rightarrow> string list" where
  "star P [] = [[]]"
| "star P (c # s) = (c # s) # (if P c then star P s else [])"

definition plus_cls :: "(char \<Rightarrow> bool) \<Rightarrow> string \<Rightarrow> string list" where
  "plus_cls P s = (case s of [] \<Rightarrow> [] | c # s' \<Rightarrow> if P c then star P s' else [])"

fun rx_rest :: "rx_atom \<Rightarrow> string \<Rightarrow> string list" where
  "rx_rest (Lit p) s = (case strip_lit p s of None \<Rightarrow> [] | Some r \<Rightarrow> [r])"
| "rx_rest SpaceStar s = star is_space s"
| "rx_rest SpacePlus s = plus_cls is_space s"
| "rx_rest OptSchema s = s # concat (map (\<lambda>r. case strip_lit ''.'' r of None \<Rightarrow> [] | Some r' \<Rightarrow> [r'])
     (plus_cls is_word s))"

fun rx_match :: "rx_atom list \<Rightarrow> string \<Rightarrow> bool" where
  "rx_match [] s = True"
| "rx_match (a # as) s = (\<exists>r \<in> set (rx_rest a s). rx_match as r)"

definition BreakingPragmas :: "(string \<times> rx_atom list) list" where
  "BreakingPragmas =
   [(''PRAGMA journal_mode'', [SpaceStar, Lit ''PRAGMA'', SpacePlus, OptSchema, Lit ''journal_mode'',
       SpaceStar, Lit ''='', SpaceStar]),
    (''PRAGMA wal_autocheckpoint'', [SpaceStar, Lit ''PRAGMA'', SpacePlus, Lit ''wal_autocheckpoint'',
       SpaceStar, Lit ''='', SpaceStar]),
    (''PRAGMA wal_checkpoint'', [SpaceStar, Lit ''PRAGMA'', SpacePlus, OptSchema, Lit ''wal_checkpoint'']),
    (''PRAGMA synchronous'', [SpaceStar, Lit ''PRAGMA'', SpacePlus, OptSchema, Lit ''synchronous'',
       SpaceStar, Lit ''='', SpaceStar])]"

definition IsBreakingPragma :: "string \<Rightarrow> bool" where
  "IsBreakingPragma stmt \<longleftrightarrow> (\<exists>(_, re) \<in> set BreakingPragmas. rx_match re stmt)"

section \<open>Hexadecimal literals\<close>

definition trim_space :: "string \<Rightarrow> string" where
  "trim_space s = (let sp = (\<lambda>c. is_space c \<or> c = CHR 0x0B) in
     rev (dropWhile sp (rev (dropWhile sp s))))"

definition hex_val :: "char \<Rightarrow> nat option" where
  "hex_val c = (let n = of_char c :: nat in
     if 48 \<le> n \<and> n \<le> 57 then Some (n - 48)
     else if 97 \<le> n \<and> n \<le> 102 then Some (n - 87)
     else if 65 \<le> n \<and> n \<le> 70 then Some (n - 55)
     else None)"

datatype hex_err = BadByte char | BadLength

text \<open>\<^verbatim>\<open>hex.DecodeString\<close>.\<close>

fun hex_decode :: "string \<Rightarrow> (hex_err, bytes) result" where
  "hex_decode [] = Inr []"
| "hex_decode [c] = (case hex_val c of None \<Rightarrow> Inl (BadByte c) | Some _ \<Rightarrow> Inl BadLength)"
| "hex_decode (c # d # s) = (case hex_val c of
     None \<Rightarrow> Inl (BadByte c)
   | Some h \<Rightarrow> (case hex_val d of
       None \<Rightarrow> Inl (BadByte d)
     | Some l \<Rightarrow> (case hex_decode s of
         Inl e \<Rightarrow> Inl e
       | Inr bs \<Rightarrow> Inr (word_of_nat (16 * h + l) # bs))))"

datatype parse_hex_err = InvalidHex string | InvalidHexDigits string hex_err

definition ParseHex :: "string \<Rightarrow> (parse_hex_err, bytes) result" where
  "ParseHex s =
   (let t = trim_space s in
    if length t < 3 \<or> t ! 0 \<noteq> CHR ''X'' \<and> t ! 0 \<noteq> CHR ''x'' then Inl (InvalidHex t)
    else
      let t = drop 1 t in
      if t ! 0 \<noteq> CHR 0x27 \<or> t ! (length t - 1) \<noteq> CHR 0x27 then Inl (InvalidHex t)
      else (case hex_decode (take (length t - 2) (drop 1 t)) of
          Inl e \<Rightarrow> Inl (InvalidHexDigits t e)
        | Inr b \<Rightarrow> Inr b))"

section \<open>Synchronous modes\<close>

datatype SynchronousMode = SynchronousOff | SynchronousNormal | SynchronousFull | SynchronousExtra

fun sm_String :: "SynchronousMode \<Rightarrow> string" where
  "sm_String SynchronousOff = ''OFF''"
| "sm_String SynchronousNormal = ''NORMAL''"
| "sm_String SynchronousFull = ''FULL''"
| "sm_String SynchronousExtra = ''EXTRA''"

definition upper :: "char \<Rightarrow> char" where
  "upper c = (if between CHR ''a'' CHR ''z'' c then char_of (of_char c - (32::nat)) else c)"

definition SynchronousModeFromString :: "string \<Rightarrow> (string, SynchronousMode) result" where
  "SynchronousModeFromString s = (let u = map upper s in
     if u = ''OFF'' then Inr SynchronousOff
     else if u = ''NORMAL'' then Inr SynchronousNormal
     else if u = ''FULL'' then Inr SynchronousFull
     else if u = ''EXTRA'' then Inr SynchronousExtra
     else Inl (''unknown synchronous mode '' @ s))"

definition SynchronousModeFromInt :: "int \<Rightarrow> SynchronousMode option" where
  "SynchronousModeFromInt i =
     (if i = 0 then Some SynchronousOff else if i = 1 then Some SynchronousNormal
      else if i = 2 then Some SynchronousFull else if i = 3 then Some SynchronousExtra else None)"

section \<open>File classification\<close>

definition string_bytes :: "string \<Rightarrow> bytes" where
  "string_bytes s = map of_char s"

definition IsValidSQLiteData :: "bytes \<Rightarrow> bool" where
  "IsValidSQLiteData b \<longleftrightarrow> 13 < length b \<and> take 13 b = string_bytes ''SQLite format''"

text \<open>The 16-byte buffer is zero-filled beyond what a short file provides; an empty file gives
  \<^verbatim>\<open>io.EOF\<close>.\<close>

definition IsValidSQLiteFile :: "bytes option \<Rightarrow> bool" where
  "IsValidSQLiteFile f = (case f of
     None \<Rightarrow> False
   | Some bs \<Rightarrow> if bs = [] then False else IsValidSQLiteData (take 16 (bs @ replicate 16 0)))"

definition IsValidSQLiteWALData :: "bytes \<Rightarrow> bool" where
  "IsValidSQLiteWALData b \<longleftrightarrow> \<not> length b < 4 \<and>
     (take 4 b = [0x37, 0x7f, 0x06, 0x82] \<or> take 4 b = [0x37, 0x7f, 0x06, 0x83])"

definition IsValidSQLiteWALFile :: "bytes option \<Rightarrow> bool" where
  "IsValidSQLiteWALFile f = (case f of
     None \<Rightarrow> False
   | Some bs \<Rightarrow> if length bs < 4 then False else IsValidSQLiteWALData (take 4 bs))"

definition IsWALModeEnabled :: "bytes \<Rightarrow> bool" where
  "IsWALModeEnabled b \<longleftrightarrow> 20 \<le> length b \<and> b ! 18 = 2 \<and> b ! 19 = 2"

definition IsDELETEModeEnabled :: "bytes \<Rightarrow> bool" where
  "IsDELETEModeEnabled b \<longleftrightarrow> 20 \<le> length b \<and> b ! 18 = 1 \<and> b ! 19 = 1"

text \<open>\<^verbatim>\<open>None\<close> for the file errors: missing, or shorter than twenty bytes.\<close>

definition IsWALModeEnabledSQLiteFile :: "bytes option \<Rightarrow> bool option" where
  "IsWALModeEnabledSQLiteFile f = (case f of
     None \<Rightarrow> None
   | Some bs \<Rightarrow> if length bs < 20 then None else Some (IsWALModeEnabled (take 20 bs)))"

definition IsDELETEModeEnabledSQLiteFile :: "bytes option \<Rightarrow> bool option" where
  "IsDELETEModeEnabledSQLiteFile f = (case f of
     None \<Rightarrow> None
   | Some bs \<Rightarrow> if length bs < 20 then None else Some (IsDELETEModeEnabled (take 20 bs)))"

definition WALPath :: "string \<Rightarrow> string" where
  "WALPath dbPath = dbPath @ ''-wal''"

text \<open>
  \<^verbatim>\<open>MakeDSN\<close>: the encoder of \<^verbatim>\<open>url.Values\<close> orders by key, and none of these values
  needs escaping.
\<close>

definition MakeDSN :: "string \<Rightarrow> bool \<Rightarrow> bool \<Rightarrow> bool \<Rightarrow> string" where
  "MakeDSN path readOnly fkEnabled walEnabled =
     ''file:'' @ path @ ''?_fk='' @ (if fkEnabled then ''true'' else ''false'') @
     ''&_journal='' @ (if walEnabled then ''WAL'' else ''DELETE'') @ ''&_sync=0'' @
     (if readOnly then ''&mode=ro'' else '''')"

section \<open>What the patterns accept\<close>

lemma set_star: "r \<in> set (star P s) \<longleftrightarrow> (\<exists>w. s = w @ r \<and> list_all P w)"
proof (induction P s rule: star.induct)
  case (2 P c s)
  show ?case
  proof
    assume "r \<in> set (star P (c # s))"
    then show "\<exists>w. c # s = w @ r \<and> list_all P w"
      using 2 by (auto split: if_splits intro: exI [of _ "[]"] exI [of _ "c # _"])
  next
    assume "\<exists>w. c # s = w @ r \<and> list_all P w"
    then obtain w where w: "c # s = w @ r" "list_all P w" by blast
    then show "r \<in> set (star P (c # s))"
      using 2 by (cases w) auto
  qed
qed simp

lemma set_plus_cls: "r \<in> set (plus_cls P s) \<longleftrightarrow> (\<exists>w. w \<noteq> [] \<and> s = w @ r \<and> list_all P w)"
proof (cases s)
  case (Cons c s')
  show ?thesis
  proof
    assume "r \<in> set (plus_cls P s)"
    then obtain w where "s' = w @ r" "list_all P w" "P c"
      using Cons by (auto simp: plus_cls_def set_star split: if_splits)
    then show "\<exists>w. w \<noteq> [] \<and> s = w @ r \<and> list_all P w"
      using Cons by (intro exI [of _ "c # w"]) simp
  next
    assume "\<exists>w. w \<noteq> [] \<and> s = w @ r \<and> list_all P w"
    then obtain w where "w \<noteq> []" "s = w @ r" "list_all P w" by blast
    then show "r \<in> set (plus_cls P s)"
      using Cons by (cases w) (auto simp: plus_cls_def set_star)
  qed
qed (simp add: plus_cls_def)

lemma strip_lit_iff: "strip_lit p s = Some r \<longleftrightarrow> (\<exists>t. s = t @ r \<and> map lower t = map lower p)"
proof (induction p s rule: strip_lit.induct)
  case (3 p ps c s)
  show ?case
  proof
    assume "strip_lit (p # ps) (c # s) = Some r"
    then obtain t where "s = t @ r" "map lower t = map lower ps" "lower p = lower c"
      using 3 by (auto split: if_splits)
    then show "\<exists>t. c # s = t @ r \<and> map lower t = map lower (p # ps)"
      by (intro exI [of _ "c # t"]) simp
  next
    assume "\<exists>t. c # s = t @ r \<and> map lower t = map lower (p # ps)"
    then obtain t where t: "c # s = t @ r" "map lower t = map lower (p # ps)" by blast
    then obtain t' where "t = c # t'" by (cases t) auto
    with t show "strip_lit (p # ps) (c # s) = Some r" using 3 by auto
  qed
qed auto

text \<open>The texts an atom stands for.\<close>

definition spaces :: "string \<Rightarrow> bool" where "spaces w \<longleftrightarrow> list_all is_space w"

definition same_word :: "string \<Rightarrow> string \<Rightarrow> bool" where "same_word t p \<longleftrightarrow> map lower t = map lower p"

fun rx_lang :: "rx_atom \<Rightarrow> string \<Rightarrow> bool" where
  "rx_lang (Lit p) t = same_word t p"
| "rx_lang SpaceStar t = spaces t"
| "rx_lang SpacePlus t = (t \<noteq> [] \<and> spaces t)"
| "rx_lang OptSchema t = (t = [] \<or> (\<exists>w. w \<noteq> [] \<and> list_all is_word w \<and> t = w @ ''.''))"

lemma lower_dot: "lower c = lower CHR ''.'' \<longleftrightarrow> c = CHR ''.''"
proof -
  have "lower c = CHR ''.'' \<Longrightarrow> c = CHR ''.''"
  proof (rule ccontr)
    assume l: "lower c = CHR ''.''" and ne: "c \<noteq> CHR ''.''"
    then have u: "between CHR ''A'' CHR ''Z'' c" and e: "char_of (of_char c + (32::nat)) = CHR ''.''"
      by (auto simp: lower_def split: if_splits)
    from u have n: "65 \<le> (of_char c :: nat)" "(of_char c :: nat) \<le> 90" by (simp_all add: between_def)
    have "of_char (char_of (of_char c + (32::nat))) = (of_char c + 32 :: nat)"
      using n by simp
    then show False using e n by simp
  qed
  then show ?thesis by (auto simp: lower_def between_def)
qed

lemma rx_rest_lang: "r \<in> set (rx_rest a s) \<longleftrightarrow> (\<exists>t. s = t @ r \<and> rx_lang a t)"
proof (cases a)
  case (Lit p)
  then show ?thesis
    by (auto simp: strip_lit_iff same_word_def split: option.splits)
      (metis option.distinct(1) strip_lit_iff, metis option.inject strip_lit_iff)
next
  case SpaceStar
  then show ?thesis by (simp add: set_star spaces_def)
next
  case SpacePlus
  then show ?thesis by (auto simp: set_plus_cls spaces_def)
next
  case OptSchema
  have dot: "strip_lit ''.'' r' = Some r \<longleftrightarrow> r' = CHR ''.'' # r" for r' r
    by (cases r') (auto simp: lower_dot eq_commute [of "lower CHR ''.''"])
  have "r \<in> set (rx_rest OptSchema s) \<longleftrightarrow> r = s \<or> (\<exists>r' \<in> set (plus_cls is_word s). r' = CHR ''.'' # r)"
    by (auto simp: dot split: option.splits) (metis dot option.distinct(1), metis dot option.inject)
  then show ?thesis
    using OptSchema by (auto simp: set_plus_cls)
qed

lemma rx_match_Cons:
  "rx_match (a # as) s \<longleftrightarrow> (\<exists>t rest. s = t @ rest \<and> rx_lang a t \<and> rx_match as rest)"
  unfolding rx_match.simps Bex_def rx_rest_lang by blast

lemma same_word_eq: "same_word t ''='' \<longleftrightarrow> t = ''=''"
proof -
  have "lower c = CHR ''='' \<Longrightarrow> c = CHR ''=''" for c
  proof (rule ccontr)
    assume l: "lower c = CHR ''=''" and ne: "c \<noteq> CHR ''=''"
    then have u: "between CHR ''A'' CHR ''Z'' c" and e: "char_of (of_char c + (32::nat)) = CHR ''=''"
      by (auto simp: lower_def split: if_splits)
    from u have n: "65 \<le> (of_char c :: nat)" "(of_char c :: nat) \<le> 90" by (simp_all add: between_def)
    have "of_char (char_of (of_char c + (32::nat))) = (of_char c + 32 :: nat)"
      using n by simp
    then show False using e n by simp
  qed
  moreover have "lower CHR ''='' = CHR ''=''" by (simp add: lower_def between_def)
  ultimately show ?thesis by (cases t) (auto simp: same_word_def)
qed

text \<open>A schema prefix, and an assignment after the name.\<close>

definition schema_prefix :: "string \<Rightarrow> bool" where
  "schema_prefix t \<longleftrightarrow> t = [] \<or> (\<exists>w. w \<noteq> [] \<and> list_all is_word w \<and> t = w @ ''.'')"

definition assigns :: "string \<Rightarrow> bool" where
  "assigns rest \<longleftrightarrow> (\<exists>w r. rest = w @ ''='' @ r \<and> spaces w)"

lemma assigns_atoms: "rx_match [SpaceStar, Lit ''='', SpaceStar] rest \<longleftrightarrow> assigns rest"
proof
  assume "rx_match [SpaceStar, Lit ''='', SpaceStar] rest"
  then show "assigns rest"
    by (auto simp only: rx_match_Cons rx_lang.simps same_word_eq assigns_def)
next
  assume "assigns rest"
  then obtain w r where "rest = w @ ''='' @ r" "spaces w" by (auto simp: assigns_def)
  moreover have "rx_match [SpaceStar] r"
    unfolding rx_match_Cons by (intro exI [of _ "[]"] exI [of _ r]) (simp add: spaces_def)
  ultimately show "rx_match [SpaceStar, Lit ''='', SpaceStar] rest"
    unfolding rx_match_Cons [of _ "_ # _"] rx_lang.simps same_word_eq by blast
qed

text \<open>The front every pattern has.\<close>

definition pragma_front :: "string \<Rightarrow> string \<Rightarrow> bool" where
  "pragma_front s rest \<longleftrightarrow> (\<exists>w1 kw w2. s = w1 @ kw @ w2 @ rest \<and> spaces w1 \<and>
     same_word kw ''PRAGMA'' \<and> w2 \<noteq> [] \<and> spaces w2)"

lemma front_atoms:
  "rx_match (SpaceStar # Lit ''PRAGMA'' # SpacePlus # bs) s \<longleftrightarrow>
   (\<exists>rest. pragma_front s rest \<and> rx_match bs rest)"
  unfolding rx_match_Cons rx_lang.simps pragma_front_def by blast

lemma schema_atoms:
  "rx_match (OptSchema # Lit p # bs) s \<longleftrightarrow>
   (\<exists>sch name rest. s = sch @ name @ rest \<and> schema_prefix sch \<and> same_word name p \<and> rx_match bs rest)"
  unfolding rx_match_Cons rx_lang.simps schema_prefix_def by blast

lemma schema_atomsI:
  "schema_prefix sch \<Longrightarrow> same_word name p \<Longrightarrow> rx_match bs rest \<Longrightarrow>
   rx_match (OptSchema # Lit p # bs) (sch @ name @ rest)"
  unfolding schema_atoms by (intro exI conjI) (rule refl)

lemma name_atoms:
  "rx_match (Lit p # bs) s \<longleftrightarrow>
   (\<exists>sch name rest. s = sch @ name @ rest \<and> sch = [] \<and> same_word name p \<and> rx_match bs rest)"
  unfolding rx_match_Cons rx_lang.simps by simp


section \<open>Reading back hexadecimal text\<close>

lemma hex_val_digit: "n < 16 \<Longrightarrow> hex_val (hex_digit n) = Some n"
proof -
  have "\<forall>n \<in> set [0..<16]. hex_val (hex_digit n) = Some n"
    by (simp add: upt_rec hex_digit_def hex_val_def Let_def)
  then show "n < 16 \<Longrightarrow> ?thesis" by simp
qed

lemma hex_decode_hex: "hex_decode (hex bs) = Inr bs"
proof (induction bs)
  case (Cons b bs)
  have b: "unat b < 256" using unsigned_less [of b] by simp
  have "hex_val (hex_digit (unat b div 16)) = Some (unat b div 16)"
    "hex_val (hex_digit (unat b mod 16)) = Some (unat b mod 16)"
    using b by (simp_all add: hex_val_digit)
  then show ?case using Cons by (simp add: hex_def hex_byte_def)
qed (simp add: hex_def)

lemma hex_decode_length: "hex_decode s = Inr bs \<Longrightarrow> length s = 2 * length bs"
  by (induction s arbitrary: bs rule: hex_decode.induct) (auto split: option.splits sum.splits)

text \<open>The bytes of a literal, with the quotes, and the space around it.\<close>

lemma trim_space_core:
  assumes "list_all is_space w1" and "list_all is_space w2" and "\<not> is_space x" and "\<not> is_space y"
    and "x \<noteq> CHR 0x0B" and "y \<noteq> CHR 0x0B"
  shows "trim_space (w1 @ x # m @ y # w2) = x # m @ [y]"
proof -
  let ?sp = "\<lambda>c. is_space c \<or> c = CHR 0x0B"
  have d: "dropWhile ?sp (w @ z # r) = z # r" if "list_all is_space w" "\<not> ?sp z" for w z r
    using that by (induction w) auto
  have "dropWhile ?sp (w1 @ x # m @ y # w2) = x # m @ y # w2"
    using assms by (intro d) auto
  moreover have "dropWhile ?sp (rev w2 @ y # rev m @ [x]) = y # rev m @ [x]"
    using assms by (intro d) (auto simp: list_all_rev)
  ultimately show ?thesis by (simp add: trim_space_def Let_def)
qed

text \<open>Hexadecimal literals read back: for all bytes, the SQLite literal of their hexadecimal
  digits, with either letter and any space around it, parses to those bytes; and whatever parses
  had two digits per byte between the quotes.\<close>

theorem parse_hex_roundtrip:
  assumes "spaces w1" and "spaces w2" and "x \<in> {CHR ''X'', CHR ''x''}"
  shows "ParseHex (w1 @ [x, CHR 0x27] @ hex bs @ [CHR 0x27] @ w2) = Inr bs \<and>
    (\<forall>s b. ParseHex s = Inr b \<longrightarrow> length (trim_space s) = 2 * length b + 3)"
proof -
  have "trim_space (w1 @ x # (CHR 0x27 # hex bs) @ CHR 0x27 # w2) = x # (CHR 0x27 # hex bs) @ [CHR 0x27]"
    using assms by (intro trim_space_core) (auto simp: spaces_def is_space_def)
  then have "ParseHex (w1 @ [x, CHR 0x27] @ hex bs @ [CHR 0x27] @ w2) = Inr bs"
    using assms(3) by (auto simp: ParseHex_def Let_def hex_decode_hex nth_append)
  moreover have "length (trim_space s) = 2 * length b + 3" if "ParseHex s = Inr b" for s b
    using that
    by (auto simp: ParseHex_def Let_def split: if_splits sum.splits dest!: hex_decode_length)
  ultimately show ?thesis by blast
qed

theorem parse_hex_roundtrip_witness:
  "spaces '' '' \<and> spaces [] \<and> ParseHex ('' '' @ [CHR ''X'', CHR 0x27] @ hex [0x53, 0xAF] @ [CHR 0x27] @ []) =
     Inr [0x53, 0xAF]"
  using parse_hex_roundtrip [of "'' ''" "[]" "CHR ''X''" "[0x53, 0xAF]"]
  by (simp add: spaces_def is_space_def)

section \<open>Synchronous modes\<close>

lemma synchronous_mode_roundtrip:
  "SynchronousModeFromString (sm_String m) = Inr m"
  by (cases m) (simp_all add: SynchronousModeFromString_def upper_def between_def Let_def)

end
