(* ===== verification/Rsync.thy ===== *)
theory Rsync
  imports Rq_Prelude "HOL-Library.Monad_Syntax"
begin

text \<open>
  \<^verbatim>\<open>rsync\<close>: the synchronisation primitives the store and the snapshot store are built on.
  Every operation of the package takes a mutex for its whole duration, so each is one atomic
  step on the state. A channel is a number; closing it records the number. Instants are counted
  in nanoseconds from Go's zero time, so \<open>0\<close> is \<^verbatim>\<open>time.Time{}\<close>. A panic is an
  explicit result.
\<close>

type_synonym time = int

type_synonym chan = nat

section \<open>Atomic values\<close>

text \<open>\<^verbatim>\<open>AtomicMonotonicUint64\<close> keeps the largest value stored.\<close>

definition amu_Store :: "64 word \<Rightarrow> 64 word \<Rightarrow> 64 word" where
  "amu_Store v a = (if a < v then v else a)"

definition amu_Reset :: "64 word \<Rightarrow> 64 word" where
  "amu_Reset a = 0"

text \<open>\<^verbatim>\<open>AtomicTime\<close>.\<close>

definition at_Store :: "time \<Rightarrow> time \<Rightarrow> time" where "at_Store new t = new"

definition at_Add :: "int \<Rightarrow> time \<Rightarrow> time" where "at_Add d t = t + d"

definition at_Sub :: "time \<Rightarrow> time \<Rightarrow> int" where "at_Sub t tt = t - tt"

definition at_IsZero :: "time \<Rightarrow> bool" where "at_IsZero t \<longleftrightarrow> t = 0"

text \<open>\<^verbatim>\<open>AtomicBool\<close>, held as the 32-bit integer of the source.\<close>

definition ab_Set :: "32 word \<Rightarrow> 32 word" where "ab_Set b = 1"

definition ab_Unset :: "32 word \<Rightarrow> 32 word" where "ab_Unset b = 0"

definition ab_Is :: "32 word \<Rightarrow> bool" where "ab_Is b \<longleftrightarrow> b = 1"

lemma amu_Store_max: "amu_Store v a = max a v"
  by (auto simp: amu_Store_def max_def)

section \<open>Check-and-set\<close>

record check_and_set =
  cas_state :: bool
  cas_owner :: string
  cas_startT :: time

definition NewCheckAndSet :: check_and_set where
  "NewCheckAndSet = \<lparr>cas_state = False, cas_owner = '''', cas_startT = 0\<rparr>"

datatype cas_err = ErrCASConflict string | ErrCASConflictTimeout

definition cas_Begin ::
  "time \<Rightarrow> string \<Rightarrow> check_and_set \<Rightarrow> (cas_err, unit) result \<times> check_and_set" where
  "cas_Begin now owner c =
   (if cas_state c then (Inl (ErrCASConflict (cas_owner c)), c)
    else (Inr (), \<lparr>cas_state = True, cas_owner = owner, cas_startT = now\<rparr>))"

definition cas_End :: "check_and_set \<Rightarrow> check_and_set" where
  "cas_End c = c\<lparr>cas_owner := '''', cas_state := False, cas_startT := 0\<rparr>"

definition cas_Owner :: "check_and_set \<Rightarrow> string" where
  "cas_Owner c = cas_owner c"

text \<open>
  \<^verbatim>\<open>BeginWithRetry\<close>. Between two attempts other goroutines run, so the state found by
  attempt \<open>i\<close> is \<open>env i\<close>; the clock reads \<open>now\<close> when it is made, and the sleep before the next
  one takes the retry interval and a delay \<open>lag i\<close>. The loop may run for ever when the clock
  never passes the deadline, hence the partial function; the attempts made are returned too.
\<close>

partial_function (option) begin_retry_loop ::
  "(nat \<Rightarrow> check_and_set) \<Rightarrow> (nat \<Rightarrow> int) \<Rightarrow> string \<Rightarrow> time \<Rightarrow> int \<Rightarrow> nat \<Rightarrow> time \<Rightarrow>
   ((cas_err, check_and_set) result \<times> nat) option" where
  "begin_retry_loop env lag owner deadline retryInterval i now =
   (case cas_Begin now owner (env i) of
      (Inr _, c) \<Rightarrow> Some (Inr c, Suc i)
    | (Inl _, c) \<Rightarrow>
       if deadline < now then Some (Inl ErrCASConflictTimeout, Suc i)
       else begin_retry_loop env lag owner deadline retryInterval (Suc i)
              (now + retryInterval + lag i))"

definition BeginWithRetry ::
  "(nat \<Rightarrow> check_and_set) \<Rightarrow> (nat \<Rightarrow> int) \<Rightarrow> time \<Rightarrow> string \<Rightarrow> int \<Rightarrow> int \<Rightarrow>
   ((cas_err, check_and_set) result \<times> nat) option" where
  "BeginWithRetry env lag now owner timeout retryInterval =
     begin_retry_loop env lag owner (now + timeout) retryInterval 0 now"

section \<open>Many readers, one writer\<close>

record multi_rsw =
  writerActive :: bool
  numReaders :: int

definition NewMultiRSW :: multi_rsw where
  "NewMultiRSW = \<lparr>writerActive = False, numReaders = 0\<rparr>"

datatype mrsw_result = MOk | ErrMRSWConflict | MPanic

definition BeginRead :: "multi_rsw \<Rightarrow> mrsw_result \<times> multi_rsw" where
  "BeginRead r = (if writerActive r then (ErrMRSWConflict, r)
     else (MOk, r\<lparr>numReaders := numReaders r + 1\<rparr>))"

definition EndRead :: "multi_rsw \<Rightarrow> mrsw_result \<times> multi_rsw" where
  "EndRead r = (let r = r\<lparr>numReaders := numReaders r - 1\<rparr> in
     (if numReaders r < 0 then MPanic else MOk, r))"

definition BeginWrite :: "multi_rsw \<Rightarrow> mrsw_result \<times> multi_rsw" where
  "BeginWrite r = (if writerActive r \<or> 0 < numReaders r then (ErrMRSWConflict, r)
     else (MOk, r\<lparr>writerActive := True\<rparr>))"

definition EndWrite :: "multi_rsw \<Rightarrow> mrsw_result \<times> multi_rsw" where
  "EndWrite r = (if \<not> writerActive r then (MPanic, r) else (MOk, r\<lparr>writerActive := False\<rparr>))"

definition UpgradeToWriter :: "multi_rsw \<Rightarrow> mrsw_result \<times> multi_rsw" where
  "UpgradeToWriter r =
   (if writerActive r \<or> 1 < numReaders r then (ErrMRSWConflict, r)
    else if numReaders r = 0 then (MPanic, r)
    else (MOk, r\<lparr>writerActive := True, numReaders := 0\<rparr>))"

section \<open>Ready targets\<close>

text \<open>
  \<^verbatim>\<open>ReadyTarget\<close>: the subscribers with their channels, the channels closed so far in
  order, and the next channel \<^verbatim>\<open>make\<close> returns.
\<close>

record 'a ready_target =
  currentTarget :: 'a
  subscribers :: "('a \<times> chan) list"
  rt_closed :: "chan list"
  rt_next :: chan

definition NewReadyTarget :: "'a::{linorder, zero} ready_target" where
  "NewReadyTarget = \<lparr>currentTarget = 0, subscribers = [], rt_closed = [], rt_next = 0\<rparr>"

definition Subscribe :: "'a::{linorder, zero} \<Rightarrow> 'a ready_target \<Rightarrow> chan \<times> 'a ready_target" where
  "Subscribe target r =
   (let ch = rt_next r; r = r\<lparr>rt_next := Suc ch\<rparr> in
    if target \<le> currentTarget r then (ch, r\<lparr>rt_closed := rt_closed r @ [ch]\<rparr>)
    else (ch, r\<lparr>subscribers := subscribers r @ [(target, ch)]\<rparr>))"

fun remove_first :: "chan \<Rightarrow> ('a \<times> chan) list \<Rightarrow> ('a \<times> chan) list" where
  "remove_first ch [] = []"
| "remove_first ch ((t, c) # ss) = (if c = ch then ss else (t, c) # remove_first ch ss)"

definition Unsubscribe :: "chan \<Rightarrow> 'a ready_target \<Rightarrow> 'a ready_target" where
  "Unsubscribe ch r = r\<lparr>subscribers := remove_first ch (subscribers r)\<rparr>"

text \<open>The loop of \<^verbatim>\<open>Signal\<close>: those reached are closed in order, the others kept.\<close>

fun signal_loop ::
  "'a::linorder \<Rightarrow> ('a \<times> chan) list \<Rightarrow> chan list \<times> ('a \<times> chan) list" where
  "signal_loop i [] = ([], [])"
| "signal_loop i ((t, c) # ss) = (case signal_loop i ss of (cl, rem) \<Rightarrow>
     if t \<le> i then (c # cl, rem) else (cl, (t, c) # rem))"

definition Signal :: "'a::{linorder, zero} \<Rightarrow> 'a ready_target \<Rightarrow> 'a ready_target" where
  "Signal i r =
   (if i \<le> currentTarget r then r
    else case signal_loop i (subscribers r) of (cl, rem) \<Rightarrow>
      r\<lparr>currentTarget := i, rt_closed := rt_closed r @ cl, subscribers := rem\<rparr>)"

definition rt_Reset :: "'a::{linorder, zero} ready_target \<Rightarrow> 'a ready_target" where
  "rt_Reset r = r\<lparr>currentTarget := 0, subscribers := []\<rparr>"

definition rt_Len :: "'a ready_target \<Rightarrow> nat" where
  "rt_Len r = length (subscribers r)"

section \<open>Ready channels\<close>

text \<open>
  \<^verbatim>\<open>ReadyChannels\<close>: each registration starts a goroutine that waits for the channel and
  then counts it; \<open>rc_waiting\<close> are the goroutines still waiting.
\<close>

record ready_channels =
  rc_chans :: "chan list"
  rc_numClosed :: int
  rc_waiting :: "chan list"

definition NewReadyChannels :: ready_channels where
  "NewReadyChannels = \<lparr>rc_chans = [], rc_numClosed = 0, rc_waiting = []\<rparr>"

definition rc_Register :: "chan \<Rightarrow> ready_channels \<Rightarrow> ready_channels" where
  "rc_Register ch r = r\<lparr>rc_chans := rc_chans r @ [ch], rc_waiting := rc_waiting r @ [ch]\<rparr>"

text \<open>The step of the goroutine started by a registration, once its channel is closed.\<close>

definition rc_noticed :: "chan \<Rightarrow> ready_channels \<Rightarrow> ready_channels" where
  "rc_noticed ch r = (if ch \<in> set (rc_waiting r)
     then r\<lparr>rc_waiting := remove1 ch (rc_waiting r), rc_numClosed := rc_numClosed r + 1\<rparr> else r)"

definition rc_Ready :: "ready_channels \<Rightarrow> bool" where
  "rc_Ready r \<longleftrightarrow> rc_numClosed r = int (length (rc_chans r))"

section \<open>Polling\<close>

text \<open>
  \<^verbatim>\<open>PollTrue.Run\<close>: the events the select statement receives, each tick with the value the
  polled function returns then. \<open>None\<close> means the events ended before the loop returned.
\<close>

datatype poll_event = Tick bool | Timer

fun poll_loop :: "string \<Rightarrow> poll_event list \<Rightarrow> (string, unit) result option" where
  "poll_loop name [] = None"
| "poll_loop name (Timer # evs) = Some (Inl (''timeout waiting for '' @ name))"
| "poll_loop name (Tick b # evs) = (if b then Some (Inr ()) else poll_loop name evs)"

definition poll_Run :: "string \<Rightarrow> bool \<Rightarrow> poll_event list \<Rightarrow> (string, unit) result option" where
  "poll_Run name fast evs = (if fast then Some (Inr ()) else poll_loop name evs)"

section \<open>Retrying ends\<close>

lemma begin_retry_loop_ends:
  assumes "0 < retryInterval" and "\<And>i. 0 \<le> lag i"
    and "deadline - now < int k * retryInterval"
  shows "\<exists>r n. begin_retry_loop env lag owner deadline retryInterval i now = Some (r, n) \<and>
    i < n \<and> n \<le> i + k + 1 \<and> (\<forall>j. i \<le> j \<and> j < n - 1 \<longrightarrow> cas_state (env j)) \<and>
    (case r of Inr c \<Rightarrow> \<not> cas_state (env (n - 1)) \<and> cas_state c \<and> cas_owner c = owner
     | Inl e \<Rightarrow> e = ErrCASConflictTimeout \<and> cas_state (env (n - 1)))"
  using assms(3)
proof (induction k arbitrary: i now)
  case 0
  then show ?case
    by (cases "cas_state (env i)") (auto simp: begin_retry_loop.simps cas_Begin_def)
next
  case (Suc k)
  show ?case
  proof (cases "cas_state (env i) \<and> \<not> deadline < now")
    case False
    then show ?thesis
      by (cases "cas_state (env i)") (auto simp: begin_retry_loop.simps cas_Begin_def)
  next
    case True
    then have st: "begin_retry_loop env lag owner deadline retryInterval i now =
        begin_retry_loop env lag owner deadline retryInterval (Suc i) (now + retryInterval + lag i)"
      by (simp add: begin_retry_loop.simps [of env lag owner deadline retryInterval i] cas_Begin_def)
    have "deadline - (now + retryInterval + lag i) < int k * retryInterval"
      using Suc.prems assms(2) [of i] by (simp add: algebra_simps)
    from Suc.IH [OF this, of "Suc i"] obtain r n where
      ih: "begin_retry_loop env lag owner deadline retryInterval (Suc i) (now + retryInterval + lag i) = Some (r, n)"
        "Suc i < n" "n \<le> Suc i + k + 1" "\<forall>j. Suc i \<le> j \<and> j < n - 1 \<longrightarrow> cas_state (env j)"
        "case r of Inr c \<Rightarrow> \<not> cas_state (env (n - 1)) \<and> cas_state c \<and> cas_owner c = owner
         | Inl e \<Rightarrow> e = ErrCASConflictTimeout \<and> cas_state (env (n - 1))"
      by blast
    have "\<forall>j. i \<le> j \<and> j < n - 1 \<longrightarrow> cas_state (env j)"
      using ih(4) True by (metis Suc_leI le_neq_implies_less)
    with ih st show ?thesis by (intro exI [of _ r] exI [of _ n]) simp
  qed
qed

text \<open>C39: With a positive retry interval \<^verbatim>\<open>BeginWithRetry\<close> always returns, after at most
  \<^verbatim>\<open>timeout / retryInterval + 2\<close> attempts. It succeeds exactly by the first attempt that
  finds the lock free, which it then holds under the caller's name, and times out only when every
  attempt found it held.\<close>

theorem begin_with_retry_returns:
  assumes "0 < retryInterval" and "0 \<le> timeout" and "\<And>i. 0 \<le> lag i"
  shows "\<exists>r n. BeginWithRetry env lag now owner timeout retryInterval = Some (r, n) \<and>
    0 < n \<and> n \<le> nat (timeout div retryInterval) + 2 \<and> (\<forall>j < n - 1. cas_state (env j)) \<and>
    (case r of Inr c \<Rightarrow> \<not> cas_state (env (n - 1)) \<and> cas_state c \<and> cas_owner c = owner
     | Inl e \<Rightarrow> e = ErrCASConflictTimeout \<and> cas_state (env (n - 1)))"
proof -
  have "timeout < (timeout div retryInterval + 1) * retryInterval"
    using assms(1) by (simp add: distrib_right) (metis add.commute add_strict_left_mono
        div_mult_mod_eq mult.commute pos_mod_bound)
  then have "now + timeout - now < int (nat (timeout div retryInterval) + 1) * retryInterval"
    using assms(1,2) by (simp add: pos_imp_zdiv_nonneg_iff add.commute)
  from begin_retry_loop_ends [OF assms(1,3) this, where env = env and owner = owner and i = 0]
  show ?thesis unfolding BeginWithRetry_def by auto
qed

theorem begin_with_retry_returns_witness:
  "\<exists>r n. BeginWithRetry (\<lambda>i. \<lparr>cas_state = i < 2, cas_owner = ''a'', cas_startT = 0\<rparr>) (\<lambda>_. 0)
      0 ''b'' 25 10 = Some (r, n) \<and> (0::int) < 10 \<and> (0::int) \<le> 25 \<and> n \<le> 4"
  using begin_with_retry_returns [of 10 25 "\<lambda>_. 0"
      "\<lambda>i. \<lparr>cas_state = i < 2, cas_owner = ''a'', cas_startT = 0\<rparr>" 0 "''b''"]
  by auto

section \<open>Exclusion\<close>

text \<open>
  The clients of a lock: who reads, who writes, and whether an operation panicked. A client ends
  or upgrades only what it has begun.
\<close>

record mrsw_sys =
  lock :: multi_rsw
  reading :: "nat set"
  writing :: "nat set"
  panicked :: bool

inductive mrsw_step :: "mrsw_sys \<Rightarrow> mrsw_sys \<Rightarrow> bool" where
  begin_read: "c \<notin> reading s \<Longrightarrow> c \<notin> writing s \<Longrightarrow> BeginRead (lock s) = (res, l) \<Longrightarrow>
    mrsw_step s (s\<lparr>lock := l, reading := (if res = MOk then insert c (reading s) else reading s),
      panicked := panicked s \<or> res = MPanic\<rparr>)"
| end_read: "c \<in> reading s \<Longrightarrow> EndRead (lock s) = (res, l) \<Longrightarrow>
    mrsw_step s (s\<lparr>lock := l, reading := reading s - {c}, panicked := panicked s \<or> res = MPanic\<rparr>)"
| begin_write: "c \<notin> reading s \<Longrightarrow> c \<notin> writing s \<Longrightarrow> BeginWrite (lock s) = (res, l) \<Longrightarrow>
    mrsw_step s (s\<lparr>lock := l, writing := (if res = MOk then insert c (writing s) else writing s),
      panicked := panicked s \<or> res = MPanic\<rparr>)"
| end_write: "c \<in> writing s \<Longrightarrow> EndWrite (lock s) = (res, l) \<Longrightarrow>
    mrsw_step s (s\<lparr>lock := l, writing := writing s - {c}, panicked := panicked s \<or> res = MPanic\<rparr>)"
| upgrade: "c \<in> reading s \<Longrightarrow> UpgradeToWriter (lock s) = (res, l) \<Longrightarrow>
    mrsw_step s (s\<lparr>lock := l,
      reading := (if res = MOk then reading s - {c} else reading s),
      writing := (if res = MOk then insert c (writing s) else writing s),
      panicked := panicked s \<or> res = MPanic\<rparr>)"

definition mrsw_init :: mrsw_sys where
  "mrsw_init = \<lparr>lock = NewMultiRSW, reading = {}, writing = {}, panicked = False\<rparr>"

definition mrsw_inv :: "mrsw_sys \<Rightarrow> bool" where
  "mrsw_inv s \<longleftrightarrow> finite (reading s) \<and> numReaders (lock s) = int (card (reading s)) \<and>
     writerActive (lock s) = (writing s \<noteq> {}) \<and> (\<forall>c \<in> writing s. writing s = {c} \<and> reading s = {}) \<and>
     \<not> panicked s"

lemma mrsw_step_inv: "mrsw_step s t \<Longrightarrow> mrsw_inv s \<Longrightarrow> mrsw_inv t"
proof (induction rule: mrsw_step.induct)
  case (end_read c s res l)
  then have "0 < card (reading s)" "writing s = {}"
    by (auto simp: mrsw_inv_def card_gt_0_iff)
  with end_read show ?case
    by (auto simp: mrsw_inv_def EndRead_def Let_def split: if_splits)
next
  case (upgrade c s res l)
  then have "card (reading s) \<noteq> 0" "writing s = {}" "\<not> writerActive (lock s)"
    by (auto simp: mrsw_inv_def)
  moreover have "reading s = {c}" if "card (reading s) \<le> 1"
    using that upgrade(1,3) \<open>card (reading s) \<noteq> 0\<close>
    by (metis card_1_singletonE le_neq_implies_less less_one singletonD)
  ultimately show ?case
    using upgrade by (auto simp: mrsw_inv_def UpgradeToWriter_def split: if_splits)
qed (auto simp: mrsw_inv_def BeginRead_def BeginWrite_def EndWrite_def split: if_splits)

lemma mrsw_reachable_inv: "mrsw_step\<^sup>*\<^sup>* mrsw_init s \<Longrightarrow> mrsw_inv s"
  by (induction rule: rtranclp_induct)
     (auto simp: mrsw_step_inv, simp add: mrsw_inv_def mrsw_init_def NewMultiRSW_def)

text \<open>C26: Readers and a writer exclude each other. In every run of clients that end or upgrade
  only what they began, no operation panics, there is at most one writer, a writer excludes all
  readers, and an operation reports a conflict exactly when the lock is taken: a reader is refused
  only while there is a writer, a writer only while there is anyone, and an upgrade of a reader
  only while another reader is in.\<close>

theorem mrsw_exclusive:
  assumes "mrsw_step\<^sup>*\<^sup>* mrsw_init s"
  shows "\<not> panicked s \<and> (\<forall>c \<in> writing s. writing s = {c} \<and> reading s = {}) \<and>
    (fst (BeginRead (lock s)) = ErrMRSWConflict \<longleftrightarrow> writing s \<noteq> {}) \<and>
    (fst (BeginWrite (lock s)) = ErrMRSWConflict \<longleftrightarrow> writing s \<noteq> {} \<or> reading s \<noteq> {}) \<and>
    (\<forall>c \<in> reading s. fst (UpgradeToWriter (lock s)) = (if reading s = {c} then MOk else ErrMRSWConflict))"
proof -
  note i = mrsw_reachable_inv [OF assms, unfolded mrsw_inv_def]
  have "fst (UpgradeToWriter (lock s)) = (if reading s = {c} then MOk else ErrMRSWConflict)"
    if c: "c \<in> reading s" for c
  proof -
    have "reading s = {c} \<longleftrightarrow> card (reading s) \<le> 1"
      using i c by (metis card_1_singletonE card.empty card_gt_0_iff empty_iff is_singletonI
          is_singleton_altdef le_neq_implies_less less_one order_refl singletonD)
    moreover have "0 < card (reading s)" "\<not> writerActive (lock s)"
      using i c by (auto simp: card_gt_0_iff)
    ultimately show ?thesis using i by (auto simp: UpgradeToWriter_def)
  qed
  then show ?thesis using i
    by (auto simp: BeginRead_def BeginWrite_def card_gt_0_iff)
qed

theorem mrsw_exclusive_witness:
  "\<exists>s. mrsw_step\<^sup>*\<^sup>* mrsw_init s \<and> writing s = {7} \<and> reading s = {} \<and> \<not> panicked s"
proof -
  obtain s where s: "mrsw_step mrsw_init s" "writing s = {7}"
    using begin_write [of 7 mrsw_init]
    by (auto simp: mrsw_init_def NewMultiRSW_def BeginWrite_def)
  then have "mrsw_step\<^sup>*\<^sup>* mrsw_init s" by blast
  with mrsw_exclusive [OF this] s show ?thesis by auto
qed

section \<open>Subscriptions\<close>

datatype 'a rt_op = OpSubscribe 'a | OpUnsubscribe chan | OpSignal 'a | OpReset

fun rt_apply :: "'a::{linorder, zero} rt_op \<Rightarrow> 'a ready_target \<Rightarrow> 'a ready_target" where
  "rt_apply (OpSubscribe t) r = snd (Subscribe t r)"
| "rt_apply (OpUnsubscribe ch) r = Unsubscribe ch r"
| "rt_apply (OpSignal i) r = Signal i r"
| "rt_apply OpReset r = rt_Reset r"

text \<open>
  Subscribers wait for targets not reached yet, on distinct open channels; no channel is closed
  twice, which would panic.
\<close>

definition rt_inv :: "'a::{linorder, zero} ready_target \<Rightarrow> bool" where
  "rt_inv r \<longleftrightarrow> (\<forall>(t, c) \<in> set (subscribers r). currentTarget r < t) \<and>
     distinct (map snd (subscribers r) @ rt_closed r) \<and>
     (\<forall>c \<in> set (map snd (subscribers r) @ rt_closed r). c < rt_next r)"

lemma signal_loop_eq:
  "signal_loop i ss = (map snd (filter (\<lambda>(t, c). t \<le> i) ss), filter (\<lambda>(t, c). \<not> t \<le> i) ss)"
  by (induction i ss rule: signal_loop.induct) auto

lemma set_remove_first: "set (remove_first ch ss) \<subseteq> set ss"
  by (induction ch ss rule: remove_first.induct) auto

lemma remove_first_keeps: "(t, c) \<in> set ss \<Longrightarrow> c \<noteq> ch \<Longrightarrow> (t, c) \<in> set (remove_first ch ss)"
  by (induction ch ss rule: remove_first.induct) auto

lemma distinct_remove_first: "distinct (map snd ss) \<Longrightarrow> distinct (map snd (remove_first ch ss))"
proof (induction ch ss rule: remove_first.induct)
  case (2 ch t c ss)
  then show ?case using set_remove_first [of ch ss] by auto
qed simp

lemma rt_inv_new [inv_intros]: "rt_inv NewReadyTarget"
  by (simp add: rt_inv_def NewReadyTarget_def)

lemma rt_inv_Subscribe: "rt_inv r \<Longrightarrow> rt_inv (snd (Subscribe t r))"
proof -
  assume i: "rt_inv r"
  have fresh: "rt_next r \<notin> set (map snd (subscribers r)) \<union> set (rt_closed r)"
    using i by (auto simp: rt_inv_def)
  show ?thesis
    using i fresh less_SucI
    by (cases "t \<le> currentTarget r") (auto simp: rt_inv_def Subscribe_def Let_def not_le ball_Un)
qed

lemma rt_inv_Unsubscribe: "rt_inv r \<Longrightarrow> rt_inv (Unsubscribe ch r)"
proof -
  assume i: "rt_inv r"
  have s: "set (remove_first ch (subscribers r)) \<subseteq> set (subscribers r)"
    by (rule set_remove_first)
  then have "snd ` set (remove_first ch (subscribers r)) \<subseteq> snd ` set (subscribers r)"
    by (rule image_mono)
  with i s show ?thesis
    unfolding rt_inv_def Unsubscribe_def
    by (simp add: distinct_remove_first) blast
qed

lemma rt_inv_Signal: "rt_inv r \<Longrightarrow> rt_inv (Signal i r)"
  by (auto simp: rt_inv_def Signal_def signal_loop_eq distinct_map inj_on_def)

lemma rt_inv_Reset: "rt_inv r \<Longrightarrow> rt_inv (rt_Reset r)"
  by (auto simp: rt_inv_def rt_Reset_def)

lemma rt_inv_apply [inv_intros]: "rt_inv r \<Longrightarrow> rt_inv (rt_apply op r)"
  by (cases op) (simp_all add: rt_inv_Subscribe rt_inv_Unsubscribe rt_inv_Signal rt_inv_Reset)

text \<open>Channel \<open>ch\<close> stands for target \<open>t\<close>: closed when it was reached, subscribed otherwise.\<close>

definition stands_for :: "chan \<Rightarrow> 'a::{linorder, zero} \<Rightarrow> 'a ready_target \<Rightarrow> bool" where
  "stands_for ch t r \<longleftrightarrow>
     (if t \<le> currentTarget r then ch \<in> set (rt_closed r) else (t, ch) \<in> set (subscribers r))"

lemma stands_for_Subscribe:
  "Subscribe t r = (ch, r') \<Longrightarrow> stands_for ch t r'"
  by (auto simp: stands_for_def Subscribe_def Let_def split: if_splits)

lemma stands_for_apply:
  assumes "stands_for ch t r" and "op \<noteq> OpReset" and "op \<noteq> OpUnsubscribe ch"
  shows "stands_for ch t (rt_apply op r)"
proof (cases op)
  case (OpSubscribe t')
  with assms show ?thesis by (auto simp: stands_for_def Subscribe_def Let_def)
next
  case (OpUnsubscribe c)
  with assms show ?thesis by (auto simp: stands_for_def Unsubscribe_def remove_first_keeps)
next
  case (OpSignal i)
  with assms show ?thesis
    by (auto simp: stands_for_def Signal_def signal_loop_eq intro: rev_image_eqI split: if_splits)
next
  case OpReset
  with assms show ?thesis by simp
qed

fun signalled :: "'a rt_op list \<Rightarrow> 'a list" where
  "signalled [] = []"
| "signalled (OpSignal i # ops) = i # signalled ops"
| "signalled (_ # ops) = signalled ops"

lemma rt_fold:
  assumes "rt_inv r" and "stands_for ch t r" and "OpReset \<notin> set ops" and "OpUnsubscribe ch \<notin> set ops"
  shows "rt_inv (fold rt_apply ops r) \<and> stands_for ch t (fold rt_apply ops r) \<and>
    currentTarget (fold rt_apply ops r) = fold max (signalled ops) (currentTarget r)"
  using assms
proof (induction ops arbitrary: r)
  case (Cons op ops)
  have "currentTarget (rt_apply op r) = fold max (signalled [op]) (currentTarget r)"
    using Cons.prems(3)
    by (cases op) (auto simp: Subscribe_def Unsubscribe_def Signal_def signal_loop_eq Let_def max_def)
  moreover have "fold max (signalled (op # ops)) x = fold max (signalled ops) (fold max (signalled [op]) x)" for x
    by (cases op) simp_all
  moreover have "stands_for ch t (rt_apply op r)" "rt_inv (rt_apply op r)"
    using Cons.prems by (auto intro!: stands_for_apply rt_inv_apply)
  ultimately show ?case
    using Cons.IH [of "rt_apply op r"] Cons.prems(3,4) by simp
qed simp

text \<open>C38: A subscriber is told exactly when its target is reached. From any reachable state, the
  channel \<^verbatim>\<open>Subscribe\<close> returns for a target is closed after any further operations (other
  than a reset or its own removal) if and only if the largest index signalled so far has reached
  the target, and no channel is ever closed twice.\<close>

theorem ready_target_notifies:
  fixes t :: nat
  assumes "Subscribe t (fold rt_apply pre NewReadyTarget) = (ch, r1)"
    and "OpReset \<notin> set ops" and "OpUnsubscribe ch \<notin> set ops"
  shows "(ch \<in> set (rt_closed (fold rt_apply ops r1)) \<longleftrightarrow>
      t \<le> fold max (signalled ops) (currentTarget r1)) \<and>
    distinct (rt_closed (fold rt_apply ops r1))"
proof -
  have "rt_inv (fold rt_apply pre (NewReadyTarget :: nat ready_target))"
  proof -
    have "rt_inv (fold rt_apply pre r)" if "rt_inv r" for r :: "nat ready_target"
      using that by (induction pre arbitrary: r) (auto intro: inv_intros)
    then show ?thesis by (simp add: rt_inv_new)
  qed
  then have inv: "rt_inv r1" using rt_inv_Subscribe assms(1) by (metis snd_conv)
  note f = rt_fold [OF inv stands_for_Subscribe [OF assms(1)] assms(2,3)]
  then show ?thesis by (auto simp: stands_for_def rt_inv_def split: if_splits)
qed

theorem ready_target_notifies_witness:
  "\<exists>ch r1. Subscribe (5::nat) (fold rt_apply [OpSignal 3] NewReadyTarget) = (ch, r1) \<and>
     ch \<notin> set (rt_closed (fold rt_apply [OpSignal 4] r1)) \<and>
     ch \<in> set (rt_closed (fold rt_apply [OpSignal 4, OpSignal 9] r1))"
proof -
  obtain ch r1 where s: "Subscribe (5::nat) (fold rt_apply [OpSignal 3] NewReadyTarget) = (ch, r1)"
    by fastforce
  then have "currentTarget r1 = 3"
    by (auto simp: NewReadyTarget_def Signal_def Subscribe_def Let_def)
  then show ?thesis
    using ready_target_notifies [OF s, of "[OpSignal 4]"]
      ready_target_notifies [OF s, of "[OpSignal 4, OpSignal 9]"] s by auto
qed

section \<open>Readiness\<close>

text \<open>A collection of channels is ready when no registered channel is still waited for.\<close>

lemma rc_Ready_iff:
  assumes "rc_numClosed r + int (length (rc_waiting r)) = int (length (rc_chans r))"
  shows "rc_Ready r \<longleftrightarrow> rc_waiting r = []"
  using assms by (auto simp: rc_Ready_def)

lemma rc_count_invariant [inv_intros]:
  "rc_numClosed r + int (length (rc_waiting r)) = int (length (rc_chans r)) \<Longrightarrow>
     rc_numClosed (rc_Register c r) + int (length (rc_waiting (rc_Register c r)))
       = int (length (rc_chans (rc_Register c r)))"
  "rc_numClosed r + int (length (rc_waiting r)) = int (length (rc_chans r)) \<Longrightarrow>
     rc_numClosed (rc_noticed c r) + int (length (rc_waiting (rc_noticed c r)))
       = int (length (rc_chans (rc_noticed c r)))"
proof -
  assume i: "rc_numClosed r + int (length (rc_waiting r)) = int (length (rc_chans r))"
  show "rc_numClosed (rc_Register c r) + int (length (rc_waiting (rc_Register c r)))
       = int (length (rc_chans (rc_Register c r)))"
    using i by (simp add: rc_Register_def)
  show "rc_numClosed (rc_noticed c r) + int (length (rc_waiting (rc_noticed c r)))
       = int (length (rc_chans (rc_noticed c r)))"
    using i length_pos_if_in_set [of c "rc_waiting r"]
    by (auto simp: rc_noticed_def length_remove1 of_nat_diff Suc_le_eq)
qed

end
