(* ===== verification/Db_Layer.thy ===== *)
theory Db_Layer
  imports Command_Types Db_State Rsync
begin

text \<open>
  The database as the layers above see it. The SQLite engine, with the connection handling of
  \<^verbatim>\<open>db/db.go\<close> around it, is a parameter: a record \<open>db_lib\<close> of the operations the store
  calls, over an abstract database \<open>'db\<close>. On top of it stand \<^verbatim>\<open>db/swappable_db.go\<close>, whose
  \<^verbatim>\<open>Swap\<close> replaces the database by a file, and \<^verbatim>\<open>db/cdc.go\<close>, which collects change
  events per transaction.
\<close>

section \<open>The engine\<close>

record 'db db_lib =
  lib_Query :: "Request option \<Rightarrow> bool \<Rightarrow> 'db \<Rightarrow> QueryRows list \<times> string option"
  lib_Execute :: "Request option \<Rightarrow> bool \<Rightarrow> 'db \<Rightarrow> (ExecuteQueryResponse list \<times> string option) \<times> 'db"
  lib_Request :: "Request option \<Rightarrow> bool \<Rightarrow> 'db \<Rightarrow> (ExecuteQueryResponse list \<times> string option) \<times> 'db"
  lib_StmtReadOnly :: "string \<Rightarrow> 'db \<Rightarrow> (string, bool) result"
  lib_Open :: "bytes \<Rightarrow> bool \<Rightarrow> bool \<Rightarrow> (string, 'db) result"
  lib_Close :: "'db \<Rightarrow> string option"
  lib_FKEnabled :: "'db \<Rightarrow> bool"
  lib_WALEnabled :: "'db \<Rightarrow> bool"
  lib_Checkpoint :: "'db \<Rightarrow> string option \<times> 'db"
  lib_Vacuum :: "'db \<Rightarrow> string option \<times> 'db"
  lib_Optimize :: "'db \<Rightarrow> string option \<times> 'db"
  lib_file :: "'db \<Rightarrow> bytes"
  lib_walfile :: "'db \<Rightarrow> bytes option"
  lib_LastModified :: "'db \<Rightarrow> (string, time) result"
  lib_Dump :: "'db \<Rightarrow> (string, bytes) result"
  lib_VacuumInto :: "'db \<Rightarrow> (string, bytes) result"
  lib_PreUpdateHook :: "bool \<Rightarrow> 'db \<Rightarrow> string option"
  lib_CommitHook :: "bool \<Rightarrow> 'db \<Rightarrow> string option"

section \<open>Swappable database\<close>

record 'db swappable =
  sdb :: 'db
  sdb_closed :: bool

definition OpenSwappable :: "'db db_lib \<Rightarrow> bytes \<Rightarrow> bool \<Rightarrow> bool \<Rightarrow> (string, 'db swappable) result" where
  "OpenSwappable L f fkEnabled wal = (case lib_Open L f fkEnabled wal of
     Inl e \<Rightarrow> Inl e | Inr d \<Rightarrow> Inr \<lparr>sdb = d, sdb_closed = False\<rparr>)"

text \<open>The file operations of \<^verbatim>\<open>Swap\<close> that may fail: removing the old files, renaming.\<close>

record swap_env =
  sw_remove :: "string option"
  sw_rename :: "string option"

definition Swap ::
  "'db db_lib \<Rightarrow> swap_env \<Rightarrow> bytes option \<Rightarrow> bool \<Rightarrow> bool \<Rightarrow> 'db swappable \<Rightarrow> string option \<times> 'db swappable" where
  "Swap L env f fkConstraints walEnabled s =
   (if \<not> IsValidSQLiteFile f then (Some ''invalid SQLite data'', s)
    else case lib_Close L (sdb s) of
      Some e \<Rightarrow> (Some (''failed to close: '' @ e), s)
    | None \<Rightarrow>
       let s = s\<lparr>sdb_closed := True\<rparr> in
       (case sw_remove env of
          Some e \<Rightarrow> (Some (''failed to remove files: '' @ e), s)
        | None \<Rightarrow> (case sw_rename env of
            Some e \<Rightarrow> (Some (''failed to rename database: '' @ e), s)
          | None \<Rightarrow> (case lib_Open L (the f) fkConstraints walEnabled of
              Inl e \<Rightarrow> (Some (''open SQLite file failed: '' @ e), s)
            | Inr d \<Rightarrow> (None, \<lparr>sdb = d, sdb_closed = False\<rparr>)))))"

definition sd_Query ::
  "'db db_lib \<Rightarrow> Request option \<Rightarrow> bool \<Rightarrow> 'db swappable \<Rightarrow> QueryRows list \<times> string option" where
  "sd_Query L rq t s = lib_Query L rq t (sdb s)"

definition sd_Execute ::
  "'db db_lib \<Rightarrow> Request option \<Rightarrow> bool \<Rightarrow> 'db swappable \<Rightarrow>
   (ExecuteQueryResponse list \<times> string option) \<times> 'db swappable" where
  "sd_Execute L rq t s = (case lib_Execute L rq t (sdb s) of (r, d) \<Rightarrow> (r, s\<lparr>sdb := d\<rparr>))"

definition sd_Request ::
  "'db db_lib \<Rightarrow> Request option \<Rightarrow> bool \<Rightarrow> 'db swappable \<Rightarrow>
   (ExecuteQueryResponse list \<times> string option) \<times> 'db swappable" where
  "sd_Request L rq t s = (case lib_Request L rq t (sdb s) of (r, d) \<Rightarrow> (r, s\<lparr>sdb := d\<rparr>))"

definition sd_Checkpoint :: "'db db_lib \<Rightarrow> 'db swappable \<Rightarrow> string option \<times> 'db swappable" where
  "sd_Checkpoint L s = (case lib_Checkpoint L (sdb s) of (e, d) \<Rightarrow> (e, s\<lparr>sdb := d\<rparr>))"

definition sd_Vacuum :: "'db db_lib \<Rightarrow> 'db swappable \<Rightarrow> string option \<times> 'db swappable" where
  "sd_Vacuum L s = (case lib_Vacuum L (sdb s) of (e, d) \<Rightarrow> (e, s\<lparr>sdb := d\<rparr>))"

definition sd_Optimize :: "'db db_lib \<Rightarrow> 'db swappable \<Rightarrow> string option \<times> 'db swappable" where
  "sd_Optimize L s = (case lib_Optimize L (sdb s) of (e, d) \<Rightarrow> (e, s\<lparr>sdb := d\<rparr>))"

lemma Swap_ok:
  assumes "IsValidSQLiteFile (Some f)" and "lib_Close L (sdb s) = None" and "sw_remove env = None"
    and "sw_rename env = None" and "lib_Open L f fk w = Inr d"
  shows "Swap L env (Some f) fk w s = (None, \<lparr>sdb = d, sdb_closed = False\<rparr>)"
  using assms by (simp add: Swap_def Let_def)

lemma Swap_invalid [simp]: "\<not> IsValidSQLiteFile f \<Longrightarrow> Swap L env f fk w s = (Some ''invalid SQLite data'', s)"
  by (simp add: Swap_def)

section \<open>Change events\<close>

datatype CDCOperation = CDC_UNKNOWN | CDC_INSERT | CDC_UPDATE | CDC_DELETE

record CDCEvent =
  ev_Error :: string
  ev_Op :: CDCOperation
  ev_Table :: string
  ev_OldRowId :: int
  ev_NewRowId :: int
  ev_OldRow :: "ParamValue option list option"
  ev_NewRow :: "ParamValue option list option"

record CDCEvents =
  Index :: nat
  Events :: "CDCEvent list"

text \<open>The streamer with the channel it sends to: its buffer and capacity, and the drops.\<close>

record cdc_streamer =
  pending :: CDCEvents
  cdc_out :: "CDCEvents list"
  cdc_cap :: nat
  cdc_dropped :: nat

definition NewCDCStreamer :: "nat \<Rightarrow> cdc_streamer" where
  "NewCDCStreamer capacity = \<lparr>pending = \<lparr>Index = 0, Events = []\<rparr>, cdc_out = [], cdc_cap = capacity, cdc_dropped = 0\<rparr>"

definition cdc_Reset :: "nat \<Rightarrow> cdc_streamer \<Rightarrow> cdc_streamer" where
  "cdc_Reset k s = s\<lparr>pending := \<lparr>Index = k, Events = []\<rparr>\<rparr>"

definition PreupdateHook :: "CDCEvent \<Rightarrow> cdc_streamer \<Rightarrow> cdc_streamer" where
  "PreupdateHook ev s = s\<lparr>pending := (pending s)\<lparr>Events := Events (pending s) @ [ev]\<rparr>\<rparr>"

definition CommitHook :: "cdc_streamer \<Rightarrow> bool \<times> cdc_streamer" where
  "CommitHook s =
   (let s = (if length (cdc_out s) < cdc_cap s then s\<lparr>cdc_out := cdc_out s @ [pending s]\<rparr>
             else s\<lparr>cdc_dropped := cdc_dropped s + 1\<rparr>) in
    (True, s\<lparr>pending := \<lparr>Index = 0, Events = []\<rparr>\<rparr>))"

definition cdc_Len :: "cdc_streamer \<Rightarrow> nat" where
  "cdc_Len s = length (Events (pending s))"

text \<open>A transaction: the events of its updates, then the commit.\<close>

definition transact :: "CDCEvent list \<Rightarrow> cdc_streamer \<Rightarrow> cdc_streamer" where
  "transact evs s = snd (CommitHook (fold PreupdateHook evs s))"

lemma fold_PreupdateHook:
  "fold PreupdateHook evs s = s\<lparr>pending := (pending s)\<lparr>Events := Events (pending s) @ evs\<rparr>\<rparr>"
  by (induction evs arbitrary: s) (simp_all add: PreupdateHook_def)

text \<open>Change capture per log entry. After \<^verbatim>\<open>Reset(k)\<close>, the updates of one committed
  transaction leave as one message with index \<open>k\<close> and the events in order, or are dropped as a
  whole when the channel is full; events of a transaction that did not commit never leave, since
  the next \<^verbatim>\<open>Reset\<close> discards them. Transactions after the first in the same entry are sent
  as messages of their own, with their events in order, but with index zero.\<close>

theorem cdc_streams_transactions:
  "(length (cdc_out s) < cdc_cap s \<longrightarrow>
      cdc_out (transact evs (cdc_Reset k s)) = cdc_out s @ [\<lparr>Index = k, Events = evs\<rparr>]) \<and>
   (cdc_cap s \<le> length (cdc_out s) \<longrightarrow>
      cdc_out (transact evs (cdc_Reset k s)) = cdc_out s \<and>
      cdc_dropped (transact evs (cdc_Reset k s)) = cdc_dropped s + 1) \<and>
   transact evs (cdc_Reset k (fold PreupdateHook lost s)) = transact evs (cdc_Reset k s) \<and>
   (length (cdc_out s) + 1 < cdc_cap s \<longrightarrow>
      cdc_out (transact evs2 (transact evs (cdc_Reset k s))) =
        cdc_out s @ [\<lparr>Index = k, Events = evs\<rparr>, \<lparr>Index = 0, Events = evs2\<rparr>])"
  by (simp add: transact_def CommitHook_def cdc_Reset_def fold_PreupdateHook Let_def)

theorem cdc_streams_transactions_witness:
  "length (cdc_out (NewCDCStreamer 4)) + 1 < cdc_cap (NewCDCStreamer 4) \<and>
   cdc_out (transact [] (transact [] (cdc_Reset 7 (NewCDCStreamer 4)))) =
     [\<lparr>Index = 7, Events = []\<rparr>, \<lparr>Index = 0, Events = []\<rparr>]"
  using cdc_streams_transactions [of "NewCDCStreamer 4" "[]" 7 "[]" "[]"]
  by (simp add: NewCDCStreamer_def)

end
