(* ===== verification/Go_Net.thy ===== *)
theory Go_Net
  imports Rq_Prelude "HOL-Library.Char_ord" "HOL-Library.List_Lexorder"
begin

text \<open>
  What the sources use of Go's \<^verbatim>\<open>strings\<close> and \<^verbatim>\<open>net\<close> packages: searching a string,
  and splitting an address into host and port. Strings are compared byte by byte, which is the
  lexicographic order of the library.
\<close>

section \<open>Searching\<close>

fun index_of :: "char \<Rightarrow> string \<Rightarrow> nat option" where
  "index_of c [] = None"
| "index_of c (x # xs) = (if x = c then Some 0 else map_option Suc (index_of c xs))"

fun last_index :: "char \<Rightarrow> string \<Rightarrow> nat option" where
  "last_index c [] = None"
| "last_index c (x # xs) = (case last_index c xs of
     Some i \<Rightarrow> Some (Suc i)
   | None \<Rightarrow> if x = c then Some 0 else None)"

fun has_prefix :: "string \<Rightarrow> string \<Rightarrow> bool" where
  "has_prefix [] s = True"
| "has_prefix (p # ps) [] = False"
| "has_prefix (p # ps) (c # s) = (p = c \<and> has_prefix ps s)"

fun contains_sub :: "string \<Rightarrow> string \<Rightarrow> bool" where
  "contains_sub p [] = (p = [])"
| "contains_sub p (c # s) = (has_prefix p (c # s) \<or> contains_sub p s)"

lemma has_prefix_iff: "has_prefix p s \<longleftrightarrow> (\<exists>r. s = p @ r)"
  by (induction p s rule: has_prefix.induct) auto

lemma contains_sub_iff: "contains_sub p s \<longleftrightarrow> (\<exists>a b. s = a @ p @ b)"
proof (induction p s rule: contains_sub.induct)
  case (2 p c s)
  show ?case
  proof
    assume "contains_sub p (c # s)"
    then consider "has_prefix p (c # s)" | "contains_sub p s" by auto
    then show "\<exists>a b. c # s = a @ p @ b"
    proof cases
      case 1
      then show ?thesis by (metis append_Nil has_prefix_iff)
    next
      case 2
      then obtain a b where "s = a @ p @ b" using \<open>contains_sub p s = _\<close> by blast
      then show ?thesis by (intro exI [of _ "c # a"] exI [of _ b]) simp
    qed
  next
    assume "\<exists>a b. c # s = a @ p @ b"
    then obtain a b where ab: "c # s = a @ p @ b" by blast
    show "contains_sub p (c # s)"
    proof (cases a)
      case Nil
      then have "has_prefix p (c # s)" using ab by (simp add: has_prefix_iff)
      then show ?thesis by simp
    next
      case (Cons x a')
      then have "contains_sub p s" using ab 2 by auto
      then show ?thesis by simp
    qed
  qed
qed auto

lemma index_of_None: "index_of c s = None \<longleftrightarrow> c \<notin> set s"
  by (induction s) auto

lemma last_index_None: "last_index c s = None \<longleftrightarrow> c \<notin> set s"
  by (induction s) (auto split: option.splits)

lemma last_index_append: "c \<notin> set b \<Longrightarrow> last_index c (a @ c # b) = Some (length a)"
  by (induction a) (auto simp: last_index_None split: option.splits)

section \<open>Host and port\<close>

datatype addr_err = MissingPort | TooManyColons | MissingBracket | UnexpectedBracket

text \<open>\<^verbatim>\<open>net.SplitHostPort\<close>.\<close>

definition SplitHostPort :: "string \<Rightarrow> (addr_err, string \<times> string) result" where
  "SplitHostPort hp = (case last_index CHR '':'' hp of
     None \<Rightarrow> Inl MissingPort
   | Some i \<Rightarrow>
      (if hp ! 0 = CHR ''['' then
         (case index_of CHR '']'' hp of
            None \<Rightarrow> Inl MissingBracket
          | Some e \<Rightarrow>
              if e + 1 = length hp then Inl MissingPort
              else if e + 1 = i then
                (if CHR ''['' \<in> set (drop 1 hp) \<or> CHR '']'' \<in> set (drop (e + 1) hp) then Inl UnexpectedBracket
                 else Inr (take (e - 1) (drop 1 hp), drop (i + 1) hp))
              else if hp ! (e + 1) = CHR '':'' then Inl TooManyColons
              else Inl MissingPort)
       else
         let host = take i hp in
         if CHR '':'' \<in> set host then Inl TooManyColons
         else if CHR ''['' \<in> set hp \<or> CHR '']'' \<in> set hp then Inl UnexpectedBracket
         else Inr (host, drop (i + 1) hp)))"

text \<open>Joining a plain host and a port, and splitting again.\<close>

lemma SplitHostPort_plain:
  assumes "set host \<inter> {CHR '':'', CHR ''['', CHR '']''} = {}"
    and "set port \<inter> {CHR '':'', CHR ''['', CHR '']''} = {}"
  shows "SplitHostPort (host @ CHR '':'' # port) = Inr (host, port)"
proof -
  have l: "last_index CHR '':'' (host @ CHR '':'' # port) = Some (length host)"
    using assms(2) by (intro last_index_append) auto
  have "(host @ CHR '':'' # port) ! 0 \<noteq> CHR ''[''"
    using assms(1) by (cases host) auto
  then show ?thesis using l assms by (auto simp: SplitHostPort_def Let_def)
qed

end
