(* ===== verification/Db_Exec.thy ===== *)
theory Db_Exec
  imports Db_Layer Go_Net
begin

text \<open>
  Statements against a connection: \<^verbatim>\<open>Execute\<close>, \<^verbatim>\<open>Query\<close>, \<^verbatim>\<open>Request\<close> and
  \<^verbatim>\<open>Dump\<close> of \<^verbatim>\<open>db/db.go\<close> with the conversion of values to and from the driver. The
  driver below them (go-sqlite3 behind database/sql) is a parameter, a record of operations on a
  connection state \<open>'c\<close>. A context is the list of the timeouts put on it, which the driver may
  answer with \<^verbatim>\<open>context.DeadlineExceeded\<close>. The elapsed times that \<open>xTime\<close> adds to results are
  clock readings and not part of the result records.
\<close>

section \<open>The driver\<close>

datatype sql_err = DeadlineExceeded | SqlErr string

definition err_str :: "sql_err \<Rightarrow> string" where
  "err_str e = (case e of DeadlineExceeded \<Rightarrow> ''context deadline exceeded'' | SqlErr m \<Rightarrow> m)"

text \<open>The dynamic types a column value can have. A time is the outcome of its \<^verbatim>\<open>MarshalText\<close>;
  any further type is named.\<close>

datatype go_any =
    A_int int
  | A_int64 int
  | A_float64 "64 word"
  | A_bool bool
  | A_string string
  | A_bytes bytes
  | A_time "(string, string) result"
  | A_nil
  | A_other string

type_synonym sql_args = "(string \<times> go_any) list"

type_synonym go_ctx = "int list"

record sql_result =
  sr_LastInsertId :: "(sql_err, int) result"
  sr_RowsAffected :: "(sql_err, int) result"

text \<open>An open result set: name and declared type of each column, the rows it will deliver, and the
  error that ends the iteration.\<close>

record sql_rows =
  rs_cols :: "(string \<times> string) list"
  rs_ColumnsErr :: "sql_err option"
  rs_ColumnTypesErr :: "sql_err option"
  rs_rows :: "go_any list list"
  rs_Err :: "sql_err option"

text \<open>What a statement is sent through: the connection or the transaction on it.\<close>

datatype execerQueryer = OnConn | OnTx

record 'c sql_driver =
  drv_Conn :: "'c \<Rightarrow> sql_err option"
  drv_BeginTx :: "go_ctx \<Rightarrow> 'c \<Rightarrow> sql_err option \<times> 'c"
  drv_Commit :: "'c \<Rightarrow> sql_err option \<times> 'c"
  drv_Rollback :: "'c \<Rightarrow> 'c"
  drv_Exec :: "go_ctx \<Rightarrow> execerQueryer \<Rightarrow> string \<Rightarrow> sql_args \<Rightarrow> 'c \<Rightarrow> (sql_err, sql_result) result \<times> 'c"
  drv_Query :: "go_ctx \<Rightarrow> execerQueryer \<Rightarrow> string \<Rightarrow> sql_args \<Rightarrow> 'c \<Rightarrow> (sql_err, sql_rows) result \<times> 'c"
  drv_CloseRows :: "nat \<Rightarrow> 'c \<Rightarrow> 'c"
  drv_Readonly :: "string \<Rightarrow> 'c \<Rightarrow> (sql_err, bool) result"

section \<open>Values\<close>

definition param_any :: "ParamValue option \<Rightarrow> go_any" where
  "param_any v = (case v of
     Some (Parameter_I i) \<Rightarrow> A_int64 i
   | Some (Parameter_D d) \<Rightarrow> A_float64 d
   | Some (Parameter_B b) \<Rightarrow> A_bool b
   | Some (Parameter_Y y) \<Rightarrow> A_bytes y
   | Some (Parameter_S s) \<Rightarrow> A_string s
   | None \<Rightarrow> A_nil)"

text \<open>The generated oneof has no other cases, so the error return of the source is not reached.\<close>

definition parametersToValues :: "Parameter list \<Rightarrow> (sql_err, sql_args) result" where
  "parametersToValues parameters = Inr (map (\<lambda>p. (p_Name p, param_any (p_Value p))) parameters)"

definition type_name :: "ParamValue option \<Rightarrow> string" where
  "type_name v = (case v of
     Some (Parameter_I _) \<Rightarrow> ''integer''
   | Some (Parameter_D _) \<Rightarrow> ''real''
   | Some (Parameter_B _) \<Rightarrow> ''boolean''
   | Some (Parameter_Y _) \<Rightarrow> ''blob''
   | Some (Parameter_S _) \<Rightarrow> ''text''
   | None \<Rightarrow> '''')"

definition populateEmptyTypes :: "string list \<Rightarrow> Parameter list \<Rightarrow> string list" where
  "populateEmptyTypes types params =
   map2 (\<lambda>t p. if t = '''' then type_name (p_Value p) else t) types params"

definition isTextType :: "string \<Rightarrow> bool" where
  "isTextType t \<longleftrightarrow> t = ''text'' \<or> t = ''json'' \<or> t = '''' \<or>
     has_prefix ''varchar'' t \<or> has_prefix ''varying character'' t \<or> has_prefix ''nchar'' t \<or>
     has_prefix ''native character'' t \<or> has_prefix ''nvarchar'' t \<or> has_prefix ''clob'' t"

definition containsEmptyType :: "string list \<Rightarrow> bool" where
  "containsEmptyType ts \<longleftrightarrow> '''' \<in> set ts"

text \<open>\<^verbatim>\<open>string(val)\<close> of a byte slice.\<close>

definition bytes_string :: "bytes \<Rightarrow> string" where
  "bytes_string = map (\<lambda>b. char_of (unat b))"

text \<open>One value of a row, given the type of its column. A nil column leaves a nil parameter, which
  reads as the empty message.\<close>

definition normalize_value :: "go_any \<Rightarrow> string \<Rightarrow> (sql_err, ParamValue option) result" where
  "normalize_value v t = (case v of
     A_int i \<Rightarrow> Inr (Some (Parameter_I i))
   | A_int64 i \<Rightarrow> Inr (Some (Parameter_I i))
   | A_float64 d \<Rightarrow> Inr (Some (Parameter_D d))
   | A_bool b \<Rightarrow> Inr (Some (Parameter_B b))
   | A_string s \<Rightarrow> Inr (Some (Parameter_S s))
   | A_bytes y \<Rightarrow> Inr (Some (if isTextType t then Parameter_S (bytes_string y) else Parameter_Y y))
   | A_time m \<Rightarrow> (case m of Inl e \<Rightarrow> Inl (SqlErr e) | Inr s \<Rightarrow> Inr (Some (Parameter_S s)))
   | A_nil \<Rightarrow> Inr None
   | A_other ty \<Rightarrow> Inl (SqlErr (''unhandled column type: '' @ ty)))"

fun normalizeRowParameters :: "go_any list \<Rightarrow> string list \<Rightarrow> (sql_err, Parameter list) result" where
  "normalizeRowParameters (v # row) (t # types) = (case normalize_value v t of
     Inl e \<Rightarrow> Inl e
   | Inr p \<Rightarrow> (case normalizeRowParameters row types of
       Inl e \<Rightarrow> Inl e
     | Inr ps \<Rightarrow> Inr (\<lparr>p_Value = p, p_Name = ''''\<rparr> # ps)))"
| "normalizeRowParameters _ _ = Inr []"

text \<open>The same for the rows of change events, where bytes always become a string.\<close>

definition normalize_cdc :: "go_any \<Rightarrow> (sql_err, ParamValue option) result" where
  "normalize_cdc v = (case v of
     A_bytes y \<Rightarrow> Inr (Some (Parameter_S (bytes_string y)))
   | _ \<Rightarrow> normalize_value v '''')"

fun normalizeCDCValues :: "go_any list \<Rightarrow> (sql_err, ParamValue option list) result" where
  "normalizeCDCValues [] = Inr []"
| "normalizeCDCValues (v # row) = (case normalize_cdc v of
     Inl e \<Rightarrow> Inl e
   | Inr p \<Rightarrow> (case normalizeCDCValues row of Inl e \<Rightarrow> Inl e | Inr ps \<Rightarrow> Inr (p # ps)))"

definition rewriteContextTimeout :: "sql_err \<Rightarrow> sql_err \<Rightarrow> sql_err" where
  "rewriteContextTimeout err retErr = (if err = DeadlineExceeded then retErr else err)"

definition ErrQueryTimeout :: sql_err where
  "ErrQueryTimeout = SqlErr ''query timeout''"

definition ErrExecuteTimeout :: sql_err where
  "ErrExecuteTimeout = SqlErr ''execute timeout''"

section \<open>Reading a result set\<close>

definition empty_rows :: QueryRows where
  "empty_rows = \<lparr>qs_Columns = [], qs_Types = [], qs_Values = [], qs_Error = ''''\<rparr>"

text \<open>\<^verbatim>\<open>strings.ToLower\<close>, on the ASCII letters.\<close>

definition ToLower :: "string \<Rightarrow> string" where
  "ToLower = map lower"

text \<open>\<^verbatim>\<open>Rows.Scan\<close> into as many variables of type \<^verbatim>\<open>any\<close> as there are columns.\<close>

definition rs_Scan :: "nat \<Rightarrow> go_any list \<Rightarrow> (sql_err, go_any list) result" where
  "rs_Scan n row = (if length row = n then Inr row
     else Inl (SqlErr ''sql: wrong number of destination arguments in Scan''))"

text \<open>The loop over the rows: \<open>k\<close> counts the calls of \<^verbatim>\<open>Next\<close>.\<close>

fun rows_loop ::
  "nat \<Rightarrow> go_any list list \<Rightarrow> string list \<Rightarrow> bool \<Rightarrow> nat \<Rightarrow> Parameter list list \<Rightarrow>
   (sql_err, Parameter list list \<times> string list) result \<times> nat" where
  "rows_loop n [] xTypes needsQueryTypes k vals = (Inr (vals, xTypes), k)"
| "rows_loop n (row # rs) xTypes needsQueryTypes k vals = (case rs_Scan n row of
     Inl e \<Rightarrow> (Inl e, Suc k)
   | Inr dest \<Rightarrow> (case normalizeRowParameters dest xTypes of
       Inl e \<Rightarrow> (Inl e, Suc k)
     | Inr params \<Rightarrow>
        rows_loop n rs (if needsQueryTypes then populateEmptyTypes xTypes params else xTypes) False
          (Suc k) (vals @ [params])))"

definition read_rows :: "sql_rows \<Rightarrow> (QueryRows option \<times> sql_err option) \<times> nat" where
  "read_rows rs = (case rs_ColumnsErr rs of
     Some e \<Rightarrow> ((None, Some e), 0)
   | None \<Rightarrow> (case rs_ColumnTypesErr rs of
       Some e \<Rightarrow> ((None, Some e), 0)
     | None \<Rightarrow>
        let columns = map fst (rs_cols rs); xTypes = map (\<lambda>(_, t). ToLower t) (rs_cols rs) in
        (case rows_loop (length columns) (rs_rows rs) xTypes (containsEmptyType xTypes) 0 [] of
           (Inl e, k) \<Rightarrow> ((None, Some e), k)
         | (Inr (vals, xTypes), k) \<Rightarrow> (case rs_Err rs of
              Some e \<Rightarrow> ((Some (empty_rows\<lparr>qs_Values := vals\<rparr>), Some e), Suc k)
            | None \<Rightarrow> ((Some (empty_rows\<lparr>qs_Columns := columns, qs_Types := xTypes, qs_Values := vals\<rparr>), None), Suc k)))))"

section \<open>Statements\<close>

text \<open>The deferred function: a deadline is reported as a query timeout, and the error goes into the
  rows as well if there are any.\<close>

definition query_return ::
  "QueryRows option \<times> sql_err option \<Rightarrow> QueryRows option \<times> sql_err option" where
  "query_return r = (case r of
     (rows, None) \<Rightarrow> (rows, None)
   | (rows, Some e) \<Rightarrow>
      let e = rewriteContextTimeout e ErrQueryTimeout in
      (map_option (\<lambda>q. q\<lparr>qs_Error := err_str e\<rparr>) rows, Some e))"

definition queryStmtWithConn ::
  "'c sql_driver \<Rightarrow> go_ctx \<Rightarrow> Statement \<Rightarrow> execerQueryer \<Rightarrow> 'c \<Rightarrow>
   (QueryRows option \<times> sql_err option) \<times> 'c" where
  "queryStmtWithConn D ctx stmt q c = (case parametersToValues (Parameters stmt) of
     Inl e \<Rightarrow> ((Some (empty_rows\<lparr>qs_Error := err_str e\<rparr>), None), c)
   | Inr parameters \<Rightarrow> (case drv_Query D ctx q (Sql stmt) parameters c of
       (Inl e, c) \<Rightarrow> (query_return (Some (empty_rows\<lparr>qs_Error := err_str e\<rparr>), Some e), c)
     | (Inr rs, c) \<Rightarrow> (case read_rows rs of
         (r, k) \<Rightarrow> (query_return r, drv_CloseRows D k c))))"

definition opt_rows :: "QueryRows option \<Rightarrow> QueryRows" where
  "opt_rows r = (case r of None \<Rightarrow> empty_rows | Some q \<Rightarrow> q)"

text \<open>\<^verbatim>\<open>ExecContext\<close> never returns a nil result together with a nil error.\<close>

definition executeStmtWithConn ::
  "'c sql_driver \<Rightarrow> go_ctx \<Rightarrow> Statement \<Rightarrow> execerQueryer \<Rightarrow> int \<Rightarrow> 'c \<Rightarrow>
   (ExecuteQueryResponse \<times> sql_err option) \<times> 'c" where
  "executeStmtWithConn D ctx stmt eq timeout c =
   (let failed = (\<lambda>e. let e = rewriteContextTimeout e ErrExecuteTimeout in (Resp_Error (err_str e), Some e)) in
    case parametersToValues (Parameters stmt) of
      Inl e \<Rightarrow> ((Resp_Error (err_str e), None), c)
    | Inr parameters \<Rightarrow>
       let ctx = (if 0 < timeout then timeout # ctx else ctx) in
       if ForceQuery stmt then
         (case queryStmtWithConn D ctx stmt eq c of
            ((_, Some e), c) \<Rightarrow> ((Resp_Error (err_str e), None), c)
          | ((rows, None), c) \<Rightarrow> ((Resp_Q (opt_rows rows), None), c))
       else
         (case drv_Exec D ctx eq (Sql stmt) parameters c of
            (Inl e, c) \<Rightarrow> (failed e, c)
          | (Inr res, c) \<Rightarrow> (case sr_LastInsertId res of
              Inl e \<Rightarrow> (failed e, c)
            | Inr lid \<Rightarrow> (case sr_RowsAffected res of
                Inl e \<Rightarrow> (failed e, c)
              | Inr ra \<Rightarrow> ((Resp_E \<lparr>LastInsertId = lid, RowsAffected = ra, res_Error = ''''\<rparr>, None), c)))))"

section \<open>Execute\<close>

text \<open>The loop over the statements. The flag says whether the transaction is still there; with it
  the first error rolls back and ends the loop.\<close>

fun exec_loop ::
  "'c sql_driver \<Rightarrow> go_ctx \<Rightarrow> execerQueryer \<Rightarrow> int \<Rightarrow> Statement list \<Rightarrow> bool \<Rightarrow>
   ExecuteQueryResponse list \<Rightarrow> 'c \<Rightarrow> ExecuteQueryResponse list \<times> bool \<times> 'c" where
  "exec_loop D ctx eqer timeout [] tx allResults c = (allResults, tx, c)"
| "exec_loop D ctx eqer timeout (stmt # stmts) tx allResults c =
   (if Sql stmt = '''' then exec_loop D ctx eqer timeout stmts tx allResults c
    else case executeStmtWithConn D ctx stmt eqer timeout c of
      ((result, None), c) \<Rightarrow> exec_loop D ctx eqer timeout stmts tx (allResults @ [result]) c
    | ((_, Some e), c) \<Rightarrow>
       let allResults = allResults @ [Resp_Error (err_str e)] in
       if tx then (allResults, False, drv_Rollback D c)
       else exec_loop D ctx eqer timeout stmts tx allResults c)"

definition executeWithConn ::
  "'c sql_driver \<Rightarrow> go_ctx \<Rightarrow> Request \<Rightarrow> 'c \<Rightarrow> (ExecuteQueryResponse list \<times> sql_err option) \<times> 'c" where
  "executeWithConn D ctx req c =
   (if \<not> Transaction req then
      (case exec_loop D ctx OnConn (DbTimeout req) (Statements req) False [] c of (rs, _, c) \<Rightarrow> ((rs, None), c))
    else case drv_BeginTx D ctx c of
      (Some e, c) \<Rightarrow> (([], Some e), c)
    | (None, c) \<Rightarrow> (case exec_loop D ctx OnTx (DbTimeout req) (Statements req) True [] c of
        (rs, tx, c) \<Rightarrow>
          if tx then (case drv_Commit D c of (err, c) \<Rightarrow> ((rs, err), drv_Rollback D c))
          else ((rs, None), c)))"

definition with_timeout :: "Request \<Rightarrow> go_ctx" where
  "with_timeout req = (if 0 < DbTimeout req then [DbTimeout req] else [])"

definition db_Execute ::
  "'c sql_driver \<Rightarrow> Request \<Rightarrow> 'c \<Rightarrow> (ExecuteQueryResponse list \<times> sql_err option) \<times> 'c" where
  "db_Execute D req c = (case drv_Conn D c of
     Some e \<Rightarrow> (([], Some e), c)
   | None \<Rightarrow> executeWithConn D (with_timeout req) req c)"

definition ExecuteStringStmtWithTimeout ::
  "'c sql_driver \<Rightarrow> string \<Rightarrow> int \<Rightarrow> 'c \<Rightarrow> (ExecuteQueryResponse list \<times> sql_err option) \<times> 'c" where
  "ExecuteStringStmtWithTimeout D query timeout = db_Execute D \<lparr>Transaction = False,
     Statements = [\<lparr>Sql = query, Parameters = [], ForceQuery = False\<rparr>], DbTimeout = timeout\<rparr>"

definition ExecuteStringStmt ::
  "'c sql_driver \<Rightarrow> string \<Rightarrow> 'c \<Rightarrow> (ExecuteQueryResponse list \<times> sql_err option) \<times> 'c" where
  "ExecuteStringStmt D query = db_Execute D \<lparr>Transaction = False,
     Statements = [\<lparr>Sql = query, Parameters = [], ForceQuery = False\<rparr>], DbTimeout = 0\<rparr>"

section \<open>Query\<close>

fun query_loop ::
  "'c sql_driver \<Rightarrow> go_ctx \<Rightarrow> execerQueryer \<Rightarrow> Statement list \<Rightarrow> QueryRows list \<Rightarrow> 'c \<Rightarrow> QueryRows list \<times> 'c" where
  "query_loop D ctx q [] allRows c = (allRows, c)"
| "query_loop D ctx q (stmt # stmts) allRows c =
   (if Sql stmt = '''' then query_loop D ctx q stmts allRows c
    else case drv_Readonly D (Sql stmt) c of
      Inl e \<Rightarrow> query_loop D ctx q stmts (allRows @ [empty_rows\<lparr>qs_Error := err_str e\<rparr>]) c
    | Inr readOnly \<Rightarrow>
       if \<not> readOnly then
         query_loop D ctx q stmts (allRows @
           [empty_rows\<lparr>qs_Error := ''attempt to change database via query operation''\<rparr>]) c
       else (case queryStmtWithConn D ctx stmt q c of
           ((_, Some e), c) \<Rightarrow> query_loop D ctx q stmts (allRows @ [empty_rows\<lparr>qs_Error := err_str e\<rparr>]) c
         | ((rows, None), c) \<Rightarrow> query_loop D ctx q stmts (allRows @ [opt_rows rows]) c))"

definition queryWithConn ::
  "'c sql_driver \<Rightarrow> go_ctx \<Rightarrow> Request \<Rightarrow> 'c \<Rightarrow> (QueryRows list \<times> sql_err option) \<times> 'c" where
  "queryWithConn D ctx req c =
   (if \<not> Transaction req then
      (case query_loop D ctx OnConn (Statements req) [] c of (rows, c) \<Rightarrow> ((rows, None), c))
    else case drv_BeginTx D ctx c of
      (Some e, c) \<Rightarrow> (([], Some e), c)
    | (None, c) \<Rightarrow> (case query_loop D ctx OnTx (Statements req) [] c of
        (rows, c) \<Rightarrow> (case drv_Commit D c of (err, c) \<Rightarrow> ((rows, err), drv_Rollback D c))))"

definition db_Query ::
  "'c sql_driver \<Rightarrow> Request \<Rightarrow> 'c \<Rightarrow> (QueryRows list \<times> sql_err option) \<times> 'c" where
  "db_Query D req c = (case drv_Conn D c of
     Some e \<Rightarrow> (([], Some e), c)
   | None \<Rightarrow> queryWithConn D (with_timeout req) req c)"

definition QueryStringStmtWithTimeout ::
  "'c sql_driver \<Rightarrow> string \<Rightarrow> bool \<Rightarrow> int \<Rightarrow> 'c \<Rightarrow> (QueryRows list \<times> sql_err option) \<times> 'c" where
  "QueryStringStmtWithTimeout D query tx timeout = db_Query D \<lparr>Transaction = tx,
     Statements = [\<lparr>Sql = query, Parameters = [], ForceQuery = False\<rparr>], DbTimeout = timeout\<rparr>"

definition QueryStringStmt ::
  "'c sql_driver \<Rightarrow> string \<Rightarrow> 'c \<Rightarrow> (QueryRows list \<times> sql_err option) \<times> 'c" where
  "QueryStringStmt D query = db_Query D \<lparr>Transaction = False,
     Statements = [\<lparr>Sql = query, Parameters = [], ForceQuery = False\<rparr>], DbTimeout = 0\<rparr>"

section \<open>Request\<close>

definition createEQQueryResponse :: "QueryRows option \<Rightarrow> sql_err option \<Rightarrow> ExecuteQueryResponse" where
  "createEQQueryResponse rows err = (case err of
     Some e \<Rightarrow> Resp_Q (empty_rows\<lparr>qs_Error := err_str e\<rparr>)
   | None \<Rightarrow> Resp_Q (opt_rows rows))"

definition requestStmt ::
  "'c sql_driver \<Rightarrow> go_ctx \<Rightarrow> Statement \<Rightarrow> bool \<Rightarrow> execerQueryer \<Rightarrow> int \<Rightarrow> 'c \<Rightarrow>
   (ExecuteQueryResponse \<times> sql_err option) \<times> 'c" where
  "requestStmt D ctx stmt ro eq timeout c =
   (if ro then (case queryStmtWithConn D ctx stmt eq c of
        ((rows, opErr), c) \<Rightarrow> ((createEQQueryResponse rows opErr, opErr), c))
    else executeStmtWithConn D ctx stmt eq timeout c)"

fun request_loop ::
  "'c sql_driver \<Rightarrow> go_ctx \<Rightarrow> execerQueryer \<Rightarrow> int \<Rightarrow> Statement list \<Rightarrow> bool \<Rightarrow>
   ExecuteQueryResponse list \<Rightarrow> 'c \<Rightarrow> ExecuteQueryResponse list \<times> bool \<times> 'c" where
  "request_loop D ctx eq timeout [] tx eqResponse c = (eqResponse, tx, c)"
| "request_loop D ctx eq timeout (stmt # stmts) tx eqResponse c =
   (if Sql stmt = '''' then request_loop D ctx eq timeout stmts tx eqResponse c
    else case drv_Readonly D (Sql stmt) c of
      Inl e \<Rightarrow> request_loop D ctx eq timeout stmts tx (eqResponse @ [Resp_Error (err_str e)]) c
    | Inr ro \<Rightarrow>
       (case requestStmt D ctx stmt ro eq timeout c of
          ((result, opErr), c) \<Rightarrow>
            if opErr \<noteq> None \<and> tx then (eqResponse @ [result], False, drv_Rollback D c)
            else request_loop D ctx eq timeout stmts tx (eqResponse @ [result]) c))"

definition db_Request ::
  "'c sql_driver \<Rightarrow> Request \<Rightarrow> 'c \<Rightarrow> (ExecuteQueryResponse list \<times> sql_err option) \<times> 'c" where
  "db_Request D req c = (case drv_Conn D c of
     Some e \<Rightarrow> (([], Some e), c)
   | None \<Rightarrow>
      let ctx = with_timeout req in
      if \<not> Transaction req then
        (case request_loop D ctx OnConn (DbTimeout req) (Statements req) False [] c of
           (rs, _, c) \<Rightarrow> ((rs, None), c))
      else (case drv_BeginTx D ctx c of
          (Some e, c) \<Rightarrow> (([], Some e), c)
        | (None, c) \<Rightarrow> (case request_loop D ctx OnTx (DbTimeout req) (Statements req) True [] c of
            (rs, tx, c) \<Rightarrow>
              if tx then (case drv_Commit D c of (err, c) \<Rightarrow> ((rs, err), drv_Rollback D c))
              else ((rs, None), drv_Rollback D c))))"

definition RequestStringStmtsWithTimeout ::
  "'c sql_driver \<Rightarrow> string list \<Rightarrow> int \<Rightarrow> 'c \<Rightarrow> (ExecuteQueryResponse list \<times> sql_err option) \<times> 'c" where
  "RequestStringStmtsWithTimeout D stmts timeout = db_Request D \<lparr>Transaction = False,
     Statements = map (\<lambda>q. \<lparr>Sql = q, Parameters = [], ForceQuery = False\<rparr>) stmts, DbTimeout = timeout\<rparr>"

definition RequestStringStmts ::
  "'c sql_driver \<Rightarrow> string list \<Rightarrow> 'c \<Rightarrow> (ExecuteQueryResponse list \<times> sql_err option) \<times> 'c" where
  "RequestStringStmts D stmts = db_Request D \<lparr>Transaction = False,
     Statements = map (\<lambda>q. \<lparr>Sql = q, Parameters = [], ForceQuery = False\<rparr>) stmts, DbTimeout = 0\<rparr>"

section \<open>Transactions\<close>

text \<open>
  What the code relies on, for a view \<open>db\<close> of the database as the connection sees it and a view
  \<open>base\<close> of the database a rollback returns to: beginning fixes it, a commit moves it to what the
  transaction did, a failed commit leaves it, and a rollback returns to it (after a commit it is
  then without effect).
\<close>

definition tx_law :: "'c sql_driver \<Rightarrow> ('c \<Rightarrow> 'd) \<Rightarrow> ('c \<Rightarrow> 'd) \<Rightarrow> bool" where
  "tx_law D db base \<longleftrightarrow>
   (\<forall>ctx c e c'. drv_BeginTx D ctx c = (e, c') \<longrightarrow> db c' = db c \<and> (e = None \<longrightarrow> base c' = db c)) \<and>
   (\<forall>c e c'. drv_Commit D c = (e, c') \<longrightarrow> base c' = (if e = None then db c else base c)) \<and>
   (\<forall>c. db (drv_Rollback D c) = base c \<and> base (drv_Rollback D c) = base c) \<and>
   (\<forall>k c. base (drv_CloseRows D k c) = base c)"

text \<open>A statement that does not itself end the transaction, as \<^verbatim>\<open>COMMIT\<close> would.\<close>

definition stays_in_tx :: "'c sql_driver \<Rightarrow> ('c \<Rightarrow> 'd) \<Rightarrow> Statement \<Rightarrow> bool" where
  "stays_in_tx D base s \<longleftrightarrow>
   (\<forall>ctx args c. base (snd (drv_Exec D ctx OnTx (Sql s) args c)) = base c \<and>
      base (snd (drv_Query D ctx OnTx (Sql s) args c)) = base c)"

lemma tx_lawD:
  assumes "tx_law D db base"
  shows "drv_BeginTx D ctx c = (e, c') \<Longrightarrow> db c' = db c"
    and "drv_BeginTx D ctx c = (None, c') \<Longrightarrow> base c' = db c"
    and "drv_Commit D c = (None, c') \<Longrightarrow> base c' = db c"
    and "drv_Commit D c = (Some x, c') \<Longrightarrow> base c' = base c"
    and "db (drv_Rollback D c) = base c" and "base (drv_Rollback D c) = base c"
    and "base (drv_CloseRows D k c) = base c"
  using assms unfolding tx_law_def by (blast | simp)+

text \<open>A response that does not hide the failure of its statement; a forced query is answered with
  its error but goes on.\<close>

definition answered :: "Statement \<Rightarrow> ExecuteQueryResponse \<Rightarrow> bool" where
  "answered s r = (case r of Resp_Error _ \<Rightarrow> ForceQuery s | Resp_Q q \<Rightarrow> qs_Error q = '''' | Resp_E _ \<Rightarrow> True)"

text \<open>The answer to a failed statement carries the error and no rows.\<close>

definition is_error :: "ExecuteQueryResponse \<Rightarrow> bool" where
  "is_error r = (case r of Resp_Error _ \<Rightarrow> True | Resp_Q q \<Rightarrow> q = empty_rows\<lparr>qs_Error := qs_Error q\<rparr> | Resp_E _ \<Rightarrow> False)"

lemma read_rows_error: "read_rows rs = ((rows, None), k) \<Longrightarrow> qs_Error (opt_rows rows) = ''''"
  by (auto simp: read_rows_def Let_def opt_rows_def empty_rows_def
      split: option.splits prod.splits sum.splits)

lemma queryStmt_error:
  "queryStmtWithConn D ctx s q c = ((rows, None), c') \<Longrightarrow> qs_Error (opt_rows rows) = ''''"
  by (auto simp: queryStmtWithConn_def parametersToValues_def query_return_def Let_def
      split: prod.splits sum.splits option.splits dest: read_rows_error)

lemma executeStmt_answered:
  "executeStmtWithConn D ctx s q t c = ((r, None), c') \<Longrightarrow> answered s r"
  by (auto simp: executeStmtWithConn_def parametersToValues_def answered_def Let_def
      split: prod.splits sum.splits option.splits if_splits dest: queryStmt_error)

lemma executeStmt_failed:
  "executeStmtWithConn D ctx s q t c = ((r, Some e), c') \<Longrightarrow> r = Resp_Error (err_str e)"
  by (auto simp: executeStmtWithConn_def parametersToValues_def Let_def
      split: prod.splits sum.splits option.splits if_splits)

lemma queryStmt_base:
  assumes "tx_law D db base" and "stays_in_tx D base s"
  shows "base (snd (queryStmtWithConn D ctx s OnTx c)) = base c"
proof -
  have q: "drv_Query D ctx OnTx (Sql s) a c = (r, c') \<Longrightarrow> base c' = base c" for a r c'
    using assms(2) unfolding stays_in_tx_def by (metis snd_conv)
  show ?thesis
    by (auto simp: queryStmtWithConn_def parametersToValues_def tx_lawD(7) [OF assms(1)]
        split: prod.splits sum.splits dest: q)
qed

lemma executeStmt_base:
  assumes "tx_law D db base" and "stays_in_tx D base s"
  shows "base (snd (executeStmtWithConn D ctx s OnTx t c)) = base c"
proof -
  have e: "drv_Exec D x OnTx (Sql s) a c = (r, c') \<Longrightarrow> base c' = base c" for x a r c'
    using assms(2) unfolding stays_in_tx_def by (metis snd_conv)
  have q: "queryStmtWithConn D x s OnTx c = (r, c') \<Longrightarrow> base c' = base c" for x r c'
    using queryStmt_base [OF assms, of x c] by simp
  show ?thesis
    by (auto simp: executeStmtWithConn_def parametersToValues_def Let_def
        split: prod.splits sum.splits option.splits dest: e q)
qed

lemma requestStmt_base:
  assumes "tx_law D db base" and "stays_in_tx D base s"
  shows "base (snd (requestStmt D ctx s ro OnTx t c)) = base c"
  using queryStmt_base [OF assms, of ctx c] executeStmt_base [OF assms, of ctx t c]
  by (auto simp: requestStmt_def split: prod.splits)

lemma requestStmt_answered: "requestStmt D ctx s ro q t c = ((r, None), c') \<Longrightarrow> answered s r"
  by (auto simp: requestStmt_def createEQQueryResponse_def answered_def split: prod.splits if_splits
      dest: queryStmt_error executeStmt_answered [unfolded answered_def])

text \<open>Both loops are one: a step per statement, and within a transaction a rollback at the first
  error.\<close>

fun tx_loop ::
  "(Statement \<Rightarrow> 'c \<Rightarrow> (ExecuteQueryResponse \<times> sql_err option) \<times> 'c) \<Rightarrow> ('c \<Rightarrow> 'c) \<Rightarrow> Statement list \<Rightarrow> bool \<Rightarrow>
   ExecuteQueryResponse list \<Rightarrow> 'c \<Rightarrow> ExecuteQueryResponse list \<times> bool \<times> 'c" where
  "tx_loop step roll [] tx acc c = (acc, tx, c)"
| "tx_loop step roll (s # ss) tx acc c =
   (if Sql s = '''' then tx_loop step roll ss tx acc c
    else case step s c of ((r, err), c) \<Rightarrow>
      if err \<noteq> None \<and> tx then (acc @ [r], False, roll c)
      else tx_loop step roll ss tx (acc @ [r]) c)"

definition request_step ::
  "'c sql_driver \<Rightarrow> go_ctx \<Rightarrow> execerQueryer \<Rightarrow> int \<Rightarrow> Statement \<Rightarrow> 'c \<Rightarrow>
   (ExecuteQueryResponse \<times> sql_err option) \<times> 'c" where
  "request_step D ctx eq t s c = (case drv_Readonly D (Sql s) c of
     Inl e \<Rightarrow> ((Resp_Error (err_str e), None), c)
   | Inr ro \<Rightarrow> requestStmt D ctx s ro eq t c)"

lemma exec_loop_tx_loop:
  "exec_loop D ctx eq t ss tx acc c =
   tx_loop (\<lambda>s. executeStmtWithConn D ctx s eq t) (drv_Rollback D) ss tx acc c"
  by (induction ss arbitrary: acc c)
    (auto simp: Let_def split: prod.splits option.splits dest: executeStmt_failed)

lemma request_loop_tx_loop:
  "request_loop D ctx eq t ss tx acc c =
   tx_loop (request_step D ctx eq t) (drv_Rollback D) ss tx acc c"
  by (induction ss arbitrary: acc c) (auto simp: request_step_def split: prod.splits sum.splits)

text \<open>The statements that count, and the connection after all of them in turn.\<close>

definition stmts_of :: "Request \<Rightarrow> Statement list" where
  "stmts_of req = filter (\<lambda>s. Sql s \<noteq> '''') (Statements req)"

definition run_all :: "(Statement \<Rightarrow> 'c \<Rightarrow> 'r \<times> 'c) \<Rightarrow> Statement list \<Rightarrow> 'c \<Rightarrow> 'c" where
  "run_all step ss c = fold (\<lambda>s c. snd (step s c)) ss c"

text \<open>How a transaction of the statements \<open>ss\<close> from \<open>c\<close> ends: with all of them answered, or with
  the first failure reported last and the database back at its base.\<close>

definition tx_outcome ::
  "(Statement \<Rightarrow> ExecuteQueryResponse \<Rightarrow> bool) \<Rightarrow> (Statement \<Rightarrow> 'c \<Rightarrow> 'r \<times> 'c) \<Rightarrow> ('c \<Rightarrow> 'd) \<Rightarrow> ('c \<Rightarrow> 'd) \<Rightarrow>
   Statement list \<Rightarrow> 'c \<Rightarrow> ExecuteQueryResponse list \<Rightarrow> bool \<Rightarrow> 'c \<Rightarrow> bool" where
  "tx_outcome ok step db base ss c rs tx c' \<longleftrightarrow>
   (if tx then list_all2 ok ss rs \<and> c' = run_all step ss c \<and> base c' = base c
    else db c' = base c \<and> base c' = base c \<and>
      (\<exists>ss1 ss2 rs1 x. ss = ss1 @ ss2 \<and> ss2 \<noteq> [] \<and> rs = rs1 @ [x] \<and> list_all2 ok ss1 rs1 \<and> is_error x))"

lemma tx_outcome_Nil: "tx_outcome ok step db base [] c [] True c"
  by (simp add: tx_outcome_def run_all_def)

lemma tx_outcome_fail:
  "\<lbrakk>is_error x; db c' = base c; base c' = base c\<rbrakk> \<Longrightarrow> tx_outcome ok step db base (s # ss) c [x] False c'"
  unfolding tx_outcome_def by fastforce

lemma tx_outcome_Cons:
  assumes "tx_outcome ok step db base ss c1 rs tx c'" and "ok s r"
    and "c1 = snd (step s c)" and "base c1 = base c"
  shows "tx_outcome ok step db base (s # ss) c (r # rs) tx c'"
proof (cases tx)
  case True
  then show ?thesis using assms by (auto simp: tx_outcome_def run_all_def)
next
  case False
  then obtain ss1 ss2 rs1 x where "ss = ss1 @ ss2" "ss2 \<noteq> []" "rs = rs1 @ [x]" "list_all2 ok ss1 rs1" "is_error x"
    using assms(1) by (auto simp: tx_outcome_def)
  then have "s # ss = (s # ss1) @ ss2 \<and> ss2 \<noteq> [] \<and> r # rs = (r # rs1) @ [x] \<and>
    list_all2 ok (s # ss1) (r # rs1) \<and> is_error x"
    using assms(2) by simp
  then show ?thesis using False assms(1,4) unfolding tx_outcome_def by (simp, blast)
qed

lemma tx_loop_outcome:
  assumes "tx_loop step roll ss True acc c = (rs, tx, c')"
    and base: "\<And>s c. s \<in> set ss \<Longrightarrow> base (snd (step s c)) = base c"
    and ok: "\<And>s c r c'. step s c = ((r, None), c') \<Longrightarrow> ok s r"
    and fail: "\<And>s c r e c'. step s c = ((r, Some e), c') \<Longrightarrow> is_error r"
    and roll: "\<And>c. db (roll c) = base c" "\<And>c. base (roll c) = base c"
  shows "\<exists>new. rs = acc @ new \<and>
    tx_outcome ok step db base (filter (\<lambda>s. Sql s \<noteq> '''') ss) c new tx c'"
  using assms(1,2)
proof (induction ss arbitrary: acc c)
  case Nil
  then show ?case by (auto simp: tx_outcome_Nil)
next
  case (Cons s ss)
  have IH: "tx_loop step roll ss True acc c = (rs, tx, c') \<Longrightarrow> \<exists>new. rs = acc @ new \<and>
    tx_outcome ok step db base (filter (\<lambda>s. Sql s \<noteq> '''') ss) c new tx c'" for acc c
    using Cons.IH Cons.prems(2) by (meson list.set_intros(2))
  obtain r err c1 where st: "step s c = ((r, err), c1)" by (metis surj_pair)
  have b: "base c1 = base c" using Cons.prems(2) [of s c] st by simp
  consider "Sql s = ''''" | "Sql s \<noteq> ''''" "err = None" | e where "Sql s \<noteq> ''''" "err = Some e"
    by (cases err) auto
  then show ?case
  proof cases
    case 1
    then show ?thesis using IH [of acc c] Cons.prems(1) by simp
  next
    case 2
    then have "tx_loop step roll ss True (acc @ [r]) c1 = (rs, tx, c')" using Cons.prems(1) st by simp
    from IH [OF this] obtain new where n: "rs = acc @ r # new"
      and o: "tx_outcome ok step db base (filter (\<lambda>s. Sql s \<noteq> '''') ss) c1 new tx c'" by auto
    have "ok s r" and "c1 = snd (step s c)" using ok st 2 by auto
    from tx_outcome_Cons [where base = base, OF o this b] show ?thesis using n 2(1) by simp
  next
    case 3
    then have "rs = acc @ [r]" "tx = False" "c' = roll c1" using Cons.prems(1) st by auto
    moreover have "is_error r" using fail st 3 by blast
    ultimately show ?thesis using 3(1) roll b by (simp add: tx_outcome_fail)
  qed
qed

text \<open>A transaction around the loop: begin, the statements, commit, and the deferred rollback.\<close>

definition in_transaction ::
  "'c sql_driver \<Rightarrow> go_ctx \<Rightarrow> (Statement \<Rightarrow> 'c \<Rightarrow> (ExecuteQueryResponse \<times> sql_err option) \<times> 'c) \<Rightarrow>
   Statement list \<Rightarrow> 'c \<Rightarrow> (ExecuteQueryResponse list \<times> sql_err option) \<times> 'c \<Rightarrow> bool" where
  "in_transaction D ctx step ss c out \<longleftrightarrow> (case out of ((rs, err), c') \<Rightarrow>
     (case drv_BeginTx D ctx c of
        (Some e, c1) \<Rightarrow> rs = [] \<and> err = Some e \<and> c' = c1
      | (None, c1) \<Rightarrow> (case tx_loop step (drv_Rollback D) ss True [] c1 of
          (rs', True, c2) \<Rightarrow> rs = rs' \<and> (case drv_Commit D c2 of (e, c3) \<Rightarrow> err = e \<and> c' = drv_Rollback D c3)
        | (rs', False, c2) \<Rightarrow> rs = rs' \<and> err = None \<and> (c' = c2 \<or> c' = drv_Rollback D c2))))"

text \<open>What the caller may conclude from the answer.\<close>

definition atomic_outcome ::
  "'c sql_driver \<Rightarrow> go_ctx \<Rightarrow> (Statement \<Rightarrow> ExecuteQueryResponse \<Rightarrow> bool) \<Rightarrow> (Statement \<Rightarrow> 'c \<Rightarrow> 'r \<times> 'c) \<Rightarrow>
   ('c \<Rightarrow> 'd) \<Rightarrow> Statement list \<Rightarrow> 'c \<Rightarrow> (ExecuteQueryResponse list \<times> sql_err option) \<times> 'c \<Rightarrow> bool" where
  "atomic_outcome D ctx ok step db ss c out \<longleftrightarrow> (case out of ((rs, err), c') \<Rightarrow>
     err \<noteq> None \<and> db c' = db c \<or>
     err = None \<and> db c' = db c \<and>
       (\<exists>ss1 ss2 rs1 x. ss = ss1 @ ss2 \<and> ss2 \<noteq> [] \<and> rs = rs1 @ [x] \<and> list_all2 ok ss1 rs1 \<and> is_error x) \<or>
     err = None \<and> list_all2 ok ss rs \<and> db c' = db (run_all step ss (snd (drv_BeginTx D ctx c))))"

lemma in_transaction_atomic:
  assumes law: "tx_law D db base" and run: "in_transaction D ctx step ss c out"
    and "\<And>s c. s \<in> set ss \<Longrightarrow> base (snd (step s c)) = base c"
    and "\<And>s c r c'. step s c = ((r, None), c') \<Longrightarrow> ok s r"
    and "\<And>s c r e c'. step s c = ((r, Some e), c') \<Longrightarrow> is_error r"
  shows "atomic_outcome D ctx ok step db (filter (\<lambda>s. Sql s \<noteq> '''') ss) c out"
proof -
  obtain rs err c' where out: "out = ((rs, err), c')" by (metis surj_pair)
  obtain b c1 where bg: "drv_BeginTx D ctx c = (b, c1)" by (cases "drv_BeginTx D ctx c")
  show ?thesis
  proof (cases b)
    case (Some e)
    then show ?thesis using run out bg tx_lawD(1) [OF law bg]
      by (simp add: in_transaction_def atomic_outcome_def)
  next
    case None
    obtain rs' tx c2 where l: "tx_loop step (drv_Rollback D) ss True [] c1 = (rs', tx, c2)"
      by (metis surj_pair)
    have o: "tx_outcome ok step db base (filter (\<lambda>s. Sql s \<noteq> '''') ss) c1 rs' tx c2"
      using tx_loop_outcome [OF l assms(3-5) tx_lawD(5,6) [OF law]] by auto
    have b1: "base c1 = db c" using tx_lawD(2) [OF law] bg None by simp
    obtain e c3 where cm: "drv_Commit D c2 = (e, c3)" by (cases "drv_Commit D c2")
    have b3: "base c3 = (if e = None then db c2 else base c2)"
      using tx_lawD(3,4) [OF law] cm by (cases e) auto
    note d = in_transaction_def atomic_outcome_def tx_outcome_def out bg
    show ?thesis
    proof (cases tx)
      case True
      then show ?thesis using run o b1 b3 None l cm tx_lawD(5) [OF law] by (auto simp: d)
    next
      case False
      then show ?thesis using run o b1 None l tx_lawD(5) [OF law] by (auto simp: d)
    qed
  qed
qed

lemma Execute_in_transaction:
  assumes "Transaction req" and "drv_Conn D c = None"
  shows "in_transaction D (with_timeout req)
    (\<lambda>s. executeStmtWithConn D (with_timeout req) s OnTx (DbTimeout req)) (Statements req) c (db_Execute D req c)"
  using assms
  by (auto simp: in_transaction_def db_Execute_def executeWithConn_def exec_loop_tx_loop
      split: prod.splits option.splits bool.splits)

lemma Request_in_transaction:
  assumes "Transaction req" and "drv_Conn D c = None"
  shows "in_transaction D (with_timeout req)
    (request_step D (with_timeout req) OnTx (DbTimeout req)) (Statements req) c (db_Request D req c)"
  using assms
  by (auto simp: in_transaction_def db_Request_def Let_def request_loop_tx_loop
      split: prod.splits option.splits bool.splits)

lemma requestStmt_failed: "requestStmt D ctx s ro q t c = ((r, Some e), c') \<Longrightarrow> is_error r"
  by (auto simp: requestStmt_def createEQQueryResponse_def is_error_def empty_rows_def
      split: prod.splits if_splits dest!: executeStmt_failed)

lemma executeStmt_is_error: "executeStmtWithConn D ctx s q t c = ((r, Some e), c') \<Longrightarrow> is_error r"
  by (drule executeStmt_failed) (simp add: is_error_def)

text \<open>In a mixed request a statement that cannot be prepared is answered with that error, too.\<close>

definition answered_or_unprepared :: "'c sql_driver \<Rightarrow> Statement \<Rightarrow> ExecuteQueryResponse \<Rightarrow> bool" where
  "answered_or_unprepared D s r \<longleftrightarrow> answered s r \<or>
     (\<exists>c e. drv_Readonly D (Sql s) c = Inl e \<and> r = Resp_Error (err_str e))"

lemma request_step_facts:
  shows "request_step D ctx q t s c = ((r, None), c') \<Longrightarrow> answered_or_unprepared D s r"
    and "request_step D ctx q t s c = ((r, Some e), c') \<Longrightarrow> is_error r"
    and "\<lbrakk>tx_law D db base; stays_in_tx D base s\<rbrakk> \<Longrightarrow> base (snd (request_step D ctx OnTx t s c)) = base c"
  by (auto simp: request_step_def answered_or_unprepared_def requestStmt_base split: sum.splits
      dest: requestStmt_answered requestStmt_failed)

lemma Execute_atomic:
  assumes "tx_law D db base" and "Transaction req"
    and "\<forall>s\<in>set (Statements req). stays_in_tx D base s"
  shows "atomic_outcome D (with_timeout req) answered
      (\<lambda>s. executeStmtWithConn D (with_timeout req) s OnTx (DbTimeout req)) db (stmts_of req) c (db_Execute D req c)"
proof (cases "drv_Conn D c")
  case None
  show ?thesis unfolding stmts_of_def
    by (rule in_transaction_atomic [OF assms(1) Execute_in_transaction [OF assms(2) None]])
      (simp_all add: executeStmt_base [OF assms(1)] assms(3) executeStmt_answered executeStmt_is_error)
qed (simp add: atomic_outcome_def db_Execute_def)

lemma Request_atomic:
  assumes "tx_law D db base" and "Transaction req"
    and "\<forall>s\<in>set (Statements req). stays_in_tx D base s"
  shows "atomic_outcome D (with_timeout req) (answered_or_unprepared D)
      (request_step D (with_timeout req) OnTx (DbTimeout req)) db (stmts_of req) c (db_Request D req c)"
proof (cases "drv_Conn D c")
  case None
  show ?thesis unfolding stmts_of_def
    by (rule in_transaction_atomic [OF assms(1) Request_in_transaction [OF assms(2) None]])
      (simp_all add: request_step_facts(3) [OF assms(1)] assms(3) request_step_facts(1,2))
qed (simp add: atomic_outcome_def db_Request_def)

text \<open>C7: Transactions are atomic. With a driver that keeps the transaction laws and statements
  that do not themselves end the transaction, an \<^verbatim>\<open>Execute\<close> or \<^verbatim>\<open>Request\<close> with the
  transaction flag does one of three things: it returns an error and the database is as before;
  or it returns the answers up to the first failed statement, the last one being its error, and
  the database is as before; or it returns one answer without error for every non-empty statement
  and the database is as the statements in turn leave it. The exceptions are the ones the code
  makes: the error of a forced query and, in a mixed request, of a statement that cannot be
  prepared, is reported in its place and does not abort.\<close>

theorem transaction_atomic:
  assumes "tx_law D db base" and "Transaction req"
    and "\<forall>s\<in>set (Statements req). stays_in_tx D base s"
  shows "atomic_outcome D (with_timeout req) answered
      (\<lambda>s. executeStmtWithConn D (with_timeout req) s OnTx (DbTimeout req)) db (stmts_of req) c (db_Execute D req c) \<and>
    atomic_outcome D (with_timeout req) (answered_or_unprepared D)
      (request_step D (with_timeout req) OnTx (DbTimeout req)) db (stmts_of req) c (db_Request D req c)"
  using Execute_atomic [OF assms] Request_atomic [OF assms] by blast

text \<open>A driver for evaluation: the database is a list of numbers, a connection holds it and the one
  to return to. The statement \<^verbatim>\<open>BAD\<close> fails, \<^verbatim>\<open>SELECT\<close> returns the list, and any other
  one appends its length.\<close>

definition sample_driver :: "(nat list \<times> nat list) sql_driver" where
  "sample_driver = \<lparr>
     drv_Conn = (\<lambda>_. None),
     drv_BeginTx = (\<lambda>_ (d, _). (None, (d, d))),
     drv_Commit = (\<lambda>(d, _). (None, (d, d))),
     drv_Rollback = (\<lambda>(_, b). (b, b)),
     drv_Exec = (\<lambda>_ q sql _ (d, b). if sql = ''BAD'' then (Inl (SqlErr ''bad''), (d, b))
        else (Inr \<lparr>sr_LastInsertId = Inr (int (length d)), sr_RowsAffected = Inr 2\<rparr>,
              (d @ [length sql], if q = OnTx then b else d @ [length sql]))),
     drv_Query = (\<lambda>_ _ sql _ (d, b). if sql = ''BAD'' then (Inl (SqlErr ''bad''), (d, b))
        else (Inr \<lparr>rs_cols = [(''n'', ''INTEGER''), (''x'', '''')], rs_ColumnsErr = None,
                rs_ColumnTypesErr = None, rs_rows = map (\<lambda>n. [A_int64 (int n), A_bytes [65]]) d,
                rs_Err = None\<rparr>, (d, b))),
     drv_CloseRows = (\<lambda>_ c. c),
     drv_Readonly = (\<lambda>sql _. if sql = ''BAD'' then Inl (SqlErr ''bad'') else Inr (sql = ''SELECT''))\<rparr>"

lemma sample_tx_law: "tx_law sample_driver fst snd"
  by (auto simp: tx_law_def sample_driver_def)

lemma sample_stays_in_tx: "stays_in_tx sample_driver snd s"
  by (auto simp: stays_in_tx_def sample_driver_def)

definition sample_tx :: "Statement list \<Rightarrow> Request" where
  "sample_tx ss = \<lparr>Transaction = True, Statements = ss, DbTimeout = 0\<rparr>"

definition sample_stmt :: "string \<Rightarrow> bool \<Rightarrow> Statement" where
  "sample_stmt s force = \<lparr>Sql = s, Parameters = [], ForceQuery = force\<rparr>"

theorem transaction_atomic_witness:
  "let req = sample_tx [sample_stmt ''INSERT'' False, sample_stmt ''BAD'' False] in
   tx_law sample_driver fst snd \<and> Transaction req \<and>
   (\<forall>s\<in>set (Statements req). stays_in_tx sample_driver snd s) \<and>
   atomic_outcome sample_driver (with_timeout req) answered
      (\<lambda>s. executeStmtWithConn sample_driver (with_timeout req) s OnTx (DbTimeout req)) fst (stmts_of req) ([7], [])
      (db_Execute sample_driver req ([7], [])) \<and>
   fst (snd (db_Execute sample_driver req ([7], []))) = [7]"
proof -
  define req where "req = sample_tx [sample_stmt ''INSERT'' False, sample_stmt ''BAD'' False]"
  have "Transaction req" by (simp add: req_def sample_tx_def)
  moreover have "fst (snd (db_Execute sample_driver req ([7], []))) = [7]"
    unfolding req_def by code_simp
  ultimately show ?thesis
    using transaction_atomic [OF sample_tx_law, of req "([7], [])"] sample_tx_law
    by (simp add: sample_stays_in_tx flip: req_def)
qed

text \<open>The two exceptions are real. A forced query that fails in the middle of a transaction does not
  stop it, and neither does a statement of a mixed request that cannot be prepared: what stands
  before and after it is committed.\<close>

lemma forced_query_failure_commits:
  "db_Execute sample_driver (sample_tx [sample_stmt ''INSERT'' False, sample_stmt ''BAD'' True,
     sample_stmt ''UPDATE A'' False]) ([], []) =
   (([Resp_E \<lparr>LastInsertId = 0, RowsAffected = 2, res_Error = ''''\<rparr>, Resp_Error ''bad'',
      Resp_E \<lparr>LastInsertId = 1, RowsAffected = 2, res_Error = ''''\<rparr>], None), ([6, 8], [6, 8]))"
  by code_simp

lemma unprepared_statement_commits:
  "db_Request sample_driver (sample_tx [sample_stmt ''INSERT'' False, sample_stmt ''BAD'' False,
     sample_stmt ''UPDATE A'' False]) ([], []) =
   (([Resp_E \<lparr>LastInsertId = 0, RowsAffected = 2, res_Error = ''''\<rparr>, Resp_Error ''bad'',
      Resp_E \<lparr>LastInsertId = 1, RowsAffected = 2, res_Error = ''''\<rparr>], None), ([6, 8], [6, 8]))"
  by code_simp

section \<open>Types of results\<close>

text \<open>A driver value and the parameter that stands for it in a column of type \<open>t\<close>.\<close>

definition carries :: "go_any \<Rightarrow> string \<Rightarrow> ParamValue option \<Rightarrow> bool" where
  "carries v t p = (case v of
     A_int i \<Rightarrow> p = Some (Parameter_I i)
   | A_int64 i \<Rightarrow> p = Some (Parameter_I i)
   | A_float64 d \<Rightarrow> p = Some (Parameter_D d)
   | A_bool b \<Rightarrow> p = Some (Parameter_B b)
   | A_string s \<Rightarrow> p = Some (Parameter_S s)
   | A_bytes y \<Rightarrow> if isTextType t then p = Some (Parameter_S (bytes_string y)) else p = Some (Parameter_Y y)
   | A_time m \<Rightarrow> (\<exists>s. m = Inr s \<and> p = Some (Parameter_S s))
   | A_nil \<Rightarrow> p = None
   | A_other _ \<Rightarrow> False)"

lemma carries_iff: "normalize_value v t = Inr p \<longleftrightarrow> carries v t p"
  by (auto simp: normalize_value_def carries_def split: go_any.splits sum.splits)

lemma type_name_text: "isTextType (type_name p) \<longleftrightarrow> p = None \<or> (\<exists>s. p = Some (Parameter_S s))"
  by (auto simp: isTextType_def type_name_def split: option.splits ParamValue.splits)

lemma isTextType_empty: "isTextType ''''"
  by (simp add: isTextType_def)

lemma carries_populated: "carries v '''' p \<Longrightarrow> carries v (type_name p) p"
  by (cases v) (auto simp: carries_def type_name_text isTextType_empty)

lemma normalizeRow_carries:
  "length vs = length ts \<Longrightarrow> normalizeRowParameters vs ts = Inr ps \<Longrightarrow>
   length ps = length ts \<and> (\<forall>i<length ts. carries (vs ! i) (ts ! i) (p_Value (ps ! i)))"
proof (induction vs ts arbitrary: ps rule: list_induct2)
  case (Cons v vs t ts)
  then obtain p ps' where "normalize_value v t = Inr p" "normalizeRowParameters vs ts = Inr ps'"
    "ps = \<lparr>p_Value = p, p_Name = ''''\<rparr> # ps'" by (auto split: sum.splits)
  then show ?case using Cons.IH by (auto simp: carries_iff nth_Cons split: nat.splits)
qed simp

lemma nth_populate:
  "\<lbrakk>length ps = length ts; i < length ts\<rbrakk> \<Longrightarrow>
   populateEmptyTypes ts ps ! i = (if ts ! i = '''' then type_name (p_Value (ps ! i)) else ts ! i)"
  by (simp add: populateEmptyTypes_def)

lemma length_populate [simp]: "length ps = length ts \<Longrightarrow> length (populateEmptyTypes ts ps) = length ts"
  by (simp add: populateEmptyTypes_def)

text \<open>A row in step with the types of its columns.\<close>

definition row_typed :: "string list \<Rightarrow> go_any list \<Rightarrow> Parameter list \<Rightarrow> bool" where
  "row_typed ts vs ps \<longleftrightarrow> length vs = length ts \<and> length ps = length ts \<and>
     (\<forall>i<length ts. carries (vs ! i) (ts ! i) (p_Value (ps ! i)))"

lemma row_typed_populate: "row_typed ts vs ps \<Longrightarrow> row_typed (populateEmptyTypes ts ps) vs ps"
  by (auto simp: row_typed_def nth_populate dest: carries_populated) (metis carries_populated)

lemma rows_loop_typed:
  "rows_loop (length ts) rs ts False k acc = (Inr (vals, ts'), k') \<Longrightarrow>
   ts' = ts \<and> (\<exists>new. vals = acc @ new \<and> list_all2 (row_typed ts) rs new)"
proof (induction rs arbitrary: k acc)
  case (Cons vs rs)
  from Cons.prems have n: "length vs = length ts" by (auto simp: rs_Scan_def split: if_splits)
  with Cons.prems obtain ps where "normalizeRowParameters vs ts = Inr ps"
    and l: "rows_loop (length ts) rs ts False (Suc k) (acc @ [ps]) = (Inr (vals, ts'), k')"
    by (auto simp: rs_Scan_def split: sum.splits)
  then have "row_typed ts vs ps" using normalizeRow_carries n by (simp add: row_typed_def)
  then show ?case using Cons.IH [OF l] by auto
qed simp

text \<open>The reported types: as declared, and where nothing is declared, by the first row.\<close>

definition reported_types :: "string list \<Rightarrow> Parameter list list \<Rightarrow> string list" where
  "reported_types ts vals = (case vals of [] \<Rightarrow> ts | ps # _ \<Rightarrow> populateEmptyTypes ts ps)"

lemma populate_none: "\<lbrakk>length ps = length ts; \<not> containsEmptyType ts\<rbrakk> \<Longrightarrow> populateEmptyTypes ts ps = ts"
  by (rule nth_equalityI) (simp_all add: nth_populate containsEmptyType_def in_set_conv_nth)

lemma read_rows_typed:
  assumes "rows_loop (length ts) rs ts (containsEmptyType ts) 0 [] = (Inr (vals, ts'), k)"
  shows "ts' = reported_types ts vals \<and> length ts' = length ts \<and> list_all2 (row_typed ts') rs vals"
proof (cases rs)
  case Nil
  then show ?thesis using assms by (simp add: reported_types_def)
next
  case (Cons vs rs')
  then have n: "length vs = length ts" using assms by (auto simp: rs_Scan_def split: if_splits)
  then obtain ps where ps: "normalizeRowParameters vs ts = Inr ps"
    using assms Cons by (auto simp: rs_Scan_def split: sum.splits)
  have t: "row_typed ts vs ps" using normalizeRow_carries n ps by (simp add: row_typed_def)
  then have lp: "length ps = length ts" by (simp add: row_typed_def)
  define us where "us = populateEmptyTypes ts ps"
  have us: "(if containsEmptyType ts then populateEmptyTypes ts ps else ts) = us" "length us = length ts"
    using lp by (auto simp: us_def populate_none)
  have "rows_loop (length us) rs' us False (Suc 0) [ps] = (Inr (vals, ts'), k)"
    using assms Cons n ps us by (simp add: rs_Scan_def)
  from rows_loop_typed [OF this] obtain new where "ts' = us" "vals = ps # new" "list_all2 (row_typed us) rs' new"
    by auto
  then show ?thesis using row_typed_populate [OF t] Cons us by (simp add: reported_types_def us_def)
qed

text \<open>C22: Typed results. A query that succeeds reports the columns of the result set with one type
  each: the declared type in lower case, and for a column without a declared type the type of its
  value in the first row. Every row has exactly one value per column, and each value is the driver's
  one in the form that goes with the reported type: numbers and booleans as they are, SQL NULL as
  no value, and bytes as a string in a text column and as a blob in any other.\<close>

theorem query_rows_typed:
  assumes "drv_Query D ctx q (Sql s) args c = (Inr rs, c1)" and "parametersToValues (Parameters s) = Inr args"
    and "queryStmtWithConn D ctx s q c = ((Some rows, None), c')"
  shows "qs_Columns rows = map fst (rs_cols rs) \<and> length (qs_Types rows) = length (qs_Columns rows) \<and>
    qs_Types rows = reported_types (map (\<lambda>(_, t). ToLower t) (rs_cols rs)) (qs_Values rows) \<and>
    list_all2 (row_typed (qs_Types rows)) (rs_rows rs) (qs_Values rows) \<and>
    (\<forall>ps\<in>set (qs_Values rows). \<forall>i<length (qs_Columns rows).
       \<forall>y. p_Value (ps ! i) = Some (Parameter_Y y) \<longrightarrow> \<not> isTextType (qs_Types rows ! i))"
proof -
  define ts where "ts = map (\<lambda>(_, t). ToLower t) (rs_cols rs)"
  obtain k where "read_rows rs = ((Some rows, None), k)"
    using assms by (auto simp: queryStmtWithConn_def query_return_def Let_def split: prod.splits option.splits)
  then obtain k' where l: "rows_loop (length ts) (rs_rows rs) ts (containsEmptyType ts) 0 [] =
      (Inr (qs_Values rows, qs_Types rows), k')" and c: "qs_Columns rows = map fst (rs_cols rs)"
    by (auto simp: read_rows_def ts_def Let_def empty_rows_def split: option.splits prod.splits sum.splits)
  note r = read_rows_typed [OF l]
  have "length (qs_Types rows) = length ts" using r by blast
  then have "length (qs_Types rows) = length (qs_Columns rows)" by (simp only: c ts_def length_map)
  with r have t: "qs_Types rows = reported_types ts (qs_Values rows)" "length (qs_Types rows) = length (qs_Columns rows)"
    and a: "list_all2 (row_typed (qs_Types rows)) (rs_rows rs) (qs_Values rows)" by blast+
  have "\<not> isTextType (qs_Types rows ! i)"
    if ps: "ps \<in> set (qs_Values rows)" and i: "i < length (qs_Columns rows)"
      and y: "p_Value (ps ! i) = Some (Parameter_Y y)" for ps i y
  proof -
    obtain j where "j < length (qs_Values rows)" "qs_Values rows ! j = ps" using ps by (metis in_set_conv_nth)
    then have "row_typed (qs_Types rows) (rs_rows rs ! j) ps" using a by (auto simp: list_all2_conv_all_nth)
    then have "carries (rs_rows rs ! j ! i) (qs_Types rows ! i) (p_Value (ps ! i))" using i t(2)
      unfolding row_typed_def by simp
    then have "carries (rs_rows rs ! j ! i) (qs_Types rows ! i) (Some (Parameter_Y y))" by (simp only: y)
    then show ?thesis by (auto simp: carries_def split: go_any.splits if_splits)
  qed
  then show ?thesis using c t a unfolding ts_def by blast
qed

theorem query_rows_typed_witness:
  "drv_Query sample_driver [] OnConn ''SELECT'' [] ([7], []) =
     (Inr \<lparr>rs_cols = [(''n'', ''INTEGER''), (''x'', '''')], rs_ColumnsErr = None, rs_ColumnTypesErr = None,
        rs_rows = [[A_int64 7, A_bytes [65]]], rs_Err = None\<rparr>, ([7], [])) \<and>
   (\<exists>rows. queryStmtWithConn sample_driver [] (sample_stmt ''SELECT'' False) OnConn ([7], []) = ((Some rows, None), ([7], [])) \<and>
      qs_Types rows = [''integer'', ''text''] \<and>
      list_all2 (row_typed (qs_Types rows)) [[A_int64 7, A_bytes [65]]] (qs_Values rows))"
proof -
  define rs where "rs = \<lparr>rs_cols = [(''n'', ''INTEGER''), (''x'', '''')], rs_ColumnsErr = None, rs_ColumnTypesErr = None,
        rs_rows = [[A_int64 7, A_bytes [65]]], rs_Err = None :: sql_err option\<rparr>"
  define rows where "rows = \<lparr>qs_Columns = [''n'', ''x''], qs_Types = [''integer'', ''text''],
    qs_Values = [[\<lparr>p_Value = Some (Parameter_I 7), p_Name = ''''\<rparr>, \<lparr>p_Value = Some (Parameter_S ''A''), p_Name = ''''\<rparr>]], qs_Error = ''''\<rparr>"
  have d: "drv_Query sample_driver [] OnConn ''SELECT'' [] ([7], []) = (Inr rs, ([7], []))"
    by (simp add: sample_driver_def rs_def)
  have q: "queryStmtWithConn sample_driver [] (sample_stmt ''SELECT'' False) OnConn ([7], []) = ((Some rows, None), ([7], []))"
    unfolding rows_def by code_simp
  have "drv_Query sample_driver [] OnConn (Sql (sample_stmt ''SELECT'' False)) [] ([7], []) = (Inr rs, ([7], []))"
    "parametersToValues (Parameters (sample_stmt ''SELECT'' False)) = Inr []"
    using d by (simp_all add: sample_stmt_def parametersToValues_def)
  from query_rows_typed [OF this q]
  have "list_all2 (row_typed (qs_Types rows)) (rs_rows rs) (qs_Values rows)" by blast
  moreover have "rs_rows rs = [[A_int64 7, A_bytes [65]]]" "qs_Types rows = [''integer'', ''text'']"
    by (simp_all add: rs_def rows_def)
  ultimately show ?thesis using d q unfolding rs_def by metis
qed

section \<open>Queries leave the database alone\<close>

text \<open>
  A statement that SQLite reports as read-only does not change the database. It may end an open
  transaction (\<^verbatim>\<open>COMMIT\<close> counts as read-only), which moves the base to the database as it is.
\<close>

definition ro_law :: "'c sql_driver \<Rightarrow> ('c \<Rightarrow> 'd) \<Rightarrow> ('c \<Rightarrow> 'd) \<Rightarrow> bool" where
  "ro_law D db base \<longleftrightarrow>
   (\<forall>ctx q sql args c r c'. drv_Readonly D sql c = Inr True \<longrightarrow> drv_Query D ctx q sql args c = (r, c') \<longrightarrow>
      db c' = db c \<and> (base c' = base c \<or> base c' = db c)) \<and>
   (\<forall>k c. db (drv_CloseRows D k c) = db c)"

text \<open>The answer to a statement that is not read-only.\<close>

definition refused :: QueryRows where
  "refused = empty_rows\<lparr>qs_Error := ''attempt to change database via query operation''\<rparr>"

definition query_answer :: "'c sql_driver \<Rightarrow> Statement \<Rightarrow> QueryRows \<Rightarrow> bool" where
  "query_answer D s q \<longleftrightarrow>
   (\<exists>c. drv_Readonly D (Sql s) c = Inr True) \<or>
   (\<exists>c e. drv_Readonly D (Sql s) c = Inl e \<and> q = empty_rows\<lparr>qs_Error := err_str e\<rparr>) \<or>
   q = refused"

lemma queryStmt_readonly:
  assumes "tx_law D db base" and "ro_law D db base" and "drv_Readonly D (Sql s) c = Inr True"
    and "queryStmtWithConn D ctx s q c = (r, c')"
  shows "db c' = db c" and "base c' = base c \<or> base c' = db c"
proof -
  have q: "db c1 = db c \<and> (base c1 = base c \<or> base c1 = db c)"
    if "drv_Query D ctx q (Sql s) args c = (x, c1)" for args x c1
    using assms(2,3) that unfolding ro_law_def by blast
  have k: "db (drv_CloseRows D k c1) = db c1" "base (drv_CloseRows D k c1) = base c1" for k c1
    using assms(2) tx_lawD(7) [OF assms(1)] unfolding ro_law_def by blast+
  show "db c' = db c" and "base c' = base c \<or> base c' = db c"
    using assms(4) by (auto simp: queryStmtWithConn_def parametersToValues_def k
        split: prod.splits sum.splits dest: q)
qed

lemma query_loop_readonly:
  assumes law: "tx_law D db base" "ro_law D db base"
    and "query_loop D ctx q ss acc c = (rows, c')"
  shows "db c' = db c \<and> (base c' = base c \<or> base c' = db c) \<and>
    (\<exists>new. rows = acc @ new \<and> list_all2 (query_answer D) (filter (\<lambda>s. Sql s \<noteq> '''') ss) new)"
  using assms(3)
proof (induction ss arbitrary: acc c)
  case (Cons s ss)
  have next_step: "db c' = db c \<and> (base c' = base c \<or> base c' = db c) \<and>
      (\<exists>new. rows = acc @ new \<and> list_all2 (query_answer D) (filter (\<lambda>s. Sql s \<noteq> '''') (s # ss)) new)"
    if "query_loop D ctx q ss (acc @ [x]) c1 = (rows, c')" and "Sql s \<noteq> ''''" and "query_answer D s x"
      and "db c1 = db c" and "base c1 = base c \<or> base c1 = db c" for x c1
    using Cons.IH [OF that(1)] that(2-) by auto
  show ?case
  proof (cases "Sql s = ''''")
    case True
    then show ?thesis using Cons.IH [of acc c] Cons.prems by simp
  next
    case False
    note l = Cons.prems [unfolded query_loop.simps if_not_P [OF False]]
    consider e where "drv_Readonly D (Sql s) c = Inl e" | "drv_Readonly D (Sql s) c = Inr False"
      | "drv_Readonly D (Sql s) c = Inr True" by (metis sum.exhaust)
    then show ?thesis
    proof cases
      case 1
      then show ?thesis using l False by (intro next_step) (auto simp: query_answer_def)
    next
      case 2
      then show ?thesis using l False by (intro next_step) (auto simp: query_answer_def refused_def)
    next
      case 3
      obtain r e c1 where st: "queryStmtWithConn D ctx s q c = ((r, e), c1)" by (metis surj_pair)
      note f = queryStmt_readonly [OF law 3 st]
      obtain x where "query_loop D ctx q ss (acc @ [x]) c1 = (rows, c')" using l 3 st by (cases e) auto
      moreover have "query_answer D s x" using 3 by (auto simp: query_answer_def)
      ultimately show ?thesis using next_step [OF _ False _ f] by blast
    qed
  qed
qed simp

text \<open>C21: Queries change nothing and answer everything. Whatever the statements of a
  \<^verbatim>\<open>Query\<close>, and whether in a transaction or not, the database is unchanged; unless no
  connection or transaction could be had, there is one answer per non-empty statement, in order,
  and a statement that is not read-only is never run: its answer is the refusal.\<close>

theorem query_read_only:
  assumes "tx_law D db base" and "ro_law D db base" and "db_Query D req c = ((rows, err), c')"
  shows "db c' = db c \<and>
    (rows = [] \<and> err \<noteq> None \<or> list_all2 (query_answer D) (stmts_of req) rows)"
proof (cases "drv_Conn D c = None \<and> Transaction req")
  case False
  obtain rows1 c1 where l: "query_loop D (with_timeout req) OnConn (Statements req) [] c = (rows1, c1)"
    by (metis surj_pair)
  show ?thesis
  proof (cases "drv_Conn D c")
    case None
    then show ?thesis using False assms(3) l query_loop_readonly [OF assms(1,2) l]
      by (auto simp: db_Query_def queryWithConn_def stmts_of_def)
  next
    case (Some e)
    then have "((rows, err), c') = (([], Some e), c)" using assms(3) by (simp add: db_Query_def)
    then show ?thesis by simp
  qed
next
  case True
  obtain b c1 where bg: "drv_BeginTx D (with_timeout req) c = (b, c1)" by (metis surj_pair)
  obtain rows1 c2 where l: "query_loop D (with_timeout req) OnTx (Statements req) [] c1 = (rows1, c2)"
    by (metis surj_pair)
  obtain e c3 where cm: "drv_Commit D c2 = (e, c3)" by (metis surj_pair)
  have d1: "db c1 = db c" and b1: "b = None \<Longrightarrow> base c1 = db c"
    using tx_lawD(1,2) [OF assms(1)] bg by auto
  from query_loop_readonly [OF assms(1,2) l] have d2: "db c2 = db c1" "base c2 = base c1 \<or> base c2 = db c1"
    and a: "list_all2 (query_answer D) (stmts_of req) rows1" by (auto simp: stmts_of_def)
  have d3: "base c3 = (if e = None then db c2 else base c2)"
    using tx_lawD(3,4) [OF assms(1)] cm by (cases e) auto
  show ?thesis
  proof (cases b)
    case None
    then have "rows = rows1" "c' = drv_Rollback D c3" using assms(3) True bg l cm
      by (auto simp: db_Query_def queryWithConn_def)
    then show ?thesis using a d1 d2 d3 b1 [OF None] tx_lawD(5) [OF assms(1)] by (auto split: if_splits)
  next
    case (Some x)
    then show ?thesis using assms(3) True bg d1 by (auto simp: db_Query_def queryWithConn_def)
  qed
qed

lemma sample_ro_law: "ro_law sample_driver fst snd"
  by (auto simp: ro_law_def sample_driver_def)

theorem query_read_only_witness:
  "let req = sample_tx [sample_stmt ''SELECT'' False, sample_stmt ''INSERT'' False, sample_stmt ''BAD'' False] in
   tx_law sample_driver fst snd \<and> ro_law sample_driver fst snd \<and>
   (\<exists>rows c'. db_Query sample_driver req ([7], []) = ((rows, None), c') \<and> fst c' = [7] \<and>
      list_all2 (query_answer sample_driver) (stmts_of req) rows)"
proof -
  define req where "req = sample_tx [sample_stmt ''SELECT'' False, sample_stmt ''INSERT'' False, sample_stmt ''BAD'' False]"
  obtain rows err c' where q: "db_Query sample_driver req ([7], []) = ((rows, err), c')" by (metis surj_pair)
  have "snd (fst (db_Query sample_driver req ([7], []))) = None" unfolding req_def by code_simp
  then have e: "err = None" using q by simp
  have "fst c' = [7] \<and> list_all2 (query_answer sample_driver) (stmts_of req) rows"
    using query_read_only [OF sample_tx_law sample_ro_law q] e by simp
  then show ?thesis using q e sample_tx_law sample_ro_law unfolding Let_def req_def [symmetric] by blast
qed

section \<open>Dump\<close>

text \<open>The text is the list of what is written, and stops where an error does; the writer takes
  everything. A list that is indexed has the columns its query names.\<close>

definition commReq :: "string \<Rightarrow> Request" where
  "commReq query = \<lparr>Transaction = False,
     Statements = [\<lparr>Sql = query, Parameters = [], ForceQuery = False\<rparr>], DbTimeout = 0\<rparr>"

definition GetS :: "Parameter \<Rightarrow> string" where
  "GetS p = (case p_Value p of Some (Parameter_S s) \<Rightarrow> s | _ \<Rightarrow> '''')"

definition double_quotes :: "string \<Rightarrow> string" where
  "double_quotes s = concat (map (\<lambda>ch. if ch = CHR 0x22 then [CHR 0x22, CHR 0x22] else [ch]) s)"

fun join_comma :: "string list \<Rightarrow> string" where
  "join_comma [] = ''''"
| "join_comma [x] = x"
| "join_comma (x # y # ys) = x @ '','' @ join_comma (y # ys)"

text \<open>One query of the dump: the rows of the first answer.\<close>

definition dump_query :: "'c sql_driver \<Rightarrow> string \<Rightarrow> 'c \<Rightarrow> (sql_err, Parameter list list) result \<times> 'c" where
  "dump_query D query c = (case queryWithConn D [] (commReq query) c of
     ((_, Some e), c) \<Rightarrow> (Inl e, c)
   | ((rows, None), c) \<Rightarrow> (Inr (qs_Values (rows ! 0)), c))"

definition schema_query :: string where
  "schema_query = ''SELECT \"name\", \"type\", \"sql\" FROM \"sqlite_master\"'' @ [CHR 0x0A] @
     ''              WHERE \"sql\" NOT NULL AND \"type\" == 'table' ORDER BY \"name\"''"

definition others_query :: string where
  "others_query = ''SELECT \"name\", \"type\", \"sql\" FROM \"sqlite_master\"'' @ [CHR 0x0A, CHR 0x09, CHR 0x09, CHR 0x09] @
     ''  WHERE \"sql\" NOT NULL AND \"type\" IN ('index', 'trigger', 'view')''"

definition table_info_query :: "string \<Rightarrow> string" where
  "table_info_query tableIndent = ''PRAGMA table_info(\"'' @ tableIndent @ ''\")''"

definition insert_query :: "string \<Rightarrow> string list \<Rightarrow> string" where
  "insert_query tableIndent columnNames =
   ''SELECT 'INSERT INTO \"'' @ tableIndent @ ''\" VALUES('' @ join_comma columnNames @
   '')' FROM \"'' @ tableIndent @ ''\";''"

definition dump_line :: "string \<Rightarrow> string" where
  "dump_line s = s @ '';'' @ [CHR 0x0A]"

text \<open>One table: its statement, then a line per row of the generated query. \<open>None\<close> skips it.\<close>

definition dump_stmt :: "Parameter list \<Rightarrow> string option" where
  "dump_stmt v = (let table = GetS (v ! 0) in
     if table = ''sqlite_sequence'' then Some ''DELETE FROM \"sqlite_sequence\";''
     else if table = ''sqlite_stat1'' then Some ''ANALYZE \"sqlite_master\";''
     else if has_prefix ''sqlite_'' table then None
     else Some (GetS (v ! 2)))"

definition quoted_column :: "Parameter list \<Rightarrow> string" where
  "quoted_column w = [CHR 0x27] @ ''||quote(\"'' @ GetS (w ! 1) @ ''\")||'' @ [CHR 0x27]"

definition dump_table ::
  "'c sql_driver \<Rightarrow> Parameter list \<Rightarrow> 'c \<Rightarrow> (string list \<times> sql_err option) \<times> 'c" where
  "dump_table D v c = (case dump_stmt v of
     None \<Rightarrow> (([], None), c)
   | Some stmt \<Rightarrow>
      let tableIndent = double_quotes (GetS (v ! 0)) in
      (case dump_query D (table_info_query tableIndent) c of
         (Inl e, c) \<Rightarrow> (([dump_line stmt], Some e), c)
       | (Inr infos, c) \<Rightarrow>
          (case dump_query D (insert_query tableIndent (map quoted_column infos)) c of
             (Inl e, c) \<Rightarrow> (([dump_line stmt], Some e), c)
           | (Inr xs, c) \<Rightarrow> ((dump_line stmt # map (\<lambda>x. dump_line (GetS (x ! 0))) xs, None), c))))"

fun dump_tables ::
  "'c sql_driver \<Rightarrow> Parameter list list \<Rightarrow> 'c \<Rightarrow> (string list \<times> sql_err option) \<times> 'c" where
  "dump_tables D [] c = (([], None), c)"
| "dump_tables D (v # vs) c = (case dump_table D v c of
     ((out, Some e), c) \<Rightarrow> ((out, Some e), c)
   | ((out, None), c) \<Rightarrow> (case dump_tables D vs c of
       ((outs, err), c) \<Rightarrow> ((out @ outs, err), c)))"

definition dump_head :: string where
  "dump_head = ''PRAGMA foreign_keys=OFF;'' @ [CHR 0x0A] @ ''BEGIN TRANSACTION;'' @ [CHR 0x0A]"

definition db_Dump :: "'c sql_driver \<Rightarrow> 'c \<Rightarrow> (string list \<times> sql_err option) \<times> 'c" where
  "db_Dump D c = (case drv_Conn D c of
     Some e \<Rightarrow> (([], Some e), c)
   | None \<Rightarrow> (case dump_query D schema_query c of
       (Inl e, c) \<Rightarrow> (([dump_head], Some e), c)
     | (Inr tables, c) \<Rightarrow> (case dump_tables D tables c of
         ((outs, Some e), c) \<Rightarrow> ((dump_head # outs, Some e), c)
       | ((outs, None), c) \<Rightarrow> (case dump_query D others_query c of
           (Inl e, c) \<Rightarrow> ((dump_head # outs, Some e), c)
         | (Inr others, c) \<Rightarrow>
            ((dump_head # outs @ map (\<lambda>v. dump_line (GetS (v ! 2))) others @ [''COMMIT;'' @ [CHR 0x0A]], None), c)))))"

text \<open>The dump never reports a failure of one of its queries, because without a transaction
  \<^verbatim>\<open>queryWithConn\<close> puts such errors into the rows, which are not looked at: a table whose rows
  cannot be read is dumped as an empty one, and the dump ends as a complete one would.\<close>

lemma dump_query_no_error: "\<exists>xs. fst (dump_query D q c) = Inr xs"
  by (auto simp: dump_query_def queryWithConn_def commReq_def split: prod.splits)

lemma dump_hides_failure:
  assumes "dump_stmt v = Some stmt"
    and "\<forall>c. drv_Readonly D (insert_query (double_quotes (GetS (v ! 0))) cols) c = Inl e"
    and "dump_query D (table_info_query (double_quotes (GetS (v ! 0)))) c = (Inr infos, c1)"
    and "cols = map quoted_column infos"
  shows "dump_table D v c = (([dump_line stmt], None), c1)"
proof -
  have "insert_query t cols \<noteq> ''''" for t by (simp add: insert_query_def)
  then have "dump_query D (insert_query (double_quotes (GetS (v ! 0))) cols) c1 = (Inr [], c1)"
    using assms(2) by (simp add: dump_query_def queryWithConn_def commReq_def empty_rows_def)
  then show ?thesis using assms by (simp add: dump_table_def Let_def)
qed

lemma dump_always_completes:
  assumes "drv_Conn D c = None"
  shows "\<exists>outs. fst (db_Dump D c) = (dump_head # outs @ [''COMMIT;'' @ [CHR 0x0A]], None)"
proof -
  have q: "\<exists>xs c'. dump_query D q c = (Inr xs, c')" for q c
    using dump_query_no_error [of D q c] by (metis prod.collapse)
  have t: "\<exists>out c'. dump_table D v c = ((out, None), c')" for v c
  proof (cases "dump_stmt v")
    case (Some s)
    obtain infos c1 where 1: "dump_query D (table_info_query (double_quotes (GetS (v ! 0)))) c = (Inr infos, c1)"
      using q by blast
    obtain xs c2 where "dump_query D (insert_query (double_quotes (GetS (v ! 0))) (map quoted_column infos)) c1 = (Inr xs, c2)"
      using q by blast
    then show ?thesis using 1 Some by (simp add: dump_table_def Let_def)
  qed (simp add: dump_table_def)
  have ts: "\<exists>outs c'. dump_tables D vs c = ((outs, None), c')" for vs c
  proof (induction vs arbitrary: c)
    case (Cons v vs)
    obtain out c1 where "dump_table D v c = ((out, None), c1)" using t by blast
    moreover obtain outs c2 where "dump_tables D vs c1 = ((outs, None), c2)" using Cons by blast
    ultimately show ?case by simp
  qed simp
  obtain tables c1 where 1: "dump_query D schema_query c = (Inr tables, c1)" using q by blast
  obtain outs c2 where 2: "dump_tables D tables c1 = ((outs, None), c2)" using ts by blast
  obtain others c3 where 3: "dump_query D others_query c2 = (Inr others, c3)" using q by blast
  show ?thesis using assms 1 2 3 by (simp add: db_Dump_def)
qed

section \<open>Hooks\<close>

text \<open>The operation codes of SQLite's hooks.\<close>

definition SQLITE_DELETE :: int where "SQLITE_DELETE = 9"

definition SQLITE_INSERT :: int where "SQLITE_INSERT = 18"

definition SQLITE_UPDATE :: int where "SQLITE_UPDATE = 23"

text \<open>What SQLite hands to the pre-update hook, with the outcome of reading the old and the new row.\<close>

record SQLitePreUpdateData =
  pd_Op :: int
  pd_TableName :: string
  pd_OldRowID :: int
  pd_NewRowID :: int
  pd_Old :: "(string, go_any list) result"
  pd_New :: "(string, go_any list) result"

definition cdc_row ::
  "string \<Rightarrow> (string, go_any list) result \<Rightarrow> ParamValue option list option \<times> string option" where
  "cdc_row which row = (case row of
     Inl e \<Rightarrow> (None, Some (''failed to get '' @ which @ '' row data: '' @ e))
   | Inr vs \<Rightarrow> (case normalizeCDCValues vs of
       Inl e \<Rightarrow> (None, Some (''failed to normalize '' @ which @ '' row data: '' @ err_str e))
     | Inr ps \<Rightarrow> (Some ps, None)))"

definition cdc_convert :: "bool \<Rightarrow> SQLitePreUpdateData \<Rightarrow> CDCEvent \<times> string option" where
  "cdc_convert rowIDsOnly d =
   (let ev = \<lparr>ev_Error = '''', ev_Op = CDC_UNKNOWN, ev_Table = pd_TableName d, ev_OldRowId = pd_OldRowID d,
          ev_NewRowId = pd_NewRowID d, ev_OldRow = None, ev_NewRow = None\<rparr> in
    if pd_Op d \<notin> {SQLITE_INSERT, SQLITE_UPDATE, SQLITE_DELETE} then (ev, Some ''unknown preupdate hook operation'')
    else
      let ev = ev\<lparr>ev_Op := (if pd_Op d = SQLITE_INSERT then CDC_INSERT
                 else if pd_Op d = SQLITE_UPDATE then CDC_UPDATE else CDC_DELETE)\<rparr> in
      if rowIDsOnly then (ev, None)
      else case (if pd_Op d \<noteq> SQLITE_INSERT then cdc_row ''old'' (pd_Old d) else (None, None)) of
        (_, Some e) \<Rightarrow> (ev, Some e)
      | (old, None) \<Rightarrow>
         let ev = ev\<lparr>ev_OldRow := old\<rparr> in
         (case (if pd_Op d \<noteq> SQLITE_DELETE then cdc_row ''new'' (pd_New d) else (None, None)) of
            (_, Some e) \<Rightarrow> (ev, Some e)
          | (new, None) \<Rightarrow> (ev\<lparr>ev_NewRow := new\<rparr>, None)))"

text \<open>The callback given to SQLite: the hook sees every change, with the error in the event.\<close>

definition preupdate_cb :: "(CDCEvent \<Rightarrow> 's \<Rightarrow> 's) \<Rightarrow> bool \<Rightarrow> SQLitePreUpdateData \<Rightarrow> 's \<Rightarrow> 's" where
  "preupdate_cb hook rowIDsOnly d s = (case cdc_convert rowIDsOnly d of
     (ev, None) \<Rightarrow> hook ev s
   | (ev, Some e) \<Rightarrow> hook (ev\<lparr>ev_Error := e\<rparr>) s)"

datatype UpdateHookOp = HOOK_INSERT | HOOK_UPDATE | HOOK_DELETE

record UpdateHookEvent =
  uh_Op :: UpdateHookOp
  uh_Table :: string
  uh_RowId :: int

text \<open>The callback of the update hook. For an operation it does not know the source dereferences the
  nil event; that panic is \<open>None\<close>.\<close>

definition update_cb ::
  "(UpdateHookEvent \<Rightarrow> 's \<Rightarrow> 's) \<Rightarrow> int \<Rightarrow> string \<Rightarrow> int \<Rightarrow> 's \<Rightarrow> 's option" where
  "update_cb hook oper table rowID s =
   (let ev = (\<lambda>k. \<lparr>uh_Op = k, uh_Table = table, uh_RowId = rowID\<rparr>) in
    if oper = SQLITE_INSERT then Some (hook (ev HOOK_INSERT) s)
    else if oper = SQLITE_UPDATE then Some (hook (ev HOOK_UPDATE) s)
    else if oper = SQLITE_DELETE then Some (hook (ev HOOK_DELETE) s)
    else None)"

definition commit_cb :: "('s \<Rightarrow> bool \<times> 's) \<Rightarrow> 's \<Rightarrow> int \<times> 's" where
  "commit_cb hook s = (case hook s of (ok, s) \<Rightarrow> (if ok then 0 else 1, s))"

lemmas hook_ops = SQLITE_INSERT_def SQLITE_UPDATE_def SQLITE_DELETE_def

lemma normalizeCDC_length: "normalizeCDCValues vs = Inr ps \<Longrightarrow> length ps = length vs"
  by (induction vs arbitrary: ps) (auto split: sum.splits)

text \<open>An event without error has the old row exactly when there is one, and the new row likewise,
  with a value for every column; no blob is left in it.\<close>

lemma cdc_event_rows:
  assumes "cdc_convert False d = (ev, None)"
  shows "(ev_OldRow ev \<noteq> None) = (ev_Op ev \<noteq> CDC_INSERT) \<and> (ev_NewRow ev \<noteq> None) = (ev_Op ev \<noteq> CDC_DELETE)"
  using assms
  by (auto simp: cdc_convert_def cdc_row_def Let_def hook_ops split: if_splits sum.splits)

lemma changes_streamed:
  "preupdate_cb PreupdateHook r d s =
   PreupdateHook (case cdc_convert r d of (ev, None) \<Rightarrow> ev | (ev, Some e) \<Rightarrow> ev\<lparr>ev_Error := e\<rparr>) s"
  by (simp add: preupdate_cb_def split: prod.splits option.splits)

section \<open>The engine as the store sees it\<close>

text \<open>
  The operations of the store's engine, built from the ones above: queries run on a read-only
  connection \<open>ro c\<close> to the same database, everything else on the single read-write connection. A
  nil request does not reach them.
\<close>

definition with_driver :: "'c sql_driver \<Rightarrow> ('c \<Rightarrow> 'c) \<Rightarrow> 'c db_lib \<Rightarrow> 'c db_lib" where
  "with_driver D ro L = L\<lparr>
     lib_Query := (\<lambda>rq t c. case rq of None \<Rightarrow> lib_Query L rq t c
       | Some req \<Rightarrow> (case db_Query D req (ro c) of ((rows, err), _) \<Rightarrow> (rows, map_option err_str err))),
     lib_Execute := (\<lambda>rq t c. case rq of None \<Rightarrow> lib_Execute L rq t c
       | Some req \<Rightarrow> (case db_Execute D req c of ((rs, err), c) \<Rightarrow> ((rs, map_option err_str err), c))),
     lib_Request := (\<lambda>rq t c. case rq of None \<Rightarrow> lib_Request L rq t c
       | Some req \<Rightarrow> (case db_Request D req c of ((rs, err), c) \<Rightarrow> ((rs, map_option err_str err), c))),
     lib_StmtReadOnly := (\<lambda>sql c. case drv_Conn D (ro c) of Some e \<Rightarrow> Inl (err_str e)
       | None \<Rightarrow> (case drv_Readonly D sql (ro c) of Inl e \<Rightarrow> Inl (err_str e) | Inr b \<Rightarrow> Inr b))\<rparr>"

lemma with_driver_simps [simp]:
  "lib_Execute (with_driver D ro L) (Some req) t c =
   (case db_Execute D req c of ((rs, err), c) \<Rightarrow> ((rs, map_option err_str err), c))"
  "lib_Request (with_driver D ro L) (Some req) t c =
   (case db_Request D req c of ((rs, err), c) \<Rightarrow> ((rs, map_option err_str err), c))"
  "lib_Query (with_driver D ro L) (Some req) t c =
   (case db_Query D req (ro c) of ((rows, err), _) \<Rightarrow> (rows, map_option err_str err))"
  by (simp_all add: with_driver_def)

end
