(* ===== verification/Http_Request.thy ===== *)
theory Http_Request
  imports Db_Exec
begin

text \<open>
  What a client sends over HTTP: the query parameters (\<^verbatim>\<open>http/query_params.go\<close>), the request
  body with its statements and parameters (\<^verbatim>\<open>http/request_parser.go\<close>), and the rewriting of
  statements before they go through the log (\<^verbatim>\<open>command/sql/processor.go\<close>). JSON text is the
  sequence of tokens and values the decoder delivers. Parsing a duration or a float is the standard
  library's, the SQL parser with the walk over its tree is a third-party package; they are
  parameters.
\<close>

section \<open>Statements in a body\<close>

datatype json =
    J_null
  | J_bool bool
  | J_num string
  | J_str string
  | J_arr "json list"
  | J_obj "(string \<times> json) list"

datatype parse_err =
    ErrNoStatements
  | ErrInvalidJSON
  | ErrInvalidRequest
  | ErrUnsupportedType string
  | InvalidNumber string

definition parse_err_str :: "parse_err \<Rightarrow> string" where
  "parse_err_str e = (case e of
     ErrNoStatements \<Rightarrow> ''no statements''
   | ErrInvalidJSON \<Rightarrow> ''invalid JSON body''
   | ErrInvalidRequest \<Rightarrow> ''invalid request''
   | ErrUnsupportedType t \<Rightarrow> ''unsupported type '' @ t
   | InvalidNumber s \<Rightarrow> ''invalid number '' @ s)"

text \<open>\<^verbatim>\<open>Number.Int64\<close>: decimal digits with an optional sign, within 64 bits.\<close>

definition digit_val :: "char \<Rightarrow> nat option" where
  "digit_val c = (if between CHR ''0'' CHR ''9'' c then Some (of_char c - 48) else None)"

fun digits_val :: "string \<Rightarrow> nat \<Rightarrow> nat option" where
  "digits_val [] acc = Some acc"
| "digits_val (c # s) acc = (case digit_val c of None \<Rightarrow> None | Some d \<Rightarrow> digits_val s (10 * acc + d))"

definition num_Int64 :: "string \<Rightarrow> int option" where
  "num_Int64 s =
   (let neg = (s \<noteq> [] \<and> hd s = CHR ''-'');
        ds = (if s \<noteq> [] \<and> (hd s = CHR ''-'' \<or> hd s = CHR ''+'') then tl s else s) in
    if ds = [] then None
    else case digits_val ds 0 of
      None \<Rightarrow> None
    | Some v \<Rightarrow>
       let i = (if neg then - int v else int v) in
       if - (2 ^ 63) \<le> i \<and> i < 2 ^ 63 then Some i else None)"

text \<open>The Go type of a decoded value, as \<^verbatim>\<open>%T\<close> prints it.\<close>

definition go_type :: "json \<Rightarrow> string" where
  "go_type j = (case j of
     J_null \<Rightarrow> ''<nil>''
   | J_bool _ \<Rightarrow> ''bool''
   | J_num _ \<Rightarrow> ''json.Number''
   | J_str _ \<Rightarrow> ''string''
   | J_arr _ \<Rightarrow> ''[]interface {}''
   | J_obj _ \<Rightarrow> ''map[string]interface {}'')"

text \<open>An array of numbers from 0 to 255 is a blob.\<close>

fun byte_array :: "json list \<Rightarrow> (parse_err, bytes) result" where
  "byte_array [] = Inr []"
| "byte_array (e # es) = (case e of
     J_num s \<Rightarrow> (case num_Int64 s of
         None \<Rightarrow> Inl (ErrUnsupportedType s)
       | Some i \<Rightarrow>
          if i < 0 \<or> 255 < i then Inl (ErrUnsupportedType s)
          else (case byte_array es of Inl x \<Rightarrow> Inl x | Inr bs \<Rightarrow> Inr (word_of_int i # bs)))
   | _ \<Rightarrow> Inl (ErrUnsupportedType (go_type e)))"

text \<open>The float parser of the standard library is \<open>f64\<close>.\<close>

definition makeParameter ::
  "(string \<Rightarrow> 64 word option) \<Rightarrow> string \<Rightarrow> json \<Rightarrow> (parse_err, Parameter) result" where
  "makeParameter f64 name i =
   (let mk = (\<lambda>v. Inr \<lparr>p_Value = v, p_Name = name\<rparr>) in
    case i of
      J_num s \<Rightarrow> (case num_Int64 s of
          Some v \<Rightarrow> mk (Some (Parameter_I v))
        | None \<Rightarrow> (case f64 s of
            Some d \<Rightarrow> mk (Some (Parameter_D d))
          | None \<Rightarrow> Inl (InvalidNumber s)))
    | J_bool b \<Rightarrow> mk (Some (Parameter_B b))
    | J_str s \<Rightarrow> (case ParseHex s of
          Inl _ \<Rightarrow> mk (Some (Parameter_S s))
        | Inr b \<Rightarrow> mk (Some (Parameter_Y b)))
    | J_arr es \<Rightarrow> (case byte_array es of Inl e \<Rightarrow> Inl e | Inr b \<Rightarrow> mk (Some (Parameter_Y b)))
    | J_null \<Rightarrow> mk None
    | J_obj _ \<Rightarrow> Inl (ErrUnsupportedType (go_type i)))"

fun make_all ::
  "(string \<Rightarrow> 64 word option) \<Rightarrow> (string \<times> json) list \<Rightarrow> (parse_err, Parameter list) result" where
  "make_all f64 [] = Inr []"
| "make_all f64 ((k, v) # kvs) = (case makeParameter f64 k v of
     Inl e \<Rightarrow> Inl e
   | Inr p \<Rightarrow> (case make_all f64 kvs of Inl e \<Rightarrow> Inl e | Inr ps \<Rightarrow> Inr (p # ps)))"

text \<open>The items after the SQL text: an object gives named parameters (in the order the map is
  iterated), anything else a positional one.\<close>

fun item_parameters ::
  "(string \<Rightarrow> 64 word option) \<Rightarrow> json list \<Rightarrow> (parse_err, Parameter list) result" where
  "item_parameters f64 [] = Inr []"
| "item_parameters f64 (i # items) =
   (case make_all f64 (case i of J_obj m \<Rightarrow> m | _ \<Rightarrow> [('''', i)]) of
      Inl e \<Rightarrow> Inl e
    | Inr ps \<Rightarrow> (case item_parameters f64 items of Inl e \<Rightarrow> Inl e | Inr qs \<Rightarrow> Inr (ps @ qs)))"

text \<open>
  The elements of the outer array as the decoder sees them: a token that fails, a string, an
  opening bracket with the values after it (\<open>None\<close> where decoding fails) and the token that
  follows them (\<open>None\<close> if that fails, else whether it is the closing bracket), or another token.
\<close>

datatype elem =
    El_Err
  | El_Str string
  | El_Arr "json option list" "bool option"
  | El_Other

datatype body =
    Body_Nil
  | Body_Err
  | Body_Other
  | Body_Arr "elem list" bool

definition parse_items ::
  "(string \<Rightarrow> 64 word option) \<Rightarrow> json option list \<Rightarrow> bool option \<Rightarrow> (parse_err, Statement) result" where
  "parse_items f64 ds closing =
   (if None \<in> set ds then Inl ErrInvalidJSON
    else case closing of
      None \<Rightarrow> Inl ErrInvalidJSON
    | Some False \<Rightarrow> Inl ErrInvalidRequest
    | Some True \<Rightarrow> (case map the ds of
        J_str sql # rest \<Rightarrow> (case item_parameters f64 rest of
            Inl e \<Rightarrow> Inl e
          | Inr ps \<Rightarrow> Inr \<lparr>Sql = sql, Parameters = ps, ForceQuery = False\<rparr>)
      | _ \<Rightarrow> Inl ErrInvalidRequest))"

fun parse_elems ::
  "(string \<Rightarrow> 64 word option) \<Rightarrow> elem list \<Rightarrow> (parse_err, Statement list) result" where
  "parse_elems f64 [] = Inr []"
| "parse_elems f64 (x # xs) =
   (case (case x of
       El_Err \<Rightarrow> Inl ErrInvalidJSON
     | El_Str s \<Rightarrow> Inr \<lparr>Sql = s, Parameters = [], ForceQuery = False\<rparr>
     | El_Arr ds closing \<Rightarrow> parse_items f64 ds closing
     | El_Other \<Rightarrow> Inl ErrInvalidRequest) of
      Inl e \<Rightarrow> Inl e
    | Inr s \<Rightarrow> (case parse_elems f64 xs of Inl e \<Rightarrow> Inl e | Inr ss \<Rightarrow> Inr (s # ss)))"

definition ParseRequest :: "(string \<Rightarrow> 64 word option) \<Rightarrow> body \<Rightarrow> (parse_err, Statement list) result" where
  "ParseRequest f64 r = (case r of
     Body_Nil \<Rightarrow> Inl ErrNoStatements
   | Body_Err \<Rightarrow> Inl ErrInvalidJSON
   | Body_Other \<Rightarrow> Inl ErrInvalidRequest
   | Body_Arr xs closed \<Rightarrow> (case parse_elems f64 xs of
       Inl e \<Rightarrow> Inl e
     | Inr stmts \<Rightarrow>
        if \<not> closed then Inl ErrInvalidJSON
        else if stmts = [] then Inl ErrNoStatements
        else Inr stmts))"

section \<open>Query parameters\<close>

type_synonym QueryParams = "(string \<times> string) list"

record go_parse =
  gp_ParseDuration :: "string \<Rightarrow> int option"
  gp_Atoi :: "string \<Rightarrow> int option"
  gp_Float64 :: "string \<Rightarrow> 64 word option"

definition HasKey :: "string \<Rightarrow> QueryParams \<Rightarrow> bool" where
  "HasKey k qp \<longleftrightarrow> map_of qp k \<noteq> None"

definition qp_get :: "string \<Rightarrow> QueryParams \<Rightarrow> string" where
  "qp_get k qp = (case map_of qp k of None \<Rightarrow> '''' | Some v \<Rightarrow> v)"

definition duration_keys :: "string list" where
  "duration_keys = [''timeout'', ''freshness'', ''db_timeout'', ''linearizable_timeout'']"

definition integer_keys :: "string list" where
  "integer_keys = [''retries'', ''trailing_logs'']"

text \<open>The parsed values of the URL (or the error of parsing it), the first one of each key.\<close>

definition NewQueryParams :: "go_parse \<Rightarrow> (string, QueryParams) result \<Rightarrow> (string, QueryParams) result" where
  "NewQueryParams G r = (case r of
     Inl e \<Rightarrow> Inl e
   | Inr qp \<Rightarrow>
      if HasKey ''freshness_strict'' qp \<and> \<not> HasKey ''freshness'' qp then Inl ''freshness_strict requires freshness''
      else (case find (\<lambda>k. HasKey k qp \<and> gp_ParseDuration G (qp_get k qp) = None) duration_keys of
          Some k \<Rightarrow> Inl (k @ '' is not a valid duration'')
        | None \<Rightarrow> (case find (\<lambda>k. HasKey k qp \<and> gp_Atoi G (qp_get k qp) = None) integer_keys of
            Some k \<Rightarrow> Inl (k @ '' is not a valid integer'')
          | None \<Rightarrow> if map_of qp ''q'' = Some '''' then Inl ''query parameter not set'' else Inr qp)))"

definition qp_duration :: "go_parse \<Rightarrow> string \<Rightarrow> int \<Rightarrow> QueryParams \<Rightarrow> int" where
  "qp_duration G k def qp = (case map_of qp k of
     None \<Rightarrow> def | Some t \<Rightarrow> (case gp_ParseDuration G t of None \<Rightarrow> 0 | Some d \<Rightarrow> d))"

definition qp_int :: "go_parse \<Rightarrow> string \<Rightarrow> int \<Rightarrow> QueryParams \<Rightarrow> int" where
  "qp_int G k def qp = (case map_of qp k of
     None \<Rightarrow> def | Some t \<Rightarrow> (case gp_Atoi G t of None \<Rightarrow> 0 | Some d \<Rightarrow> d))"

definition qp_Freshness :: "go_parse \<Rightarrow> QueryParams \<Rightarrow> int" where
  "qp_Freshness G qp = (case gp_ParseDuration G (qp_get ''freshness'' qp) of None \<Rightarrow> 0 | Some d \<Rightarrow> d)"

definition qp_Level :: "QueryParams \<Rightarrow> Level" where
  "qp_Level qp =
   (let lvl = ToLower (qp_get ''level'' qp) in
    if lvl = ''none'' then LEVEL_NONE
    else if lvl = ''weak'' then LEVEL_WEAK
    else if lvl = ''strong'' then LEVEL_STRONG
    else if lvl = ''auto'' then LEVEL_AUTO
    else if lvl = ''linearizable'' then LEVEL_LINEARIZABLE
    else LEVEL_WEAK)"

definition qp_BackupFormat :: "QueryParams \<Rightarrow> BackupFormat" where
  "qp_BackupFormat qp = (if qp_get ''fmt'' qp = ''sql'' then FORMAT_SQL else FORMAT_BINARY)"

section \<open>Rewriting\<close>

definition ContainsTime :: "string \<Rightarrow> bool" where
  "ContainsTime s = list_ex (\<lambda>t. contains_sub t s) [''time('', ''date('', ''julianday('', ''unixepoch('', ''timediff('']"

definition ContainsRandom :: "string \<Rightarrow> bool" where
  "ContainsRandom s = list_ex (\<lambda>t. contains_sub t s) [''random('', ''randomblob('']"

definition ContainsReturning :: "string \<Rightarrow> bool" where
  "ContainsReturning s = contains_sub ''returning '' s"

text \<open>The parser and rewriter, for the two flags and a statement: a panic, no result (it does not
  parse or cannot be rewritten), or the new text if it was rewritten and whether it has a
  \<^verbatim>\<open>RETURNING\<close> clause.\<close>

type_synonym rewriter = "bool \<Rightarrow> bool \<Rightarrow> string \<Rightarrow> (string, (string option \<times> bool) option) result"

fun sql_Process :: "rewriter \<Rightarrow> Statement list \<Rightarrow> bool \<Rightarrow> bool \<Rightarrow> (string, Statement list) result" where
  "sql_Process rw [] rwrand rwtime = Inr []"
| "sql_Process rw (s # ss) rwrand rwtime =
   (let lowered = ToLower (Sql s) in
    case (if (\<not> rwtime \<or> \<not> ContainsTime lowered) \<and> (\<not> rwrand \<or> \<not> ContainsRandom lowered) \<and>
             \<not> ContainsReturning lowered then Inr s
          else (case rw rwrand rwtime (Sql s) of
              Inl e \<Rightarrow> Inl (''panic during SQL processing: '' @ e)
            | Inr None \<Rightarrow> Inr s
            | Inr (Some (new, ret)) \<Rightarrow>
               Inr (s\<lparr>Sql := (case new of None \<Rightarrow> Sql s | Some t \<Rightarrow> t), ForceQuery := ret\<rparr>))) of
      Inl e \<Rightarrow> Inl e
    | Inr s \<Rightarrow> (case sql_Process rw ss rwrand rwtime of Inl e \<Rightarrow> Inl e | Inr ss \<Rightarrow> Inr (s # ss)))"

section \<open>Writing a request\<close>

text \<open>The text a client sends for statements: numbers in decimal, blobs as arrays of bytes, a named
  parameter as an object with one member. The decimal form of a float is the client's (\<open>pf\<close>).\<close>

fun dec_nat :: "nat \<Rightarrow> string" where
  "dec_nat n = (if n < 10 then [hex_digit n] else dec_nat (n div 10) @ [hex_digit (n mod 10)])"

declare dec_nat.simps [simp del]

definition dec_int :: "int \<Rightarrow> string" where
  "dec_int i = (if i < 0 then CHR ''-'' # dec_nat (nat (- i)) else dec_nat (nat i))"

definition write_value :: "(64 word \<Rightarrow> string) \<Rightarrow> ParamValue option \<Rightarrow> json" where
  "write_value pf v = (case v of
     None \<Rightarrow> J_null
   | Some (Parameter_I i) \<Rightarrow> J_num (dec_int i)
   | Some (Parameter_D d) \<Rightarrow> J_num (pf d)
   | Some (Parameter_B b) \<Rightarrow> J_bool b
   | Some (Parameter_Y y) \<Rightarrow> J_arr (map (\<lambda>w. J_num (dec_nat (unat w))) y)
   | Some (Parameter_S s) \<Rightarrow> J_str s)"

definition write_param :: "(64 word \<Rightarrow> string) \<Rightarrow> Parameter \<Rightarrow> json" where
  "write_param pf p = (if p_Name p = '''' then write_value pf (p_Value p)
     else J_obj [(p_Name p, write_value pf (p_Value p))])"

definition write_stmt :: "(64 word \<Rightarrow> string) \<Rightarrow> Statement \<Rightarrow> elem" where
  "write_stmt pf s = (if Parameters s = [] then El_Str (Sql s)
     else El_Arr (map Some (J_str (Sql s) # map (write_param pf) (Parameters s))) (Some True))"

text \<open>What can be sent: integers of 64 bits, strings that do not read as a blob literal.\<close>

definition sendable :: "Statement \<Rightarrow> bool" where
  "sendable s \<longleftrightarrow> \<not> ForceQuery s \<and> list_all (\<lambda>p. case p_Value p of
       Some (Parameter_I i) \<Rightarrow> - (2 ^ 63) \<le> i \<and> i < 2 ^ 63
     | Some (Parameter_S t) \<Rightarrow> \<not> is_ok (ParseHex t)
     | _ \<Rightarrow> True) (Parameters s)"

lemma hex_digit_10: "d < 10 \<Longrightarrow> digit_val (hex_digit d) = Some d"
proof -
  assume "d < 10"
  moreover have "list_all (\<lambda>d. digit_val (hex_digit d) = Some d) [0..<10]" by code_simp
  ultimately show ?thesis by (simp add: list_all_iff)
qed

lemma digits_val_append:
  "digits_val (s @ t) acc = (case digits_val s acc of None \<Rightarrow> None | Some a \<Rightarrow> digits_val t a)"
  by (induction s acc rule: digits_val.induct) (auto split: option.splits)

lemma digits_val_dec: "digits_val (dec_nat n) 0 = Some n"
proof (induction n rule: dec_nat.induct)
  case (1 n)
  then show ?case
    by (cases "n < 10") (simp_all add: dec_nat.simps [of n] hex_digit_10 digits_val_append)
qed

lemma dec_nat_hd: "dec_nat n \<noteq> [] \<and> digit_val (hd (dec_nat n)) \<noteq> None"
proof (induction n rule: dec_nat.induct)
  case (1 n)
  then show ?case by (cases "n < 10") (simp_all add: dec_nat.simps [of n] hex_digit_10)
qed

lemma dec_nat_sign: "hd (dec_nat n) \<noteq> CHR ''-'' \<and> hd (dec_nat n) \<noteq> CHR ''+''"
proof -
  have "digit_val CHR ''-'' = None" "digit_val CHR ''+'' = None"
    by (simp_all add: digit_val_def between_def)
  then show ?thesis using dec_nat_hd [of n] by metis
qed

lemma num_Int64_dec:
  "num_Int64 (dec_int i) = (if - (2 ^ 63) \<le> i \<and> i < 2 ^ 63 then Some i else None)"
  by (cases "i < 0") (simp_all add: num_Int64_def dec_int_def digits_val_dec dec_nat_hd dec_nat_sign)

lemma byte_array_write: "byte_array (map (\<lambda>w. J_num (dec_nat (unat w))) ws) = Inr (ws :: bytes)"
proof (induction ws)
  case (Cons w ws)
  have "0 \<le> uint w \<and> uint w \<le> 255" using uint_lt2p [of w] by simp
  moreover from this have "num_Int64 (dec_nat (unat w)) = Some (uint w)"
    using num_Int64_dec [of "uint w"] order_trans [of "- (2 ^ 63)" 0 "uint w"] by (simp add: dec_int_def)
  ultimately show ?case using Cons by simp
qed simp

lemma makeParameter_write:
  assumes "\<forall>d. num_Int64 (pf d) = None \<and> f64 (pf d) = Some d"
    and "case v of Some (Parameter_I i) \<Rightarrow> - (2 ^ 63) \<le> i \<and> i < 2 ^ 63
      | Some (Parameter_S t) \<Rightarrow> \<not> is_ok (ParseHex t) | _ \<Rightarrow> True"
  shows "makeParameter f64 name (write_value pf v) = Inr \<lparr>p_Value = v, p_Name = name\<rparr>"
  using assms by (auto simp: makeParameter_def write_value_def num_Int64_dec byte_array_write is_ok_def
      split: option.splits ParamValue.splits sum.splits)

lemma write_value_not_obj:
  "(case write_value pf v of J_obj m \<Rightarrow> m | _ \<Rightarrow> [(name, write_value pf v)]) = [(name, write_value pf v)]"
  by (auto simp: write_value_def split: option.splits ParamValue.splits)

lemma item_parameters_write:
  assumes "\<forall>d. num_Int64 (pf d) = None \<and> f64 (pf d) = Some d"
    and "list_all (\<lambda>p. case p_Value p of
       Some (Parameter_I i) \<Rightarrow> - (2 ^ 63) \<le> i \<and> i < 2 ^ 63
     | Some (Parameter_S t) \<Rightarrow> \<not> is_ok (ParseHex t)
     | _ \<Rightarrow> True) ps"
  shows "item_parameters f64 (map (write_param pf) ps) = Inr ps"
  using assms(2)
proof (induction ps)
  case (Cons p ps)
  have "makeParameter f64 (p_Name p) (write_value pf (p_Value p)) = Inr p"
    using makeParameter_write [OF assms(1), of "p_Value p" "p_Name p"] Cons.prems by simp
  then have "make_all f64 (case write_param pf p of J_obj m \<Rightarrow> m | _ \<Rightarrow> [('''', write_param pf p)]) = Inr [p]"
    using write_value_not_obj [where v = "p_Value p" and name = "''''"]
    by (cases "p_Name p = ''''") (simp_all add: write_param_def cong: json.case_cong)
  then show ?case using Cons by simp
qed simp

lemma parse_write_stmt:
  assumes "\<forall>d. num_Int64 (pf d) = None \<and> f64 (pf d) = Some d" and "list_all sendable ss"
  shows "parse_elems f64 (map (write_stmt pf) ss) = Inr ss"
  using assms(2)
proof (induction ss)
  case (Cons s ss)
  then have "item_parameters f64 (map (write_param pf) (Parameters s)) = Inr (Parameters s)"
    and "\<not> ForceQuery s"
    using item_parameters_write [OF assms(1), of "Parameters s"] by (simp_all add: sendable_def)
  moreover have "the \<circ> (Some \<circ> write_param pf) = write_param pf" by (rule ext) simp
  ultimately have "(case write_stmt pf s of El_Err \<Rightarrow> Inl ErrInvalidJSON
      | El_Str t \<Rightarrow> Inr \<lparr>Sql = t, Parameters = [], ForceQuery = False\<rparr>
      | El_Arr ds closing \<Rightarrow> parse_items f64 ds closing | El_Other \<Rightarrow> Inl ErrInvalidRequest) = Inr s"
    by (auto simp: write_stmt_def parse_items_def)
  then show ?case using Cons by simp
qed simp

text \<open>C30: What a client writes is what is executed. A body with one or more statements, in the text
  a client sends for them, parses to exactly those statements: the SQL, the order, the names and
  the values of all parameters, whatever 64-bit integers, floats, booleans, blobs, strings or nulls
  they are. (A string that reads as a blob literal is the exception, and an integer is never read
  as a float. The decimal form of floats is any that the standard library reads back.)\<close>

theorem parse_request_roundtrip:
  assumes "\<forall>d. num_Int64 (pf d) = None \<and> f64 (pf d) = Some d" and "list_all sendable ss" and "ss \<noteq> []"
  shows "ParseRequest f64 (Body_Arr (map (write_stmt pf) ss) True) = Inr ss"
  using parse_write_stmt [OF assms(1,2)] assms(3) by (simp add: ParseRequest_def)

definition sample_float :: "64 word \<Rightarrow> string" where
  "sample_float d = CHR ''.'' # dec_nat (unat d)"

definition sample_f64 :: "string \<Rightarrow> 64 word option" where
  "sample_f64 s = (case digits_val (tl s) 0 of None \<Rightarrow> None | Some v \<Rightarrow> Some (word_of_nat v))"

lemma sample_float_law: "\<forall>d. num_Int64 (sample_float d) = None \<and> sample_f64 (sample_float d) = Some d"
  by (simp add: sample_float_def sample_f64_def digits_val_dec num_Int64_def digit_val_def between_def)

definition sample_stmts :: "Statement list" where
  "sample_stmts = [\<lparr>Sql = ''SELECT 1'', Parameters = [], ForceQuery = False\<rparr>,
     \<lparr>Sql = ''INSERT INTO t VALUES(?, ?, :b)'', Parameters = [
        \<lparr>p_Value = Some (Parameter_I (- 42)), p_Name = ''''\<rparr>, \<lparr>p_Value = None, p_Name = ''''\<rparr>,
        \<lparr>p_Value = Some (Parameter_Y [0xFF, 0]), p_Name = ''b''\<rparr>], ForceQuery = False\<rparr>]"

lemma sample_sendable: "list_all sendable sample_stmts"
  by code_simp

theorem parse_request_roundtrip_witness:
  "list_all sendable sample_stmts \<and>
   ParseRequest sample_f64 (Body_Arr (map (write_stmt sample_float) sample_stmts) True) = Inr sample_stmts"
  using parse_request_roundtrip [OF sample_float_law sample_sendable] sample_sendable
  by (simp add: sample_stmts_def)

end
