(* ===== verification/Marshal.thy ===== *)
theory Marshal
  imports Command_Types
begin

text \<open>
  \<^verbatim>\<open>command/marshal.go\<close>: how requests are serialised into the commands written to the
  Raft log, with gzip compression above a batch or statement size. The thresholds are those of
  the code; gzip and protobuf are the codec records of \<^verbatim>\<open>Command_Types\<close>. The package's
  counters are threaded through \<^verbatim>\<open>Marshal\<close> as in the source.
\<close>

section \<open>Definitions\<close>

definition defaultBatchThreshold :: int where "defaultBatchThreshold = 50"

definition defaultSizeThreshold :: int where "defaultSizeThreshold = 1024"

record RequestMarshaler =
  BatchThreshold :: int
  SizeThreshold :: int
  ForceCompression :: bool

definition NewRequestMarshaler :: RequestMarshaler where
  "NewRequestMarshaler = \<lparr>BatchThreshold = defaultBatchThreshold,
     SizeThreshold = defaultSizeThreshold, ForceCompression = False\<rparr>"

definition gzCompress :: "gzip_lib \<Rightarrow> bytes \<Rightarrow> (string, bytes) result" where
  "gzCompress g b = gz_write g b"

definition gzUncompress :: "gzip_lib \<Rightarrow> bytes \<Rightarrow> (string, bytes) result" where
  "gzUncompress g b = (case gz_open g b of
     Inl e \<Rightarrow> Inl (''unmarshal gzip NewReader: '' @ e)
   | Inr (ub, Some e) \<Rightarrow> Inl (''unmarshal gzip ReadAll: '' @ e)
   | Inr (ub, None) \<Rightarrow> Inr ub)"

text \<open>The decision whether to try compression.\<close>

definition wants_compression :: "RequestMarshaler \<Rightarrow> Statement list \<Rightarrow> bool" where
  "wants_compression m stmts = (if BatchThreshold m \<le> int (length stmts) then True
     else (\<exists>s \<in> set stmts. SizeThreshold m \<le> int (length (Sql s))))"

text \<open>
  \<^verbatim>\<open>RequestMarshaler.Marshal\<close> for any message type with a \<^verbatim>\<open>GetRequest\<close> method.
\<close>

definition rm_Marshal ::
  "gzip_lib \<Rightarrow> 'm pb_codec \<Rightarrow> ('m \<Rightarrow> Request option) \<Rightarrow> RequestMarshaler \<Rightarrow> 'm \<Rightarrow> counters \<Rightarrow>
   (string, bytes \<times> bool) result \<times> counters" where
  "rm_Marshal g pb get m r st =
   (let st = stats_add ''num_requests'' 1 st;
        compress = wants_compression m (GetStatements (get r)) in
    case pb_marshal pb r of
      Inl e \<Rightarrow> (Inl e, st)
    | Inr b \<Rightarrow>
       let ubz = length b;
           st = stats_add ''num_precompressed_bytes'' (int ubz) st in
       if compress then
         (case gzCompress g b of
            Inl e \<Rightarrow> (Inl e, st)
          | Inr gzData \<Rightarrow>
             if length gzData < ubz \<or> ForceCompression m then
               (Inr (gzData, True),
                stats_add ''num_compressed_bytes'' (int (length gzData))
                  (stats_add ''num_compressed_requests'' 1 st))
             else (Inr (b, False), stats_add ''num_compression_misses'' 1 st))
       else (Inr (b, False),
             stats_add ''num_uncompressed_bytes'' (int (length b))
               (stats_add ''num_uncompressed_requests'' 1 st)))"

definition cmd_Marshal :: "Command pb_codec \<Rightarrow> Command \<Rightarrow> (string, bytes) result" where
  "cmd_Marshal pb c = pb_marshal pb c"

definition cmd_Unmarshal :: "Command pb_codec \<Rightarrow> bytes \<Rightarrow> (string, Command) result" where
  "cmd_Unmarshal pb b = pb_unmarshal pb b"

definition MarshalNoop :: "Noop pb_codec \<Rightarrow> Noop \<Rightarrow> (string, bytes) result" where
  "MarshalNoop pb c = pb_marshal pb c"

definition UnmarshalNoop :: "Noop pb_codec \<Rightarrow> bytes \<Rightarrow> (string, Noop) result" where
  "UnmarshalNoop pb b = pb_unmarshal pb b"

definition MarshalLoadRequest ::
  "gzip_lib \<Rightarrow> LoadRequest pb_codec \<Rightarrow> LoadRequest \<Rightarrow> (string, bytes) result" where
  "MarshalLoadRequest g pb lr = (case pb_marshal pb lr of Inl e \<Rightarrow> Inl e | Inr b \<Rightarrow> gzCompress g b)"

definition UnmarshalLoadRequest ::
  "gzip_lib \<Rightarrow> LoadRequest pb_codec \<Rightarrow> bytes \<Rightarrow> (string, LoadRequest) result" where
  "UnmarshalLoadRequest g pb b = (case gzUncompress g b of Inl e \<Rightarrow> Inl e | Inr u \<Rightarrow> pb_unmarshal pb u)"

definition MarshalLoadChunkRequest ::
  "LoadChunkRequest pb_codec \<Rightarrow> LoadChunkRequest \<Rightarrow> (string, bytes) result" where
  "MarshalLoadChunkRequest pb lr = pb_marshal pb lr"

definition UnmarshalLoadChunkRequest ::
  "LoadChunkRequest pb_codec \<Rightarrow> bytes \<Rightarrow> (string, LoadChunkRequest) result" where
  "UnmarshalLoadChunkRequest pb b = pb_unmarshal pb b"

definition UnmarshalSubCommand ::
  "gzip_lib \<Rightarrow> 'm pb_codec \<Rightarrow> Command \<Rightarrow> (string, 'm) result" where
  "UnmarshalSubCommand g pb c =
   (case (if Compressed c then
            (case gzUncompress g (SubCommand c) of
               Inl e \<Rightarrow> Inl (''unmarshal sub uncompress: '' @ e)
             | Inr b \<Rightarrow> Inr b)
          else Inr (SubCommand c)) of
      Inl e \<Rightarrow> Inl e
    | Inr b \<Rightarrow> (case pb_unmarshal pb b of
         Inl e \<Rightarrow> Inl (''proto unmarshal: '' @ e)
       | Inr m \<Rightarrow> Inr m))"

section \<open>Round trips\<close>

lemma gzUncompress_Compress:
  "gzip_inverse g \<Longrightarrow> \<exists>z. gzCompress g b = Inr z \<and> gzUncompress g z = Inr b"
  by (erule gzip_inverseE [of g b]) (simp add: gzCompress_def gzUncompress_def)

text \<open>Marshalling a request never fails unless protobuf does, and what it returns reads back.\<close>

lemma rm_Marshal_result:
  assumes g: "gzip_inverse g" and b: "pb_marshal pb r = Inr b"
  obtains sub z st' where "rm_Marshal g pb get m r st = (Inr (sub, z), st')"
    and "z \<Longrightarrow> gzUncompress g sub = Inr b" and "\<not> z \<Longrightarrow> sub = b"
    and "\<not> ForceCompression m \<Longrightarrow> length sub \<le> length b"
    and "z \<Longrightarrow> wants_compression m (GetStatements (get r))"
proof -
  obtain gzd where gz: "gzCompress g b = Inr gzd" "gzUncompress g gzd = Inr b"
    using gzUncompress_Compress [OF g] by blast
  define z where "z \<longleftrightarrow> wants_compression m (GetStatements (get r)) \<and>
    (length gzd < length b \<or> ForceCompression m)"
  have r: "\<exists>st'. rm_Marshal g pb get m r st = (Inr (if z then gzd else b, z), st')"
    by (auto simp: rm_Marshal_def Let_def b gz z_def)
  then obtain st' where "rm_Marshal g pb get m r st = (Inr (if z then gzd else b, z), st')"
    by blast
  then show thesis
    by (rule that) (auto simp: gz z_def)
qed

lemma UnmarshalSubCommand_eq:
  assumes "Compressed c \<Longrightarrow> gzUncompress g (SubCommand c) = Inr b"
    and "\<not> Compressed c \<Longrightarrow> SubCommand c = b" and "pb_unmarshal pb b = Inr m"
  shows "UnmarshalSubCommand g pb c = Inr m"
  using assms by (simp add: UnmarshalSubCommand_def)

lemma load_request_roundtrip:
  assumes g: "gzip_inverse g" and p: "pb_inverse pb lr" and b: "pb_marshal pb lr = Inr b"
  shows "\<exists>z. MarshalLoadRequest g pb lr = Inr z \<and> UnmarshalLoadRequest g pb z = Inr lr"
  using gzUncompress_Compress [OF g, of b] pb_inverseD [OF p b] b
  by (auto simp: MarshalLoadRequest_def UnmarshalLoadRequest_def)

text \<open>C35: A request written to the log is recovered exactly. Whatever the thresholds, when
  protobuf serialises the request, \<^verbatim>\<open>Marshal\<close> returns bytes and a flag such that
  \<^verbatim>\<open>UnmarshalSubCommand\<close> of the command carrying them gives the request back; without
  \<^verbatim>\<open>ForceCompression\<close> the bytes are never longer than the plain serialisation, and
  compression is used only at or above a threshold. The one error is protobuf's own.\<close>

theorem request_marshal_roundtrip:
  assumes "gzip_inverse g" and "pb_inverse pb r"
  shows "case pb_marshal pb r of
      Inl e \<Rightarrow> fst (rm_Marshal g pb get m r st) = Inl e
    | Inr b \<Rightarrow> \<exists>sub z. fst (rm_Marshal g pb get m r st) = Inr (sub, z) \<and>
        UnmarshalSubCommand g pb \<lparr>cmd_Type = t, SubCommand = sub, Compressed = z\<rparr> = Inr r \<and>
        (\<not> ForceCompression m \<longrightarrow> length sub \<le> length b) \<and>
        (z \<longrightarrow> BatchThreshold m \<le> int (length (GetStatements (get r))) \<or>
             (\<exists>s \<in> set (GetStatements (get r)). SizeThreshold m \<le> int (length (Sql s))))"
proof (cases "pb_marshal pb r")
  case (Inl e)
  then show ?thesis by (simp add: rm_Marshal_def Let_def)
next
  case (Inr b)
  from rm_Marshal_result [OF assms(1) Inr, of get m st] obtain sub z st' where
    r: "rm_Marshal g pb get m r st = (Inr (sub, z), st')"
    and z: "z \<Longrightarrow> gzUncompress g sub = Inr b" "\<not> z \<Longrightarrow> sub = b"
    and len: "\<not> ForceCompression m \<Longrightarrow> length sub \<le> length b"
    and w: "z \<Longrightarrow> wants_compression m (GetStatements (get r))"
    by blast
  have "UnmarshalSubCommand g pb \<lparr>cmd_Type = t, SubCommand = sub, Compressed = z\<rparr> = Inr r"
    using z pb_inverseD [OF assms(2) Inr] by (intro UnmarshalSubCommand_eq) simp_all
  with r len w Inr show ?thesis
    by (auto simp: wants_compression_def split: if_splits)
qed

text \<open>A codec of execute requests that knows one request, for evaluation.\<close>

definition sample_execute :: "string \<Rightarrow> ExecuteRequest" where
  "sample_execute q = \<lparr>er_Request = Some \<lparr>Transaction = False,
     Statements = [\<lparr>Sql = q, Parameters = [], ForceQuery = False\<rparr>], DbTimeout = 0\<rparr>,
     er_Timings = False\<rparr>"

definition sample_pb :: "'m \<Rightarrow> bytes \<Rightarrow> 'm pb_codec" where
  "sample_pb m0 b0 = \<lparr>pb_marshal = (\<lambda>m. if m = m0 then Inr b0 else Inl ''unknown message''),
     pb_unmarshal = (\<lambda>b. if b = b0 then Inr m0 else Inl ''cannot parse'')\<rparr>"

lemma sample_pb_inverse: "pb_inverse (sample_pb m0 b0) m"
  by (simp add: pb_inverse_def sample_pb_def)

lemma sample_pb_marshal: "pb_marshal (sample_pb m0 b0) m0 = Inr b0"
  by (simp add: sample_pb_def)

theorem request_marshal_roundtrip_witness:
  "gzip_inverse sample_gzip \<and>
   pb_inverse (sample_pb (sample_execute ''SELECT 1'') [1, 2]) (sample_execute ''SELECT 1'') \<and>
   (\<exists>sub z. fst (rm_Marshal sample_gzip (sample_pb (sample_execute ''SELECT 1'') [1, 2]) er_Request
        NewRequestMarshaler (sample_execute ''SELECT 1'') (\<lambda>_. 0)) = Inr (sub, z) \<and>
      UnmarshalSubCommand sample_gzip (sample_pb (sample_execute ''SELECT 1'') [1, 2])
        \<lparr>cmd_Type = TYPE_EXECUTE, SubCommand = sub, Compressed = z\<rparr> = Inr (sample_execute ''SELECT 1''))"
  using request_marshal_roundtrip [OF sample_gzip_inverse
      sample_pb_inverse [of "sample_execute ''SELECT 1''" "[1, 2]" "sample_execute ''SELECT 1''"],
      of er_Request NewRequestMarshaler "\<lambda>_. 0" TYPE_EXECUTE]
    sample_gzip_inverse sample_pb_inverse
  by (fastforce simp: sample_pb_marshal)

end
