(* ===== verification/Chunking.thy ===== *)
theory Chunking
  imports Command_Types
begin

text \<open>
  \<^verbatim>\<open>command/chunking\<close>: a database file is cut into gzip-compressed, numbered chunks that
  travel through the log, and is put together again on the other side.

  The source of the bytes is an \<^verbatim>\<open>io.Reader\<close>, which may return fewer bytes than asked for
  and may return an error together with bytes. It is modelled as the remaining contents and a
  schedule: each entry bounds one read and may attach an error to it; when the schedule has run
  out, reads return as much as fits, and \<^verbatim>\<open>io.EOF\<close> at the end. A \<open>Dechunker\<close>'s file is
  the bytes written to it and whether it is open; temporary names come from the environment.
\<close>

section \<open>Readers\<close>

datatype rd_err = RdEOF | RdErr string

record src_reader =
  sr_data :: bytes
  sr_sched :: "(nat \<times> rd_err option) list"

text \<open>One call of \<^verbatim>\<open>Read\<close> with a buffer of \<open>n\<close> bytes.\<close>

definition src_read :: "nat \<Rightarrow> src_reader \<Rightarrow> (bytes \<times> rd_err option) \<times> src_reader" where
  "src_read n r = (case sr_sched r of
     (k, e) # sch \<Rightarrow>
       let got = take (min k n) (sr_data r) in
       ((got, e), \<lparr>sr_data = drop (min k n) (sr_data r), sr_sched = sch\<rparr>)
   | [] \<Rightarrow>
       if sr_data r = [] then (([], Some RdEOF), r)
       else ((take n (sr_data r), None), r\<lparr>sr_data := drop n (sr_data r)\<rparr>))"

text \<open>\<^verbatim>\<open>progress.CountingReader\<close>.\<close>

record counting_reader =
  cr_reader :: src_reader
  cr_count :: int

definition NewCountingReader :: "src_reader \<Rightarrow> counting_reader" where
  "NewCountingReader r = \<lparr>cr_reader = r, cr_count = 0\<rparr>"

definition cr_Read :: "nat \<Rightarrow> counting_reader \<Rightarrow> (bytes \<times> rd_err option) \<times> counting_reader" where
  "cr_Read n c = (case src_read n (cr_reader c) of
     ((got, e), r) \<Rightarrow> ((got, e), \<lparr>cr_reader = r, cr_count = cr_count c + int (length got)\<rparr>))"

definition cr_Count :: "counting_reader \<Rightarrow> int" where
  "cr_Count c = cr_count c"

section \<open>Chunker\<close>

definition internalChunkSize :: int where "internalChunkSize = 1024 * 1024"

record chunker =
  ck_r :: counting_reader
  ck_chunkSize :: int
  ck_streamID :: string
  ck_sequenceNum :: int
  ck_finished :: bool
  ck_nWritten :: int

text \<open>\<^verbatim>\<open>generateStreamID\<close> from sixteen random bytes.\<close>

definition generateStreamID :: "bytes \<Rightarrow> string" where
  "generateStreamID b = hex (take 4 b) @ ''-'' @ hex (take 2 (drop 4 b)) @ ''-'' @
     hex (take 2 (drop 6 b)) @ ''-'' @ hex (take 2 (drop 8 b)) @ ''-'' @ hex (drop 10 b)"

definition NewChunker :: "bytes \<Rightarrow> src_reader \<Rightarrow> int \<Rightarrow> chunker" where
  "NewChunker rnd r chunkSize = \<lparr>ck_r = NewCountingReader r, ck_chunkSize = chunkSize,
     ck_streamID = generateStreamID rnd, ck_sequenceNum = 0, ck_finished = False, ck_nWritten = 0\<rparr>"

lemma src_read_shrinks:
  assumes "src_read n r = ((got, e), r')" and "0 < n" and "e \<noteq> Some RdEOF"
  shows "length (sr_data r') + length (sr_sched r') < length (sr_data r) + length (sr_sched r)"
  using assms by (auto simp: src_read_def Let_def split: list.splits if_splits)

text \<open>
  The reading loop of \<^verbatim>\<open>Next\<close>: the bytes handed to the gzip writer so far and the
  total read. It returns \<open>Inl e\<close> for a read error and otherwise whether the end was met.
  As in the source the error of a read that returned bytes is replaced by the result of
  writing them to the in-memory gzip stream, which succeeds.
\<close>

function read_loop ::
  "int \<Rightarrow> nat \<Rightarrow> bytes \<Rightarrow> int \<Rightarrow> counting_reader \<Rightarrow>
   (string, bool) result \<times> bytes \<times> int \<times> counting_reader" where
  "read_loop chunkSize bufn acc totalRead c =
   (if totalRead < chunkSize \<and> 0 < bufn then
      (case cr_Read bufn c of ((got, e), c') \<Rightarrow>
        let totalRead = totalRead + int (length got);
            acc = acc @ got;
            e = (if got \<noteq> [] then None else e) in
        (case e of
           Some RdEOF \<Rightarrow> (Inr True, acc, totalRead, c')
         | Some (RdErr m) \<Rightarrow> (Inl m, acc, totalRead, c')
         | None \<Rightarrow> read_loop chunkSize bufn acc totalRead c'))
    else (Inr False, acc, totalRead, c))"
  by pat_completeness auto

termination
proof (relation "measure (\<lambda>(_, _, _, _, c).
    length (sr_data (cr_reader c)) + length (sr_sched (cr_reader c)))", goal_cases)
  case 1
  then show ?case by simp
next
  case (2 chunkSize bufn acc totalRead c x c' got e totalRead' acc' e')
  obtain r' where r: "src_read bufn (cr_reader c) = ((got, e), r')" "cr_reader c' = r'"
    using 2 by (auto simp: cr_Read_def split: prod.splits)
  have "length (sr_data r') + length (sr_sched r')
      < length (sr_data (cr_reader c)) + length (sr_sched (cr_reader c))"
  proof (cases "e = Some RdEOF")
    case False
    then show ?thesis using src_read_shrinks [OF r(1)] 2(1) by simp
  next
    case True
    then have "got \<noteq> []" using 2 by (auto split: if_splits)
    then show ?thesis using r(1) 2(1)
      by (auto simp: src_read_def Let_def split: list.splits if_splits)
  qed
  then show ?case by (simp add: r(2))
qed

declare read_loop.simps [simp del]

text \<open>Allocating the intermediate buffer panics for a negative chunk size.\<close>

datatype next_err = NextEOF | NextErr string | NextPanic

definition ck_Next ::
  "gzip_lib \<Rightarrow> chunker \<Rightarrow> (next_err, LoadChunkRequest) result \<times> chunker" where
  "ck_Next g c =
   (if ck_finished c then (Inl NextEOF, c)
    else if min internalChunkSize (ck_chunkSize c) < 0 then (Inl NextPanic, c)
    else
      case read_loop (ck_chunkSize c) (nat (min internalChunkSize (ck_chunkSize c))) [] 0 (ck_r c) of
        (Inl m, acc, totalRead, r) \<Rightarrow> (Inl (NextErr m), c\<lparr>ck_r := r\<rparr>)
      | (Inr eof, acc, totalRead, r) \<Rightarrow>
          let c = c\<lparr>ck_r := r, ck_finished := eof\<rparr> in
          (case gz_write g acc of
             Inl m \<Rightarrow> (Inl (NextErr (''failed to close gzip writer: '' @ m)), c)
           | Inr buf \<Rightarrow>
               let c = c\<lparr>ck_nWritten := ck_nWritten c + int (length buf)\<rparr> in
               if totalRead = 0 then
                 (if ck_sequenceNum c = 0 then (Inl NextEOF, c)
                  else (Inr \<lparr>StreamId = ck_streamID c, SequenceNum = ck_sequenceNum c + 1,
                          IsLast = True, lcr_Data = None, lcr_Abort = False\<rparr>, c))
               else
                 let c = c\<lparr>ck_sequenceNum := ck_sequenceNum c + 1\<rparr> in
                 (Inr \<lparr>StreamId = ck_streamID c, SequenceNum = ck_sequenceNum c,
                    IsLast = totalRead < ck_chunkSize c, lcr_Data = Some buf, lcr_Abort = False\<rparr>, c)))"

definition ck_Abort :: "chunker \<Rightarrow> LoadChunkRequest" where
  "ck_Abort c = \<lparr>StreamId = ck_streamID c, SequenceNum = 0, IsLast = False, lcr_Data = None,
     lcr_Abort = True\<rparr>"

definition ck_Counts :: "chunker \<Rightarrow> int \<times> int \<times> int" where
  "ck_Counts c = (ck_sequenceNum c, cr_Count (ck_r c), ck_nWritten c)"

section \<open>Dechunker\<close>

record dechunker =
  dc_filePath :: string
  dc_data :: bytes
  dc_open :: bool
  dc_streamID :: string
  dc_seqNum :: int

text \<open>\<^verbatim>\<open>os.CreateTemp\<close> gives a fresh name or an error.\<close>

type_synonym tmp_file = "(string, string) result"

definition NewDechunker :: "tmp_file \<Rightarrow> string \<Rightarrow> (string, dechunker) result" where
  "NewDechunker tmp dir = (case tmp of
     Inl e \<Rightarrow> Inl (''failed to create temp file in dir '' @ dir @ '': '' @ e)
   | Inr name \<Rightarrow> Inr \<lparr>dc_filePath = name, dc_data = [], dc_open = True,
       dc_streamID = '''', dc_seqNum = 0\<rparr>)"

datatype chunk_err =
    BadStream string string
  | OutOfOrder int int
  | GzipReader string
  | WriteFailed string

text \<open>\<^verbatim>\<open>io.Copy\<close> of a decoded stream to the file: what was decoded before an error is
  written; writing to a closed file fails.\<close>

definition copy_to_file :: "bytes \<times> string option \<Rightarrow> dechunker \<Rightarrow> (string, unit) result \<times> dechunker" where
  "copy_to_file s d = (case s of (bs, err) \<Rightarrow>
     if bs \<noteq> [] \<and> \<not> dc_open d then (Inl ''file already closed'', d)
     else ((case err of None \<Rightarrow> Inr () | Some e \<Rightarrow> Inl e), d\<lparr>dc_data := dc_data d @ bs\<rparr>))"

definition WriteChunk ::
  "gzip_lib \<Rightarrow> LoadChunkRequest \<Rightarrow> dechunker \<Rightarrow> (chunk_err, bool) result \<times> dechunker" where
  "WriteChunk g chunk d =
   (if dc_streamID d \<noteq> '''' \<and> dc_streamID d \<noteq> StreamId chunk then
      (Inl (BadStream (dc_streamID d) (StreamId chunk)), d)
    else
      let d = (if dc_streamID d = '''' then d\<lparr>dc_streamID := StreamId chunk\<rparr> else d) in
      if SequenceNum chunk \<noteq> dc_seqNum d + 1 then
        (Inl (OutOfOrder (dc_seqNum d + 1) (SequenceNum chunk)), d)
      else
        let d = d\<lparr>dc_seqNum := SequenceNum chunk\<rparr> in
        (case lcr_Data chunk of
           None \<Rightarrow> (Inr (IsLast chunk), d)
         | Some buf \<Rightarrow> (case gz_open g buf of
              Inl e \<Rightarrow> (Inl (GzipReader e), d)
            | Inr s \<Rightarrow> (case copy_to_file s d of
                 (Inl e, d) \<Rightarrow> (Inl (WriteFailed e), d)
               | (Inr _, d) \<Rightarrow> (Inr (IsLast chunk), d)))))"

definition dc_Close :: "dechunker \<Rightarrow> (string, string) result \<times> dechunker" where
  "dc_Close d = (if dc_open d then (Inr (dc_filePath d), d\<lparr>dc_open := False\<rparr>)
     else (Inl ''failed to close file: file already closed'', d))"

section \<open>Dechunker manager\<close>

record dechunker_manager =
  dm_dir :: string
  dm_m :: "(string \<times> dechunker) list"

definition NewDechunkerManager :: "tmp_file \<Rightarrow> string \<Rightarrow> (string, dechunker_manager) result" where
  "NewDechunkerManager tmp dir = (case tmp of
     Inl e \<Rightarrow> Inl (''failed to test file in dir '' @ dir @ '': '' @ e)
   | Inr _ \<Rightarrow> Inr \<lparr>dm_dir = dir, dm_m = []\<rparr>)"

definition dm_Get ::
  "tmp_file \<Rightarrow> string \<Rightarrow> dechunker_manager \<Rightarrow> (string, dechunker) result \<times> dechunker_manager" where
  "dm_Get tmp i dm = (case map_of (dm_m dm) i of
     Some dc \<Rightarrow> (Inr dc, dm)
   | None \<Rightarrow> (case NewDechunker tmp (dm_dir dm) of
       Inl e \<Rightarrow> (Inl e, dm)
     | Inr dc \<Rightarrow> (Inr dc, dm\<lparr>dm_m := AList.update i dc (dm_m dm)\<rparr>)))"

text \<open>The dechunker of a stream is shared with the map: a change to it is a change of the map.\<close>

definition dm_put :: "string \<Rightarrow> dechunker \<Rightarrow> dechunker_manager \<Rightarrow> dechunker_manager" where
  "dm_put i dc dm = dm\<lparr>dm_m := AList.update i dc (dm_m dm)\<rparr>"

definition dm_Delete :: "string \<Rightarrow> dechunker_manager \<Rightarrow> dechunker_manager" where
  "dm_Delete i dm = dm\<lparr>dm_m := AList.delete i (dm_m dm)\<rparr>"

text \<open>
  \<^verbatim>\<open>Close\<close> walks the map, closes each dechunker and deletes the key equal to that
  dechunker's stream ID.
\<close>

fun dm_close_walk :: "(string \<times> dechunker) list \<Rightarrow> (string \<times> dechunker) list \<Rightarrow> (string \<times> dechunker) list" where
  "dm_close_walk [] m = m"
| "dm_close_walk ((i, dc) # rest) m =
     dm_close_walk rest
       (case map_of m i of
          None \<Rightarrow> m
        | Some d \<Rightarrow> AList.delete (dc_streamID d) (AList.update i (snd (dc_Close d)) m))"

definition dm_Close :: "dechunker_manager \<Rightarrow> dechunker_manager" where
  "dm_Close dm = dm\<lparr>dm_m := dm_close_walk (dm_m dm) (dm_m dm)\<rparr>"

section \<open>Reading without errors\<close>

definition quiet :: "src_reader \<Rightarrow> bool" where
  "quiet r \<longleftrightarrow> list_all (\<lambda>(_, e). e = None) (sr_sched r)"

lemma src_read_quiet:
  assumes "quiet r" and "src_read n r = ((got, e), r')"
  shows "quiet r'" and "sr_data r = got @ sr_data r'"
    and "e = None \<or> (e = Some RdEOF \<and> got = [] \<and> sr_data r' = [])"
  using assms by (auto simp: src_read_def quiet_def Let_def split: list.splits if_splits)

text \<open>What one run of the loop does with a reader that reports no error but the end.\<close>

lemma read_loop_quiet:
  assumes "quiet (cr_reader c)" and "0 < bufn"
  shows "\<exists>eof got c'. read_loop cs bufn acc tot c = (Inr eof, acc @ got, tot + int (length got), c') \<and>
    quiet (cr_reader c') \<and> sr_data (cr_reader c) = got @ sr_data (cr_reader c') \<and>
    cr_count c' = cr_count c + int (length got) \<and>
    (if eof then sr_data (cr_reader c') = [] \<and> tot + int (length got) < cs
     else cs \<le> tot + int (length got))"
  using assms
proof (induction cs bufn acc tot c rule: read_loop.induct)
  case (1 cs bufn acc tot c)
  show ?case
  proof (cases "tot < cs")
    case False
    then show ?thesis using 1(2)
      by (intro exI [of _ False] exI [of _ "[]"]) (simp add: read_loop.simps)
  next
    case True
    obtain got e c' where rd: "cr_Read bufn c = ((got, e), c')" by (metis surj_pair)
    then obtain r' where r: "src_read bufn (cr_reader c) = ((got, e), r')"
      and c': "c' = \<lparr>cr_reader = r', cr_count = cr_count c + int (length got)\<rparr>"
      by (auto simp: cr_Read_def split: prod.splits)
    note q = src_read_quiet [OF 1(2) r]
    show ?thesis
    proof (cases "e = Some RdEOF")
      case eof: True
      with q True 1(3) rd c' show ?thesis
        by (auto simp: read_loop.simps [of cs] Let_def intro!: exI [of _ "[]"])
    next
      case False
      then have e: "e = None" using q(3) by blast
      have "read_loop cs bufn acc tot c = read_loop cs bufn (acc @ got) (tot + int (length got)) c'"
        using True 1(3) rd e by (simp add: read_loop.simps [of cs bufn acc] Let_def)
      moreover have "\<exists>eof got' c''. read_loop cs bufn (acc @ got) (tot + int (length got)) c' =
          (Inr eof, (acc @ got) @ got', tot + int (length got) + int (length got'), c'') \<and>
          quiet (cr_reader c'') \<and> sr_data (cr_reader c') = got' @ sr_data (cr_reader c'') \<and>
          cr_count c'' = cr_count c' + int (length got') \<and>
          (if eof then sr_data (cr_reader c'') = [] \<and> tot + int (length got) + int (length got') < cs
           else cs \<le> tot + int (length got) + int (length got'))"
        using True 1(3) rd e q(1) c'
        by (intro 1(1) [OF _ rd [symmetric] refl refl refl refl]) auto
      ultimately show ?thesis
        using q(2) c' by (elim exE, intro exI [of _ "got @ _"] exI conjI)
          (auto simp: algebra_simps split: if_splits)
    qed
  qed
qed

section \<open>Reassembly\<close>

text \<open>The sender: chunks are taken until \<^verbatim>\<open>Next\<close> returns an error.\<close>

fun drain :: "nat \<Rightarrow> gzip_lib \<Rightarrow> chunker \<Rightarrow> LoadChunkRequest list \<times> next_err option \<times> chunker" where
  "drain 0 g c = ([], None, c)"
| "drain (Suc n) g c = (case ck_Next g c of
     (Inl e, c') \<Rightarrow> ([], Some e, c')
   | (Inr ch, c') \<Rightarrow> (case drain n g c' of (chs, e, c'') \<Rightarrow> (ch # chs, e, c'')))"

text \<open>The receiver: chunks are written in order, and the flags \<^verbatim>\<open>WriteChunk\<close> returned kept.\<close>

fun write_all ::
  "gzip_lib \<Rightarrow> LoadChunkRequest list \<Rightarrow> dechunker \<Rightarrow> (chunk_err, bool list) result \<times> dechunker" where
  "write_all g [] d = (Inr [], d)"
| "write_all g (ch # chs) d = (case WriteChunk g ch d of
     (Inl e, d') \<Rightarrow> (Inl e, d')
   | (Inr l, d') \<Rightarrow> (case write_all g chs d' of
        (Inl e, d'') \<Rightarrow> (Inl e, d'')
      | (Inr ls, d'') \<Rightarrow> (Inr (l # ls), d'')))"

definition receiving :: "string \<Rightarrow> int \<Rightarrow> dechunker \<Rightarrow> bool" where
  "receiving sid n d \<longleftrightarrow> dc_open d \<and> dc_seqNum d = n \<and> (dc_streamID d = '''' \<or> dc_streamID d = sid)"

lemma WriteChunk_ok:
  assumes "receiving (StreamId ch) n d" and "SequenceNum ch = n + 1"
    and "case lcr_Data ch of None \<Rightarrow> bs = [] | Some z \<Rightarrow> gz_open g z = Inr (bs, None)"
  shows "\<exists>d'. WriteChunk g ch d = (Inr (IsLast ch), d') \<and> receiving (StreamId ch) (n + 1) d' \<and>
    dc_data d' = dc_data d @ bs"
  using assms
  by (auto simp: WriteChunk_def receiving_def copy_to_file_def Let_def split: option.splits)

text \<open>One call of \<^verbatim>\<open>Next\<close> on an unfinished chunker over a quiet reader.\<close>

definition ready :: "chunker \<Rightarrow> bool" where
  "ready c \<longleftrightarrow> \<not> ck_finished c \<and> quiet (cr_reader (ck_r c)) \<and> 0 < ck_chunkSize c"

abbreviation ck_left :: "chunker \<Rightarrow> bytes" where
  "ck_left c \<equiv> sr_data (cr_reader (ck_r c))"

lemma ck_Next_cases:
  assumes "ready c" and g: "gzip_inverse g"
  obtains (finish) c' where "ck_Next g c = (Inl NextEOF, c')"
      "ck_left c = []" "ck_sequenceNum c = 0" "ck_finished c'" "ck_sequenceNum c' = 0"
    | (last_one) ch c' bs where "ck_Next g c = (Inr ch, c')"
      "StreamId ch = ck_streamID c \<and> \<not> lcr_Abort ch" "SequenceNum ch = ck_sequenceNum c + 1" "IsLast ch"
      "case lcr_Data ch of None \<Rightarrow> bs = [] | Some z \<Rightarrow> gz_open g z = Inr (bs, None)"
      "ck_left c = bs" "ck_left c = [] \<longrightarrow> ck_sequenceNum c \<noteq> 0" "ck_finished c'"
    | (more) ch c' bs where "ck_Next g c = (Inr ch, c')"
      "StreamId ch = ck_streamID c \<and> \<not> lcr_Abort ch" "SequenceNum ch = ck_sequenceNum c + 1" "\<not> IsLast ch"
      "case lcr_Data ch of None \<Rightarrow> bs = [] | Some z \<Rightarrow> gz_open g z = Inr (bs, None)"
      "ck_left c = bs @ ck_left c'" "bs \<noteq> []" "ready c'"
      "ck_sequenceNum c' = ck_sequenceNum c + 1" "ck_streamID c' = ck_streamID c"
proof -
  let ?n = "nat (min internalChunkSize (ck_chunkSize c))"
  have n: "0 < ?n" using assms(1) by (simp add: ready_def internalChunkSize_def)
  have q: "quiet (cr_reader (ck_r c))" using assms(1) by (simp add: ready_def)
  from read_loop_quiet [OF q n, of "ck_chunkSize c" "[]" 0, unfolded append_Nil add_0]
  obtain eof got r' where
    rl: "read_loop (ck_chunkSize c) ?n [] 0 (ck_r c) = (Inr eof, got, int (length got), r')"
    and q': "quiet (cr_reader r')" and sp: "ck_left c = got @ sr_data (cr_reader r')"
    and e: "if eof then sr_data (cr_reader r') = [] \<and> int (length got) < ck_chunkSize c
      else ck_chunkSize c \<le> int (length got)"
    by blast
  obtain z where z: "gz_write g got = Inr z" "gz_open g z = Inr (got, None)"
    using gzip_inverseE [OF g] .

  have pos: "\<not> ck_finished c" "0 < ck_chunkSize c" "\<not> min internalChunkSize (ck_chunkSize c) < 0"
    using assms(1) by (auto simp: ready_def internalChunkSize_def)
  define c2 where "c2 = c\<lparr>ck_r := r', ck_finished := eof, ck_nWritten := ck_nWritten c + int (length z)\<rparr>"
  have nx: "ck_Next g c =
     (if got = [] then
        (if ck_sequenceNum c = 0 then (Inl NextEOF, c2)
         else (Inr \<lparr>StreamId = ck_streamID c, SequenceNum = ck_sequenceNum c + 1,
                 IsLast = True, lcr_Data = None, lcr_Abort = False\<rparr>, c2))
      else (Inr \<lparr>StreamId = ck_streamID c, SequenceNum = ck_sequenceNum c + 1,
              IsLast = int (length got) < ck_chunkSize c, lcr_Data = Some z, lcr_Abort = False\<rparr>,
            c2\<lparr>ck_sequenceNum := ck_sequenceNum c + 1\<rparr>))"
    using pos by (simp add: ck_Next_def rl z(1) Let_def c2_def)
  show thesis
  proof (cases eof)
    case True
    then have fin: "ck_left c = got" "ck_finished c2" "ck_sequenceNum c2 = ck_sequenceNum c"
      "int (length got) < ck_chunkSize c" using e sp by (simp_all add: c2_def)
    consider "got = []" "ck_sequenceNum c = 0" | "got = []" "ck_sequenceNum c \<noteq> 0" | "got \<noteq> []"
      by blast
    then show thesis
    proof cases
      case 1
      then show thesis using fin by (intro finish [of c2]) (simp_all add: nx)
    next
      case 2
      then show thesis using fin by - (rule last_one [of _ c2 "[]"], simp add: nx, simp_all)
    next
      case 3
      then show thesis using fin z(2)
        by - (rule last_one [of _ "c2\<lparr>ck_sequenceNum := ck_sequenceNum c + 1\<rparr>" got],
          simp add: nx, simp_all)
    qed
  next
    case False
    then have "got \<noteq> []" "\<not> int (length got) < ck_chunkSize c" using e pos by auto
    then show thesis using False sp pos z(2) q'
      by - (rule more [of _ "c2\<lparr>ck_sequenceNum := ck_sequenceNum c + 1\<rparr>" got],
        simp add: nx, simp_all add: ready_def c2_def)
  qed
qed

lemma drain_finished: "ck_finished c \<Longrightarrow> 0 < n \<Longrightarrow> drain n g c = ([], Some NextEOF, c)"
  by (cases n) (simp_all add: ck_Next_def)

lemma drain_write:
  assumes "gzip_inverse g" and "ready c" and "receiving (ck_streamID c) (ck_sequenceNum c) d"
    and "length (ck_left c) + 1 < n" and "0 \<le> ck_sequenceNum c"
  shows "\<exists>chs c' d'. drain n g c = (chs, Some NextEOF, c') \<and> ck_finished c' \<and>
    write_all g chs d = (Inr (if chs = [] then [] else replicate (length chs - 1) False @ [True]), d') \<and>
    dc_data d' = dc_data d @ ck_left c \<and>
    map SequenceNum chs = map (\<lambda>i. ck_sequenceNum c + 1 + int i) [0..<length chs] \<and>
    (chs = [] \<longleftrightarrow> ck_left c = [] \<and> ck_sequenceNum c = 0) \<and>
    (\<forall>ch \<in> set chs. StreamId ch = ck_streamID c \<and> \<not> lcr_Abort ch)"
  using assms(2-)
proof (induction n arbitrary: c d)
  case 0
  then show ?case by simp
next
  case (Suc n)
  from Suc.prems(1) assms(1) show ?case
  proof (cases rule: ck_Next_cases)
    case (finish c')
    then show ?thesis by simp
  next
    case (last_one ch c' bs)
    obtain d' where "WriteChunk g ch d = (Inr True, d')" "dc_data d' = dc_data d @ bs"
      using WriteChunk_ok [of ch "ck_sequenceNum c" d bs g] Suc.prems(2) last_one by auto
    then show ?thesis using last_one drain_finished [of c' n g] Suc.prems(3) by simp
  next
    case (more ch c' bs)
    obtain d1 where w: "WriteChunk g ch d = (Inr False, d1)" "dc_data d1 = dc_data d @ bs"
      and rc: "receiving (ck_streamID c') (ck_sequenceNum c') d1"
      using WriteChunk_ok [of ch "ck_sequenceNum c" d bs g] Suc.prems(2) more by auto
    have n: "length (ck_left c') + 1 < n"
      using Suc.prems(3) more(6,7) by (cases bs) auto
    from Suc.IH [OF more(8) rc n] Suc.prems(4) more(9) obtain chs c2 d2 where
      ih: "drain n g c' = (chs, Some NextEOF, c2)" "ck_finished c2"
        "write_all g chs d1 = (Inr (if chs = [] then [] else replicate (length chs - 1) False @ [True]), d2)"
        "dc_data d2 = dc_data d1 @ ck_left c'"
        "map SequenceNum chs = map (\<lambda>i. ck_sequenceNum c' + 1 + int i) [0..<length chs]"
        "chs = [] \<longleftrightarrow> ck_left c' = [] \<and> ck_sequenceNum c' = 0"
        "\<forall>ch \<in> set chs. StreamId ch = ck_streamID c' \<and> \<not> lcr_Abort ch"
      by auto
    have ne: "chs \<noteq> []" using ih(6) more(9) Suc.prems(4) by simp
    have "map SequenceNum (ch # chs) = map (\<lambda>i. ck_sequenceNum c + 1 + int i) [0..<length (ch # chs)]"
      using ih(5) more(3,9) by (simp add: upt_conv_Cons map_Suc_upt [symmetric] o_def algebra_simps del: upt_Suc)
    moreover have "write_all g (ch # chs) d =
        (Inr (replicate (length (ch # chs) - 1) False @ [True]), d2)"
      using w ih(3) ne by (cases chs) simp_all
    ultimately show ?thesis
      using more ih w ne by (intro exI [of _ "ch # chs"] exI [of _ c2] exI [of _ d2]) simp
  qed
qed

lemma WriteChunk_accepts:
  assumes "WriteChunk g ch d = (Inr l, d')"
  shows "SequenceNum ch = dc_seqNum d + 1" and "dc_seqNum d' = dc_seqNum d + 1"
    and "dc_streamID d = '''' \<or> dc_streamID d = StreamId ch" and "dc_streamID d' = StreamId ch"
    and "l = IsLast ch" and "dc_open d' = dc_open d" and "dc_filePath d' = dc_filePath d"
    and "\<exists>bs. dc_data d' = dc_data d @ bs \<and>
      (case lcr_Data ch of None \<Rightarrow> bs = [] | Some z \<Rightarrow> gz_open g z = Inr (bs, None))"
  using assms
  by (auto simp: WriteChunk_def copy_to_file_def Let_def
      split: if_splits option.splits sum.splits prod.splits)

lemma write_all_frame:
  "write_all g chs d = (Inr ls, d') \<Longrightarrow>
   dc_open d' = dc_open d \<and> dc_filePath d' = dc_filePath d \<and>
   dc_seqNum d' = dc_seqNum d + int (length chs)"
proof (induction chs arbitrary: d ls)
  case (Cons ch chs)
  then obtain l d1 ls' where w: "WriteChunk g ch d = (Inr l, d1)"
    and r: "write_all g chs d1 = (Inr ls', d')"
    by (auto split: prod.splits sum.splits)
  show ?case using Cons.IH [OF r] WriteChunk_accepts [OF w] by simp
qed simp

lemma drain_new:
  assumes "gzip_inverse g" and "quiet r" and "0 < cs" and "NewDechunker (Inr name) dir = Inr d"
  shows "\<exists>chs c' d'. drain (length (sr_data r) + 2) g (NewChunker rnd r cs) = (chs, Some NextEOF, c') \<and>
    (chs = [] \<longleftrightarrow> sr_data r = []) \<and>
    map SequenceNum chs = map int [1..<length chs + 1] \<and>
    write_all g chs d = (Inr (if chs = [] then [] else replicate (length chs - 1) False @ [True]), d') \<and>
    dc_data d' = sr_data r \<and> dc_open d' \<and> dc_filePath d' = name \<and>
    (\<forall>ch \<in> set chs. StreamId ch = generateStreamID rnd \<and> \<not> lcr_Abort ch)"
proof -
  let ?c = "NewChunker rnd r cs"
  have rdy: "ready ?c" using assms(2,3)
    by (simp add: ready_def NewChunker_def NewCountingReader_def)
  have c: "ck_sequenceNum ?c = 0" "ck_left ?c = sr_data r" "ck_streamID ?c = generateStreamID rnd"
    by (simp_all add: NewChunker_def NewCountingReader_def)
  have rc: "receiving (ck_streamID ?c) (ck_sequenceNum ?c) d" "dc_data d = []" "dc_filePath d = name"
    using assms(4) c by (auto simp: NewDechunker_def receiving_def)
  from drain_write [OF assms(1) rdy rc(1), of "length (sr_data r) + 2", unfolded c rc(2)]
  obtain chs c' d' where
    dr: "drain (length (sr_data r) + 2) g ?c = (chs, Some NextEOF, c')"
    and w: "write_all g chs d = (Inr (if chs = [] then [] else replicate (length chs - 1) False @ [True]), d')"
    and dd: "dc_data d' = sr_data r" and ne: "chs = [] \<longleftrightarrow> sr_data r = []"
    and sq: "map SequenceNum chs = map (\<lambda>i. 0 + 1 + int i) [0..<length chs]"
    and st: "\<forall>ch \<in> set chs. StreamId ch = generateStreamID rnd \<and> \<not> lcr_Abort ch"
    by auto
  have "map SequenceNum chs = map int [1..<length chs + 1]"
    unfolding sq by (simp add: map_Suc_upt [symmetric] del: upt_Suc)
  moreover have "dc_open d' \<and> dc_filePath d' = name"
    using write_all_frame [OF w] rc(1,3) by (simp add: receiving_def)
  ultimately show ?thesis using dr w dd ne st by blast
qed


definition sample_reader :: src_reader where
  "sample_reader = \<lparr>sr_data = [10, 20, 30, 40, 50], sr_sched = [(1, None), (0, None), (9, None)]\<rparr>"


section \<open>What a dechunker accepts\<close>

text \<open>The bytes a chunk stands for.\<close>

definition chunk_bytes :: "gzip_lib \<Rightarrow> LoadChunkRequest \<Rightarrow> bytes" where
  "chunk_bytes g ch = (case lcr_Data ch of None \<Rightarrow> [] | Some z \<Rightarrow>
     (case gz_open g z of Inr (bs, None) \<Rightarrow> bs | _ \<Rightarrow> []))"

lemma write_all_accepts:
  assumes "write_all g chs d = (Inr ls, d')"
  shows "map SequenceNum chs = map (\<lambda>i. dc_seqNum d + 1 + int i) [0..<length chs] \<and>
    dc_data d' = dc_data d @ concat (map (chunk_bytes g) chs) \<and> ls = map IsLast chs \<and>
    (dc_streamID d \<noteq> '''' \<longrightarrow> (\<forall>ch \<in> set chs. StreamId ch = dc_streamID d))"
  using assms
proof (induction chs arbitrary: d ls)
  case Nil
  then show ?case by simp
next
  case (Cons ch chs)
  from Cons.prems obtain l d1 ls' where w: "WriteChunk g ch d = (Inr l, d1)"
    and r: "write_all g chs d1 = (Inr ls', d')" and ls: "ls = l # ls'"
    by (auto split: prod.splits sum.splits)
  note a = WriteChunk_accepts [OF w] and ih = Cons.IH [OF r]
  have "dc_data d1 = dc_data d @ chunk_bytes g ch"
    using a(8) by (auto simp: chunk_bytes_def split: option.splits)
  moreover have "map SequenceNum (ch # chs) = map (\<lambda>i. dc_seqNum d + 1 + int i) [0..<length (ch # chs)]"
    using ih a(1,2) by (simp add: upt_conv_Cons map_Suc_upt [symmetric] o_def algebra_simps del: upt_Suc)
  ultimately show ?case using ih a ls by auto
qed


definition sample_chunk :: "string \<Rightarrow> int \<Rightarrow> bool \<Rightarrow> bytes \<Rightarrow> LoadChunkRequest" where
  "sample_chunk sid n l bs = \<lparr>StreamId = sid, SequenceNum = n, IsLast = l,
     lcr_Data = Some (31 # bs), lcr_Abort = False\<rparr>"


end
