(* ===== verification/Command_Processor.thy ===== *)
theory Command_Processor
  imports Marshal Chunking Db_Layer
begin

text \<open>
  \<^verbatim>\<open>store/command_processor.go\<close>: a command read from the Raft log is applied to the
  database. Every node runs this on the same log, so it is where the replicas agree. The failures
  the environment can cause (temporary files, the file operations of a swap) are inputs; a panic
  is a value. The processor's state is the dechunker manager and the database.
\<close>

section \<open>Definitions\<close>

text \<open>The codecs of the messages that pass through the log.\<close>

record codecs =
  gzip :: gzip_lib
  pb_Command :: "Command pb_codec"
  pb_Query :: "QueryRequest pb_codec"
  pb_Execute :: "ExecuteRequest pb_codec"
  pb_ExecuteQuery :: "ExecuteQueryRequest pb_codec"
  pb_Load :: "LoadRequest pb_codec"
  pb_LoadChunk :: "LoadChunkRequest pb_codec"
  pb_Noop :: "Noop pb_codec"

datatype fsm_response =
    FsmQuery "QueryRows list" "string option"
  | FsmExecuteQuery "ExecuteQueryResponse list" "string option"
  | FsmGeneric "string option"

definition is_E :: "ExecuteQueryResponse \<Rightarrow> bool" where
  "is_E r = (case r of Resp_E _ \<Rightarrow> True | _ \<Rightarrow> False)"

definition Mutation :: "ExecuteQueryResponse list \<Rightarrow> bool" where
  "Mutation e = (if e = [] then False else \<exists>r \<in> set e. is_E r)"

record proc_env =
  pe_tmp :: tmp_file
  pe_write :: "string option"
  pe_dechunk_tmp :: tmp_file
  pe_swap :: swap_env

text \<open>Environment in which nothing fails.\<close>

definition good_env :: proc_env where
  "good_env = \<lparr>pe_tmp = Inr ''load'', pe_write = None, pe_dechunk_tmp = Inr ''dechunker'',
     pe_swap = \<lparr>sw_remove = None, sw_rename = None\<rparr>\<rparr>"

record 'db proc_state =
  ps_dm :: dechunker_manager
  ps_db :: "'db swappable"

type_synonym 'db proc_result = "(string, Command \<times> bool \<times> fsm_response) result \<times> 'db proc_state"

definition process_load ::
  "codecs \<Rightarrow> 'db db_lib \<Rightarrow> proc_env \<Rightarrow> Command \<Rightarrow> 'db proc_state \<Rightarrow> 'db proc_result" where
  "process_load C L env cmd s =
   (case UnmarshalLoadRequest (gzip C) (pb_Load C) (SubCommand cmd) of
      Inl e \<Rightarrow> (Inl (''failed to unmarshal load subcommand: '' @ e), s)
    | Inr lr \<Rightarrow> (case pe_tmp env of
        Inl e \<Rightarrow> (Inr (cmd, False, FsmGeneric (Some (''failed to create temporary database file: '' @ e))), s)
      | Inr _ \<Rightarrow> (case pe_write env of
          Some e \<Rightarrow> (Inr (cmd, False, FsmGeneric (Some (''failed to write to temporary database file: '' @ e))), s)
        | None \<Rightarrow>
           (case Swap L (pe_swap env) (Some (lr_Data lr)) (lib_FKEnabled L (sdb (ps_db s)))
                   (lib_WALEnabled L (sdb (ps_db s))) (ps_db s) of
              (Some e, db) \<Rightarrow> (Inr (cmd, False, FsmGeneric (Some (''error swapping databases: '' @ e))), s\<lparr>ps_db := db\<rparr>)
            | (None, db) \<Rightarrow> (Inr (cmd, True, FsmGeneric None), s\<lparr>ps_db := db\<rparr>)))))"

definition process_chunk ::
  "codecs \<Rightarrow> 'db db_lib \<Rightarrow> proc_env \<Rightarrow> Command \<Rightarrow> 'db proc_state \<Rightarrow> 'db proc_result" where
  "process_chunk C L env cmd s =
   (case UnmarshalLoadChunkRequest (pb_LoadChunk C) (SubCommand cmd) of
      Inl e \<Rightarrow> (Inl (''failed to unmarshal load-chunk subcommand: '' @ e), s)
    | Inr lcr \<Rightarrow> (case dm_Get (pe_dechunk_tmp env) (StreamId lcr) (ps_dm s) of
        (Inl e, dm) \<Rightarrow> (Inr (cmd, False, FsmGeneric (Some (''failed to get dechunker: '' @ e))), s\<lparr>ps_dm := dm\<rparr>)
      | (Inr dec, dm) \<Rightarrow>
         if lcr_Abort lcr then
           (case dc_Close dec of
              (Inl e, dec) \<Rightarrow> (Inr (cmd, False, FsmGeneric (Some (''failed to close dechunker: '' @ e))),
                s\<lparr>ps_dm := dm_put (StreamId lcr) dec dm\<rparr>)
            | (Inr path, dec) \<Rightarrow> (Inr (cmd, True, FsmGeneric None), s\<lparr>ps_dm := dm_Delete (StreamId lcr) dm\<rparr>))
         else
           (case WriteChunk (gzip C) lcr dec of
              (Inl e, dec) \<Rightarrow> (Inr (cmd, False, FsmGeneric (Some ''failed to write chunk'')),
                s\<lparr>ps_dm := dm_put (StreamId lcr) dec dm\<rparr>)
            | (Inr False, dec) \<Rightarrow> (Inr (cmd, True, FsmGeneric None), s\<lparr>ps_dm := dm_put (StreamId lcr) dec dm\<rparr>)
            | (Inr True, dec) \<Rightarrow>
               (case dc_Close dec of
                  (Inl e, dec) \<Rightarrow> (Inr (cmd, False, FsmGeneric (Some (''failed to close dechunker: '' @ e))),
                    s\<lparr>ps_dm := dm_put (StreamId lcr) dec dm\<rparr>)
                | (Inr path, dec) \<Rightarrow>
                   let s = s\<lparr>ps_dm := dm_Delete (StreamId lcr) dm\<rparr>; f = Some (dc_data dec) in
                   if \<not> IsValidSQLiteFile f then
                     (Inr (cmd, False, FsmGeneric (Some ''invalid chunked database file - ignoring'')), s)
                   else
                     (case Swap L (pe_swap env) f (lib_FKEnabled L (sdb (ps_db s)))
                             (lib_WALEnabled L (sdb (ps_db s))) (ps_db s) of
                        (Some e, db) \<Rightarrow> (Inr (cmd, False, FsmGeneric (Some (''error swapping databases: '' @ e))), s\<lparr>ps_db := db\<rparr>)
                      | (None, db) \<Rightarrow> (Inr (cmd, True, FsmGeneric None), s\<lparr>ps_db := db\<rparr>))))))"

definition Process ::
  "codecs \<Rightarrow> 'db db_lib \<Rightarrow> proc_env \<Rightarrow> bytes \<Rightarrow> 'db proc_state \<Rightarrow> 'db proc_result" where
  "Process C L env data s =
   (case cmd_Unmarshal (pb_Command C) data of
      Inl e \<Rightarrow> (Inl (''failed to unmarshal cluster command: '' @ e), s)
    | Inr cmd \<Rightarrow> (case cmd_Type cmd of
        TYPE_QUERY \<Rightarrow> (case UnmarshalSubCommand (gzip C) (pb_Query C) cmd of
            Inl e \<Rightarrow> (Inl (''failed to unmarshal query subcommand: '' @ e), s)
          | Inr qr \<Rightarrow> (case sd_Query L (qr_Request qr) (qr_Timings qr) (ps_db s) of
              (r, err) \<Rightarrow> (Inr (cmd, False, FsmQuery r err), s)))
      | TYPE_EXECUTE \<Rightarrow> (case UnmarshalSubCommand (gzip C) (pb_Execute C) cmd of
            Inl e \<Rightarrow> (Inl (''failed to unmarshal execute subcommand: '' @ e), s)
          | Inr er \<Rightarrow> (case sd_Execute L (er_Request er) (er_Timings er) (ps_db s) of
              ((r, err), db) \<Rightarrow> (Inr (cmd, True, FsmExecuteQuery r err), s\<lparr>ps_db := db\<rparr>)))
      | TYPE_EXECUTE_QUERY \<Rightarrow> (case UnmarshalSubCommand (gzip C) (pb_ExecuteQuery C) cmd of
            Inl e \<Rightarrow> (Inl (''failed to unmarshal execute-query subcommand: '' @ e), s)
          | Inr eqr \<Rightarrow> (case sd_Request L (eqr_Request eqr) (eqr_Timings eqr) (ps_db s) of
              ((r, err), db) \<Rightarrow> (Inr (cmd, Mutation r, FsmExecuteQuery r err), s\<lparr>ps_db := db\<rparr>)))
      | TYPE_LOAD \<Rightarrow> process_load C L env cmd s
      | TYPE_LOAD_CHUNK \<Rightarrow> process_chunk C L env cmd s
      | TYPE_NOOP \<Rightarrow> (Inr (cmd, False, FsmGeneric None), s)
      | _ \<Rightarrow> (Inr (cmd, False, FsmGeneric (Some ''unhandled command'')), s)))"

section \<open>Commands in the log\<close>

text \<open>A log entry's data is the encoding of a command.\<close>

definition encodes :: "codecs \<Rightarrow> Command \<Rightarrow> bytes \<Rightarrow> bool" where
  "encodes C cmd data \<longleftrightarrow> cmd_Marshal (pb_Command C) cmd = Inr data \<and> pb_inverse (pb_Command C) cmd"

lemma encodesD: "encodes C cmd data \<Longrightarrow> cmd_Unmarshal (pb_Command C) data = Inr cmd"
  by (simp add: encodes_def cmd_Marshal_def cmd_Unmarshal_def pb_inverseD)

lemma Process_execute:
  assumes "encodes C cmd data" and "cmd_Type cmd = TYPE_EXECUTE"
    and "UnmarshalSubCommand (gzip C) (pb_Execute C) cmd = Inr er"
    and "lib_Execute L (er_Request er) (er_Timings er) (sdb (ps_db s)) = ((r, err), d)"
  shows "Process C L env data s =
    (Inr (cmd, True, FsmExecuteQuery r err), s\<lparr>ps_db := (ps_db s)\<lparr>sdb := d\<rparr>\<rparr>)"
  using assms by (simp add: Process_def encodesD sd_Execute_def)

lemma Process_query:
  assumes "encodes C cmd data" and "cmd_Type cmd = TYPE_QUERY"
    and "UnmarshalSubCommand (gzip C) (pb_Query C) cmd = Inr qr"
    and "lib_Query L (qr_Request qr) (qr_Timings qr) (sdb (ps_db s)) = (r, err)"
  shows "Process C L env data s = (Inr (cmd, False, FsmQuery r err), s)"
  using assms by (simp add: Process_def encodesD sd_Query_def)

lemma Process_request:
  assumes "encodes C cmd data" and "cmd_Type cmd = TYPE_EXECUTE_QUERY"
    and "UnmarshalSubCommand (gzip C) (pb_ExecuteQuery C) cmd = Inr eqr"
    and "lib_Request L (eqr_Request eqr) (eqr_Timings eqr) (sdb (ps_db s)) = ((r, err), d)"
  shows "Process C L env data s =
    (Inr (cmd, Mutation r, FsmExecuteQuery r err), s\<lparr>ps_db := (ps_db s)\<lparr>sdb := d\<rparr>\<rparr>)"
  using assms by (simp add: Process_def encodesD sd_Request_def)

text \<open>Applying log entries one after another; the run stops at a panic.\<close>

fun run_log ::
  "codecs \<Rightarrow> 'db db_lib \<Rightarrow> proc_env \<Rightarrow> bytes list \<Rightarrow> 'db proc_state \<Rightarrow>
   (string, fsm_response list) result \<times> 'db proc_state" where
  "run_log C L env [] s = (Inr [], s)"
| "run_log C L env (data # ds) s = (case Process C L env data s of
     (Inl e, s') \<Rightarrow> (Inl e, s')
   | (Inr (_, _, r), s') \<Rightarrow> (case run_log C L env ds s' of
        (Inl e, s'') \<Rightarrow> (Inl e, s'')
      | (Inr rs, s'') \<Rightarrow> (Inr (r # rs), s'')))"

section \<open>Chunked loads\<close>

definition chunk_entry :: "codecs \<Rightarrow> LoadChunkRequest \<Rightarrow> bytes \<Rightarrow> bool" where
  "chunk_entry C ch data \<longleftrightarrow> (\<exists>b. MarshalLoadChunkRequest (pb_LoadChunk C) ch = Inr b \<and>
     pb_inverse (pb_LoadChunk C) ch \<and>
     encodes C \<lparr>cmd_Type = TYPE_LOAD_CHUNK, SubCommand = b, Compressed = False\<rparr> data)"

lemma chunk_entry_Process:
  assumes "chunk_entry C ch data"
  obtains b where "Process C L env data s =
      process_chunk C L env \<lparr>cmd_Type = TYPE_LOAD_CHUNK, SubCommand = b, Compressed = False\<rparr> s"
    and "UnmarshalLoadChunkRequest (pb_LoadChunk C) b = Inr ch"
  using assms unfolding chunk_entry_def
  by (auto simp: Process_def encodesD MarshalLoadChunkRequest_def UnmarshalLoadChunkRequest_def
      dest: pb_inverseD)

lemma dm_Get_put [simp]: "dm_Get tmp i (dm_put i dc dm) = (Inr dc, dm_put i dc dm)"
  by (simp add: dm_Get_def dm_put_def map_of_update)

lemma dm_put_put [simp]: "map_of (dm_m (dm_put i d (dm_put i d' dm))) = map_of (dm_m (dm_put i d dm))"
  by (simp add: dm_put_def map_of_update)

lemma map_of_Delete: "map_of (dm_m (dm_Delete i dm)) = (map_of (dm_m dm))(i := None)"
  by (simp add: dm_Delete_def delete_conv')

lemma dm_Get_new:
  assumes "map_of (dm_m dm) i = None" and "NewDechunker tmp (dm_dir dm) = Inr d"
  shows "dm_Get tmp i dm = (Inr d, dm_put i d dm)"
  using assms by (simp add: dm_Get_def dm_put_def)

text \<open>An accepted chunk that is not the last changes only its dechunker.\<close>

lemma process_chunk_more:
  assumes "chunk_entry C ch data" and "\<not> lcr_Abort ch"
    and "dm_Get (pe_dechunk_tmp env) (StreamId ch) (ps_dm s) = (Inr d, dm)"
    and "WriteChunk (gzip C) ch d = (Inr False, d')"
  shows "\<exists>cmd. Process C L env data s =
    (Inr (cmd, True, FsmGeneric None), s\<lparr>ps_dm := dm_put (StreamId ch) d' dm\<rparr>)"
proof -
  obtain b where "Process C L env data s =
      process_chunk C L env \<lparr>cmd_Type = TYPE_LOAD_CHUNK, SubCommand = b, Compressed = False\<rparr> s"
    and "UnmarshalLoadChunkRequest (pb_LoadChunk C) b = Inr ch"
    using chunk_entry_Process [OF assms(1)] .
  with assms(2-) show ?thesis by (simp add: process_chunk_def)
qed

text \<open>The last accepted chunk installs the file.\<close>

lemma process_chunk_last:
  assumes "chunk_entry C ch data" and "\<not> lcr_Abort ch"
    and "dm_Get (pe_dechunk_tmp env) (StreamId ch) (ps_dm s) = (Inr d, dm)"
    and "WriteChunk (gzip C) ch d = (Inr True, d')" and "dc_open d'"
    and "IsValidSQLiteFile (Some (dc_data d'))"
    and "Swap L (pe_swap env) (Some (dc_data d')) (lib_FKEnabled L (sdb (ps_db s)))
           (lib_WALEnabled L (sdb (ps_db s))) (ps_db s) = (None, db)"
  shows "\<exists>cmd. Process C L env data s = (Inr (cmd, True, FsmGeneric None),
    s\<lparr>ps_dm := dm_Delete (StreamId ch) dm, ps_db := db\<rparr>)"
proof -
  obtain b where "Process C L env data s =
      process_chunk C L env \<lparr>cmd_Type = TYPE_LOAD_CHUNK, SubCommand = b, Compressed = False\<rparr> s"
    and "UnmarshalLoadChunkRequest (pb_LoadChunk C) b = Inr ch"
    using chunk_entry_Process [OF assms(1)] .
  with assms(2-) show ?thesis by (simp add: process_chunk_def dc_Close_def)
qed

lemma run_chunks:
  assumes "list_all2 (chunk_entry C) chs datas" and "chs \<noteq> []"
    and "\<forall>ch \<in> set chs. StreamId ch = sid \<and> \<not> lcr_Abort ch"
    and "dm_Get (pe_dechunk_tmp env) sid (ps_dm s) = (Inr d, dm)"
    and "write_all (gzip C) chs d = (Inr (replicate (length chs - 1) False @ [True]), d')"
    and "dc_open d'" and "IsValidSQLiteFile (Some (dc_data d'))"
    and "Swap L (pe_swap env) (Some (dc_data d')) (lib_FKEnabled L (sdb (ps_db s)))
           (lib_WALEnabled L (sdb (ps_db s))) (ps_db s) = (None, db)"
  shows "\<exists>s'. run_log C L env datas s = (Inr (replicate (length chs) (FsmGeneric None)), s') \<and>
    ps_db s' = db \<and> map_of (dm_m (ps_dm s')) = (map_of (dm_m dm))(sid := None)"
  using assms
proof (induction chs arbitrary: datas s d dm)
  case (Cons ch chs)
  obtain data ds where ds: "datas = data # ds" "chunk_entry C ch data" "list_all2 (chunk_entry C) chs ds"
    using Cons.prems(1) by (auto simp: list_all2_Cons1)
  have ch: "StreamId ch = sid" "\<not> lcr_Abort ch" using Cons.prems(3) by auto
  show ?case
  proof (cases "chs = []")
    case True
    then have "WriteChunk (gzip C) ch d = (Inr True, d')"
      using Cons.prems(5) by (auto split: prod.splits sum.splits)
    from process_chunk_last [OF ds(2) ch(2) _ this Cons.prems(6,7,8), of dm] Cons.prems(4) ch
    obtain cmd where "Process C L env data s = (Inr (cmd, True, FsmGeneric None),
        s\<lparr>ps_dm := dm_Delete sid dm, ps_db := db\<rparr>)" by auto
    then show ?thesis using True ds
      by (auto simp: map_of_Delete dm_put_def map_of_update)
  next
    case False
    then obtain d1 where w: "WriteChunk (gzip C) ch d = (Inr False, d1)"
      and r: "write_all (gzip C) chs d1 = (Inr (replicate (length chs - 1) False @ [True]), d')"
      using Cons.prems(5) by (cases chs) (auto split: prod.splits sum.splits)
    from process_chunk_more [OF ds(2) ch(2) _ w, of env s dm] Cons.prems(4) ch
    obtain cmd where p: "Process C L env data s = (Inr (cmd, True, FsmGeneric None),
        s\<lparr>ps_dm := dm_put sid d1 dm\<rparr>)" by auto
    have "\<exists>s'. run_log C L env ds (s\<lparr>ps_dm := dm_put sid d1 dm\<rparr>) =
        (Inr (replicate (length chs) (FsmGeneric None)), s') \<and>
      ps_db s' = db \<and> map_of (dm_m (ps_dm s')) = (map_of (dm_m (dm_put sid d1 dm)))(sid := None)"
      using False Cons.prems ds r ch
      by (intro Cons.IH [where d = d1]) auto
    then show ?thesis using p ds by (auto simp: dm_put_def map_of_update)
  qed
qed simp

text \<open>C23: A chunked load through the log installs the file. When the chunks a chunker makes of a
  valid SQLite file are applied from the log in order, whatever the chunk size, every entry is
  answered without error, the database is in the end the one opened from exactly that file with
  the settings of the old one, and the dechunker of the stream is gone while those of other
  streams are untouched.\<close>

theorem chunked_load_installs:
  assumes "gzip_inverse (gzip C)" and "quiet r" and "0 < cs"
    and "drain (length (sr_data r) + 2) (gzip C) (NewChunker rnd r cs) = (chs, e, c)"
    and "list_all2 (chunk_entry C) chs datas"
    and "IsValidSQLiteFile (Some (sr_data r))"
    and "map_of (dm_m (ps_dm s)) (generateStreamID rnd) = None"
    and "pe_dechunk_tmp env = Inr name" and "pe_swap env = \<lparr>sw_remove = None, sw_rename = None\<rparr>"
    and "lib_Close L (sdb (ps_db s)) = None"
    and "lib_Open L (sr_data r) (lib_FKEnabled L (sdb (ps_db s))) (lib_WALEnabled L (sdb (ps_db s))) = Inr d"
  shows "\<exists>s'. run_log C L env datas s = (Inr (replicate (length chs) (FsmGeneric None)), s') \<and>
    ps_db s' = \<lparr>sdb = d, sdb_closed = False\<rparr> \<and> map_of (dm_m (ps_dm s')) = map_of (dm_m (ps_dm s))"
proof -
  obtain d0 where d0: "NewDechunker (Inr name) (dm_dir (ps_dm s)) = Inr d0"
    by (simp add: NewDechunker_def)
  from drain_new [OF assms(1-3) d0, of rnd] assms(4) obtain d' where
    w: "write_all (gzip C) chs d0 = (Inr (if chs = [] then [] else replicate (length chs - 1) False @ [True]), d')"
    and d': "dc_data d' = sr_data r" "dc_open d'" and ne: "chs = [] \<longleftrightarrow> sr_data r = []"
    and st: "\<forall>ch \<in> set chs. StreamId ch = generateStreamID rnd \<and> \<not> lcr_Abort ch"
    by auto
  have chs: "chs \<noteq> []" using assms(6) ne by (auto simp: IsValidSQLiteFile_def)
  have get: "dm_Get (pe_dechunk_tmp env) (generateStreamID rnd) (ps_dm s) =
      (Inr d0, dm_put (generateStreamID rnd) d0 (ps_dm s))"
    using dm_Get_new [OF assms(7) d0] assms(8) by simp
  have "\<exists>s'. run_log C L env datas s = (Inr (replicate (length chs) (FsmGeneric None)), s') \<and>
    ps_db s' = \<lparr>sdb = d, sdb_closed = False\<rparr> \<and>
    map_of (dm_m (ps_dm s')) =
      (map_of (dm_m (dm_put (generateStreamID rnd) d0 (ps_dm s))))(generateStreamID rnd := None)"
    using w d' chs assms
    by (intro run_chunks [OF assms(5) chs st get, where d' = d']) (simp_all add: Swap_ok)
  then show ?thesis using assms(7) by (auto simp: dm_put_def map_of_update fun_upd_idem)
qed

text \<open>A database that remembers the statements executed on it, for evaluation.\<close>

definition sample_lib :: "string list db_lib" where
  "sample_lib = \<lparr>
     lib_Query = (\<lambda>rq t d. ([\<lparr>qs_Columns = d, qs_Types = [], qs_Values = [], qs_Error = ''''\<rparr>], None)),
     lib_Execute = (\<lambda>rq t d. ((map (\<lambda>_. Resp_E \<lparr>LastInsertId = 0, RowsAffected = 1, res_Error = ''''\<rparr>) (GetStatements rq),
        None), d @ map Sql (GetStatements rq))),
     lib_Request = (\<lambda>rq t d. ((map (\<lambda>_. Resp_E \<lparr>LastInsertId = 0, RowsAffected = 1, res_Error = ''''\<rparr>) (GetStatements rq),
        None), d @ map Sql (GetStatements rq))),
     lib_StmtReadOnly = (\<lambda>q d. Inr (take 6 q = ''SELECT'')),
     lib_Open = (\<lambda>f fk w. Inr [map (\<lambda>b. char_of (unat b)) f]),
     lib_Close = (\<lambda>d. None),
     lib_FKEnabled = (\<lambda>d. False),
     lib_WALEnabled = (\<lambda>d. True),
     lib_Checkpoint = (\<lambda>d. (None, d)),
     lib_Vacuum = (\<lambda>d. (None, d)),
     lib_Optimize = (\<lambda>d. (None, d)),
     lib_file = (\<lambda>d. string_bytes (concat d)),
     lib_walfile = (\<lambda>d. None),
     lib_LastModified = (\<lambda>d. Inr 0),
     lib_Dump = (\<lambda>d. Inr (string_bytes (concat d))),
     lib_VacuumInto = (\<lambda>d. Inr (string_bytes (concat d))),
     lib_PreUpdateHook = (\<lambda>b d. None),
     lib_CommitHook = (\<lambda>b d. None)\<rparr>"

definition sample_sqlite_file :: bytes where
  "sample_sqlite_file = string_bytes ''SQLite format 3 !''"

lemma sample_file_valid: "IsValidSQLiteFile (Some sample_sqlite_file)"
  by (simp add: IsValidSQLiteFile_def IsValidSQLiteData_def sample_sqlite_file_def string_bytes_def)

lemma sample_lib_simps:
  "lib_Close sample_lib d = None" "lib_FKEnabled sample_lib d = False" "lib_WALEnabled sample_lib d = True"
  "lib_Open sample_lib f fk w = Inr [map (\<lambda>b. char_of (unat b)) f]"
  by (simp_all add: sample_lib_def)

definition sample_load_chunk :: LoadChunkRequest where
  "sample_load_chunk = \<lparr>StreamId = generateStreamID (replicate 16 7), SequenceNum = 1, IsLast = True,
     lcr_Data = Some (31 # sample_sqlite_file), lcr_Abort = False\<rparr>"

text \<open>Codecs that know one message of each type.\<close>

definition sample_codecs :: "Command \<Rightarrow> QueryRequest \<Rightarrow> ExecuteRequest \<Rightarrow> codecs" where
  "sample_codecs cmd qr er = \<lparr>gzip = sample_gzip, pb_Command = sample_pb cmd [1], pb_Query = sample_pb qr [2],
     pb_Execute = sample_pb er [3], pb_ExecuteQuery = sample_pb \<lparr>eqr_Request = None, eqr_Timings = False,
       eqr_Level = LEVEL_NONE, eqr_Freshness = 0, eqr_FreshnessStrict = False\<rparr> [4],
     pb_Load = sample_pb \<lparr>lr_Data = sample_sqlite_file\<rparr> [5],
     pb_LoadChunk = sample_pb sample_load_chunk [6], pb_Noop = sample_pb \<lparr>noop_Id = ''n''\<rparr> [7]\<rparr>"

definition sample_query :: "Level \<Rightarrow> QueryRequest" where
  "sample_query lv = \<lparr>qr_Request = Some \<lparr>Transaction = False,
     Statements = [\<lparr>Sql = ''SELECT 1'', Parameters = [], ForceQuery = False\<rparr>], DbTimeout = 0\<rparr>,
     qr_Timings = False, qr_Level = lv, qr_Freshness = 0, qr_FreshnessStrict = False,
     qr_LinearizableTimeout = 0\<rparr>"

definition sample_proc_state :: "string list proc_state" where
  "sample_proc_state = \<lparr>ps_dm = \<lparr>dm_dir = ''/tmp'', dm_m = []\<rparr>, ps_db = \<lparr>sdb = [], sdb_closed = False\<rparr>\<rparr>"

theorem chunked_load_installs_witness:
  "\<exists>s'. run_log (sample_codecs \<lparr>cmd_Type = TYPE_LOAD_CHUNK, SubCommand = [6], Compressed = False\<rparr>
       (sample_query LEVEL_NONE) (sample_execute ''x'')) sample_lib good_env [[1]] sample_proc_state =
       (Inr [FsmGeneric None], s') \<and>
     ps_db s' = \<lparr>sdb = [map (\<lambda>b. char_of (unat b)) sample_sqlite_file], sdb_closed = False\<rparr>"
proof -
  let ?C = "sample_codecs \<lparr>cmd_Type = TYPE_LOAD_CHUNK, SubCommand = [6], Compressed = False\<rparr>
       (sample_query LEVEL_NONE) (sample_execute ''x'')"
  let ?r = "\<lparr>sr_data = sample_sqlite_file, sr_sched = []\<rparr>"
  have g: "gzip ?C = sample_gzip" by (simp add: sample_codecs_def)
  obtain c where dr: "drain (length (sr_data ?r) + 2) (gzip ?C) (NewChunker (replicate 16 7) ?r 100) =
      ([sample_load_chunk], Some NextEOF, c)"
    unfolding g
    by (simp add: ck_Next_def NewChunker_def NewCountingReader_def read_loop.simps cr_Read_def src_read_def
        internalChunkSize_def sample_gzip_def sample_load_chunk_def sample_sqlite_file_def string_bytes_def
        Let_def eval_nat_numeral)
  have e: "list_all2 (chunk_entry ?C) [sample_load_chunk] [[1]]"
    by (simp add: chunk_entry_def encodes_def MarshalLoadChunkRequest_def cmd_Marshal_def
        sample_codecs_def sample_pb_marshal sample_pb_inverse)
  show ?thesis
    using chunked_load_installs [of ?C ?r 100 "replicate 16 7" _ _ _ "[[1]]" sample_proc_state good_env
        "''dechunker''" sample_lib "[map (\<lambda>b. char_of (unat b)) sample_sqlite_file]", OF _ _ _ dr e]
      sample_gzip_inverse sample_file_valid
    by (auto simp: g quiet_def sample_proc_state_def good_env_def sample_lib_simps simp del: run_log.simps)
qed

end
