(* ===== verification/Store_Types.thy ===== *)
theory Store_Types
  imports Command_Processor Go_Net
begin

text \<open>
  The state of a \<^verbatim>\<open>Store\<close> (\<^verbatim>\<open>store/store.go\<close>), its error values, the servers of
  \<^verbatim>\<open>store/server.go\<close>, and the pure checks of \<^verbatim>\<open>store/state.go\<close>.

  Raft is a library outside the repository. It is a record \<open>raft_ops\<close> of the calls the store
  makes, over an abstract state \<open>'r\<close>. A call that waits also returns the log entries the node's
  state machine applies meanwhile, since the library runs the state machine concurrently with the
  caller. Indexes and terms are natural numbers, instants and durations integers in nanoseconds.
\<close>

section \<open>Errors\<close>

datatype raft_err = RErrNotLeader | RErrLeadershipLost | RErrNothingNewToSnapshot | RErr string

datatype store_err =
    ErrNotOpen | ErrOpen | ErrNotReady | ErrNotLeader | ErrNotSingleNode | ErrStaleRead
  | ErrOpenTimeout | ErrWaitForRemovalTimeout | ErrWaitForLeaderTimeout | ErrWaitForFSMTimeout
  | ErrInvalidBackupFormat | ErrCDCEnabled | ErrInvalidVacuum | ErrLoadInProgress
  | ErrNothingNewToSnapshot
  | RaftErr raft_err
  | CasErr cas_err
  | StoreErr string
  | NodePanic string

section \<open>Servers\<close>

record Server =
  srv_ID :: string
  srv_Addr :: string
  srv_Suffrage :: string

definition NewServer :: "string \<Rightarrow> string \<Rightarrow> bool \<Rightarrow> Server" where
  "NewServer i addr voter = (let v = (if \<not> voter then ''Nonvoter'' else ''voter'') in
     \<lparr>srv_ID = i, srv_Addr = addr, srv_Suffrage = v\<rparr>)"

fun find_server :: "string \<Rightarrow> Server list \<Rightarrow> Server option" where
  "find_server i [] = None"
| "find_server i (n # s) = (if srv_ID n = i then Some n else find_server i s)"

text \<open>\<^verbatim>\<open>Servers.IsReadOnly\<close> returns whether the node is read-only and whether it was found.\<close>

definition IsReadOnly :: "Server list \<Rightarrow> string \<Rightarrow> bool \<times> bool" where
  "IsReadOnly s i = (if s = [] \<or> i = '''' then (False, False)
     else case find_server i s of
       None \<Rightarrow> (False, False)
     | Some n \<Rightarrow> (srv_Suffrage n = ''Nonvoter'', True))"

definition servers_Contains :: "Server list \<Rightarrow> string \<Rightarrow> bool" where
  "servers_Contains s i = (if s = [] \<or> i = '''' then False else find_server i s \<noteq> None)"

section \<open>Raft\<close>

datatype RaftState = RFollower | RCandidate | RLeader | RShutdown

datatype Suffrage = Voter | Nonvoter | Staging

fun suffrage_String :: "Suffrage \<Rightarrow> string" where
  "suffrage_String Voter = ''Voter''"
| "suffrage_String Nonvoter = ''Nonvoter''"
| "suffrage_String Staging = ''Staging''"

record raft_server =
  rs_ID :: string
  rs_Address :: string
  rs_Suffrage :: Suffrage

record raft_log =
  l_Index :: nat
  l_Term :: nat
  l_Data :: bytes
  l_AppendedAt :: time

text \<open>A log entry as the state machine meets it: with the clock and what the file system does.\<close>

record applied =
  ap_log :: raft_log
  ap_now :: time
  ap_env :: proc_env
  ap_setfull :: "string option"

record 'r raft_ops =
  r_State :: "'r \<Rightarrow> RaftState"
  r_LeaderWithID :: "'r \<Rightarrow> string \<times> string"
  r_CurrentTerm :: "'r \<Rightarrow> nat"
  r_CommitIndex :: "'r \<Rightarrow> nat"
  r_AppliedIndex :: "'r \<Rightarrow> nat"
  r_LastIndex :: "'r \<Rightarrow> nat"
  r_LeaderCommitIndex :: "'r \<Rightarrow> nat"
  r_CommandCommitIndex :: "'r \<Rightarrow> nat"
  r_LastContact :: "'r \<Rightarrow> time"
  r_GetConfiguration :: "'r \<Rightarrow> (raft_err, raft_server list) result"
  r_Apply :: "bytes \<Rightarrow> 'r \<Rightarrow> (raft_err, nat) result \<times> applied list \<times> 'r"
  r_VerifyLeader :: "'r \<Rightarrow> raft_err option \<times> applied list \<times> 'r"
  r_wait :: "'r \<Rightarrow> applied list \<times> 'r"
  r_AddVoter :: "string \<Rightarrow> string \<Rightarrow> 'r \<Rightarrow> raft_err option \<times> 'r"
  r_AddNonvoter :: "string \<Rightarrow> string \<Rightarrow> 'r \<Rightarrow> raft_err option \<times> 'r"
  r_RemoveServer :: "string \<Rightarrow> 'r \<Rightarrow> raft_err option \<times> 'r"
  r_BootstrapCluster :: "raft_server list \<Rightarrow> 'r \<Rightarrow> raft_err option \<times> 'r"
  r_LeadershipTransfer :: "'r \<Rightarrow> raft_err option \<times> 'r"

section \<open>The store\<close>

record 'db store =
  s_open :: bool
  s_raftID :: string
  s_restorePath :: string
  s_restoreDone :: bool
  s_db :: "'db swappable"
  s_dm :: dechunker_manager
  s_cdcStreamer :: "cdc_streamer option"
  s_readyChans :: ready_channels
  s_snapshotCAS :: check_and_set
  s_fsmIdx :: nat
  s_fsmTarget :: "nat ready_target"
  s_fsmTerm :: nat
  s_fsmUpdateTime :: time
  s_appendedAtTime :: time
  s_strongReadTerm :: nat
  s_dbModifiedTime :: time
  s_dbAppliedIdx :: nat
  s_appliedTarget :: "nat ready_target"
  s_reqMarshaller :: RequestMarshaler
  s_bolt :: "string \<Rightarrow> bytes option"
  s_fullNeeded :: bool
  s_firstLogAppliedT :: time
  s_BootstrapExpect :: int
  s_bootstrapped :: bool
  s_notifyingNodes :: "(string \<times> Server) list"
  s_AutoVacInterval :: int
  s_AutoOptimizeInterval :: int
  s_ReapTimeout :: int
  s_ReapReadOnlyTimeout :: int
  s_FKConstraints :: bool
  s_numLRUpgraded :: nat
  s_numFullSnapshots :: nat
  s_numAutoVacuums :: nat
  s_numAutoOptimizes :: nat
  s_numIgnoredJoins :: nat
  s_numNoops :: nat
  s_numSnapshots :: nat
  s_pstats :: counters
  s_stats :: counters

record ('db, 'r) node =
  nst :: "'db store"
  nra :: 'r

abbreviation stat :: "string \<Rightarrow> 'db store \<Rightarrow> 'db store" where
  "stat k s \<equiv> s\<lparr>s_stats := stats_add k 1 (s_stats s)\<rparr>"

abbreviation upd_store :: "('db store \<Rightarrow> 'db store) \<Rightarrow> ('db, 'r) node \<Rightarrow> ('db, 'r) node" where
  "upd_store f n \<equiv> n\<lparr>nst := f (nst n)\<rparr>"

section \<open>Disallowed pragmas\<close>

definition pragma_Check :: "Request option \<Rightarrow> (store_err, unit) result" where
  "pragma_Check p = (case p of
     None \<Rightarrow> Inr ()
   | Some rq \<Rightarrow> if \<exists>stmt \<in> set (Statements rq). IsBreakingPragma (Sql stmt)
       then Inl (StoreErr ''disallowed pragma'') else Inr ())"

section \<open>Stale reads\<close>

definition IsStaleRead :: "time \<Rightarrow> time \<Rightarrow> time \<Rightarrow> time \<Rightarrow> nat \<Rightarrow> nat \<Rightarrow> int \<Rightarrow> bool \<Rightarrow> bool" where
  "IsStaleRead now leaderlastContact lastFSMUpdateTime lastAppendedAtTime fsmIndex commitIndex freshness strict =
   (if freshness = 0 then False
    else if now - leaderlastContact > freshness then True
    else if \<not> strict then False
    else if lastAppendedAtTime = 0 then False
    else if fsmIndex = commitIndex then False
    else lastFSMUpdateTime - lastAppendedAtTime > freshness)"

section \<open>Checking a configuration\<close>

datatype conf_err =
    EmptyID | EmptyAddress | ProtocolInAddress string | InvalidAddress string
  | DuplicateID string | DuplicateAddress string | NoVoter

fun conf_loop :: "raft_server list \<Rightarrow> string list \<Rightarrow> string list \<Rightarrow> nat \<Rightarrow> (conf_err, nat) result" where
  "conf_loop [] idSet addressSet voters = Inr voters"
| "conf_loop (server # rest) idSet addressSet voters =
   (if rs_ID server = '''' then Inl EmptyID
    else if rs_Address server = '''' then Inl EmptyAddress
    else if contains_sub ''://'' (rs_Address server) then Inl (ProtocolInAddress (rs_Address server))
    else if \<not> is_ok (SplitHostPort (rs_Address server)) then Inl (InvalidAddress (rs_Address server))
    else if rs_ID server \<in> set idSet then Inl (DuplicateID (rs_ID server))
    else if rs_Address server \<in> set addressSet then Inl (DuplicateAddress (rs_Address server))
    else conf_loop rest (rs_ID server # idSet) (rs_Address server # addressSet)
           (if rs_Suffrage server = Voter then voters + 1 else voters))"

definition checkRaftConfiguration :: "raft_server list \<Rightarrow> (conf_err, unit) result" where
  "checkRaftConfiguration servers = (case conf_loop servers [] [] 0 of
     Inl e \<Rightarrow> Inl e
   | Inr voters \<Rightarrow> if voters = 0 then Inl NoVoter else Inr ())"

lemma conf_loop_ok:
  "conf_loop ss ids addrs v = Inr n \<longleftrightarrow>
   (\<forall>s \<in> set ss. rs_ID s \<noteq> '''' \<and> rs_Address s \<noteq> '''' \<and> \<not> contains_sub ''://'' (rs_Address s) \<and>
      is_ok (SplitHostPort (rs_Address s))) \<and>
   distinct (map rs_ID ss) \<and> set (map rs_ID ss) \<inter> set ids = {} \<and>
   distinct (map rs_Address ss) \<and> set (map rs_Address ss) \<inter> set addrs = {} \<and>
   n = v + length (filter (\<lambda>s. rs_Suffrage s = Voter) ss)"
proof (induction ss arbitrary: ids addrs v)
  case (Cons s ss)
  show ?case by (auto simp: Cons.IH)
qed auto

text \<open>A peers file is accepted for recovery exactly when it describes a usable cluster: every
  server has an ID and an address without a protocol prefix that splits into host and port, no two
  share an ID or an address, and at least one is a voter.\<close>

theorem check_raft_configuration_iff:
  "is_ok (checkRaftConfiguration servers) \<longleftrightarrow>
   list_all (\<lambda>s. rs_ID s \<noteq> '''' \<and> rs_Address s \<noteq> '''' \<and> \<not> contains_sub ''://'' (rs_Address s) \<and>
      is_ok (SplitHostPort (rs_Address s))) servers \<and>
   distinct (map rs_ID servers) \<and> distinct (map rs_Address servers) \<and>
   list_ex (\<lambda>s. rs_Suffrage s = Voter) servers"
proof (cases "conf_loop servers [] [] 0")
  case (Inl e)
  with conf_loop_ok [of servers "[]" "[]" 0 "length (filter (\<lambda>s. rs_Suffrage s = Voter) servers)"]
  show ?thesis by (auto simp: checkRaftConfiguration_def list_all_iff)
next
  case (Inr n)
  then have "n = 0 \<longleftrightarrow> \<not> list_ex (\<lambda>s. rs_Suffrage s = Voter) servers"
    by (auto simp: conf_loop_ok list_ex_iff filter_empty_conv)
  with Inr Inr [unfolded conf_loop_ok] show ?thesis
    by (auto simp: checkRaftConfiguration_def list_all_iff)
qed

end
