(* ===== verification/Store_Fsm.thy ===== *)
theory Store_Fsm
  imports Store_Types
begin

text \<open>
  The state machine of the store (\<^verbatim>\<open>store/store.go\<close>, \<^verbatim>\<open>store/fsm.go\<close>): applying a
  log entry, restoring from a snapshot, and the waits that callers do on its progress. The two
  results about it are that its index bookkeeping is consistent, and that replicas which apply
  the same entries hold the same database.
\<close>

section \<open>Applying log entries\<close>

text \<open>The deferred part of \<^verbatim>\<open>fsmApply\<close>, run also when the command panics.\<close>

definition fsm_deferred :: "applied \<Rightarrow> 'db store \<Rightarrow> 'db store" where
  "fsm_deferred a s = (let l = ap_log a in
     s\<lparr>s_fsmIdx := l_Index l, s_fsmTarget := Signal (l_Index l) (s_fsmTarget s), s_fsmTerm := l_Term l,
       s_fsmUpdateTime := ap_now a, s_appendedAtTime := l_AppendedAt l\<rparr>)"

definition fsmApply ::
  "codecs \<Rightarrow> 'db db_lib \<Rightarrow> applied \<Rightarrow> 'db store \<Rightarrow> (string, fsm_response) result \<times> 'db store" where
  "fsmApply C L a s =
   (let l = ap_log a;
        s = (if s_firstLogAppliedT s = 0 then s\<lparr>s_firstLogAppliedT := ap_now a\<rparr> else s);
        s = (case s_cdcStreamer s of None \<Rightarrow> s
             | Some c \<Rightarrow> s\<lparr>s_cdcStreamer := Some (cdc_Reset (l_Index l) c)\<rparr>) in
    case Process C L (ap_env a) (l_Data l) \<lparr>ps_dm = s_dm s, ps_db = s_db s\<rparr> of
      (Inl e, ps) \<Rightarrow> (Inl e, fsm_deferred a (s\<lparr>s_dm := ps_dm ps, s_db := ps_db ps\<rparr>))
    | (Inr (cmd, mutated, r), ps) \<Rightarrow>
       let s = s\<lparr>s_dm := ps_dm ps, s_db := ps_db ps\<rparr>;
           s = (if mutated then s\<lparr>s_dbAppliedIdx := l_Index l,
                  s_appliedTarget := Signal (l_Index l) (s_appliedTarget s)\<rparr> else s) in
       if cmd_Type cmd = TYPE_NOOP then (Inr r, fsm_deferred a (s\<lparr>s_numNoops := s_numNoops s + 1\<rparr>))
       else if cmd_Type cmd = TYPE_LOAD then
         (case ap_setfull a of
            Some e \<Rightarrow> (Inl (''failed to set full snapshot needed: '' @ e), s)
          | None \<Rightarrow> (Inr r, fsm_deferred a (s\<lparr>s_fullNeeded := True\<rparr>)))
       else (Inr r, fsm_deferred a s))"

text \<open>The entries the state machine applies in a while, in order; the last response is kept, and a
  panic ends the node.\<close>

fun apply_logs ::
  "codecs \<Rightarrow> 'db db_lib \<Rightarrow> applied list \<Rightarrow> 'db store \<Rightarrow> (string, fsm_response option) result \<times> 'db store" where
  "apply_logs C L [] s = (Inr None, s)"
| "apply_logs C L (a # as) s = (case fsmApply C L a s of
     (Inl e, s') \<Rightarrow> (Inl e, s')
   | (Inr r, s') \<Rightarrow> (case apply_logs C L as s' of
        (Inl e, s'') \<Rightarrow> (Inl e, s'')
      | (Inr None, s'') \<Rightarrow> (Inr (Some r), s'')
      | (Inr (Some r'), s'') \<Rightarrow> (Inr (Some r'), s'')))"

section \<open>Restoring\<close>

record restore_env =
  re_tmp :: tmp_file
  re_copy :: "string option"
  re_swap :: swap_env
  re_latest :: "(string, nat \<times> nat) result"

definition fsmRestore ::
  "'db db_lib \<Rightarrow> restore_env \<Rightarrow> bytes \<Rightarrow> 'db store \<Rightarrow> (store_err, unit) result \<times> 'db store" where
  "fsmRestore L env rc s =
   (let failed = (\<lambda>m s. (Inl (StoreErr m), stat ''num_restores_failed'' s)) in
    case re_tmp env of
      Inl e \<Rightarrow> failed (''error creating temporary file for restore operation: '' @ e) s
    | Inr _ \<Rightarrow> (case re_copy env of
        Some e \<Rightarrow> failed (''error copying restore data: '' @ e) s
      | None \<Rightarrow> (case Swap L (re_swap env) (Some rc) (s_FKConstraints s) True (s_db s) of
          (Some e, db) \<Rightarrow> failed (''error swapping database file: '' @ e) (s\<lparr>s_db := db\<rparr>)
        | (None, db) \<Rightarrow>
           let s = s\<lparr>s_db := db\<rparr> in
           (case re_latest env of
              Inl e \<Rightarrow> failed (''failed to get latest snapshot index post restore: '' @ e) s
            | Inr (li, tm) \<Rightarrow>
               let s = s\<lparr>s_fsmIdx := li, s_fsmTarget := Signal li (s_fsmTarget s), s_fsmTerm := tm,
                         s_dbAppliedIdx := li, s_appliedTarget := Signal li (s_appliedTarget s)\<rparr> in
               (case lib_LastModified L (sdb (s_db s)) of
                  Inl e \<Rightarrow> failed (''failed to get last modified time: '' @ e) s
                | Inr lt \<Rightarrow> (Inr (), stat ''num_restores'' (s\<lparr>s_dbModifiedTime := lt\<rparr>)))))))"

section \<open>Waiting\<close>

text \<open>While a caller waits, the state machine applies entries; a node panic ends the wait.\<close>

definition during ::
  "codecs \<Rightarrow> 'db db_lib \<Rightarrow> applied list \<Rightarrow> 'r \<Rightarrow> ('db, 'r) node \<Rightarrow>
   (store_err, fsm_response option) result \<times> ('db, 'r) node" where
  "during C L as ra n = (case apply_logs C L as (nst n) of
     (Inl e, s) \<Rightarrow> (Inl (NodePanic e), \<lparr>nst = s, nra = ra\<rparr>)
   | (Inr r, s) \<Rightarrow> (Inr r, \<lparr>nst = s, nra = ra\<rparr>))"

text \<open>
  \<^verbatim>\<open>WaitForFSMIndex\<close>: subscribe, then a select between the channel and a timer. When the
  channel is closed by the end of the wait the select may still have taken the timer
  (\<open>timer_first\<close>).
\<close>

definition WaitForFSMIndex ::
  "codecs \<Rightarrow> 'db db_lib \<Rightarrow> 'r raft_ops \<Rightarrow> bool \<Rightarrow> nat \<Rightarrow> ('db, 'r) node \<Rightarrow>
   (store_err, nat) result \<times> ('db, 'r) node" where
  "WaitForFSMIndex C L R timer_first idx n =
   (case Subscribe idx (s_fsmTarget (nst n)) of (ch, t) \<Rightarrow>
    case r_wait R (nra n) of (as, ra) \<Rightarrow>
    case during C L as ra (upd_store (\<lambda>s. s\<lparr>s_fsmTarget := t\<rparr>) n) of
      (Inl e, n') \<Rightarrow> (Inl e, n')
    | (Inr _, n') \<Rightarrow>
        if ch \<in> set (rt_closed (s_fsmTarget (nst n'))) \<and> \<not> timer_first
        then (Inr (s_fsmIdx (nst n')), n')
        else (Inl ErrWaitForFSMTimeout, n'))"

definition WaitForAppliedFSM ::
  "codecs \<Rightarrow> 'db db_lib \<Rightarrow> 'r raft_ops \<Rightarrow> bool \<Rightarrow> int \<Rightarrow> ('db, 'r) node \<Rightarrow>
   (store_err, nat) result \<times> ('db, 'r) node" where
  "WaitForAppliedFSM C L R timer_first timeout n =
   (if timeout = 0 then (Inr 0, n)
    else WaitForFSMIndex C L R timer_first (r_AppliedIndex R (nra n)) n)"

definition WaitForAppliedIndex ::
  "codecs \<Rightarrow> 'db db_lib \<Rightarrow> 'r raft_ops \<Rightarrow> bool \<Rightarrow> nat \<Rightarrow> ('db, 'r) node \<Rightarrow>
   (store_err, unit) result \<times> ('db, 'r) node" where
  "WaitForAppliedIndex C L R timer_first idx n =
   (case Subscribe idx (s_appliedTarget (nst n)) of (ch, t) \<Rightarrow>
    case r_wait R (nra n) of (as, ra) \<Rightarrow>
    case during C L as ra (upd_store (\<lambda>s. s\<lparr>s_appliedTarget := t\<rparr>) n) of
      (Inl e, n') \<Rightarrow> (Inl e, n')
    | (Inr _, n') \<Rightarrow>
        if ch \<in> set (rt_closed (s_appliedTarget (nst n'))) \<and> \<not> timer_first then (Inr (), n')
        else (Inl (StoreErr ''timeout waiting for index to be applied''), n'))"

definition WaitForAllApplied ::
  "codecs \<Rightarrow> 'db db_lib \<Rightarrow> 'r raft_ops \<Rightarrow> bool \<Rightarrow> int \<Rightarrow> ('db, 'r) node \<Rightarrow>
   (store_err, unit) result \<times> ('db, 'r) node" where
  "WaitForAllApplied C L R timer_first timeout n =
   (if timeout = 0 then (Inr (), n)
    else WaitForAppliedIndex C L R timer_first (r_LastIndex R (nra n)) n)"

definition DBAppliedIndex :: "'db store \<Rightarrow> nat" where
  "DBAppliedIndex s = s_dbAppliedIdx s"

section \<open>Index bookkeeping\<close>

text \<open>The targets stand where the indexes stand, and the last change is not ahead of the last entry.\<close>

definition idx_inv :: "'db store \<Rightarrow> bool" where
  "idx_inv s \<longleftrightarrow> rt_inv (s_fsmTarget s) \<and> rt_inv (s_appliedTarget s) \<and>
     currentTarget (s_fsmTarget s) = s_fsmIdx s \<and> currentTarget (s_appliedTarget s) = s_dbAppliedIdx s \<and>
     s_dbAppliedIdx s \<le> s_fsmIdx s"

lemma currentTarget_Signal [simp]: "currentTarget (Signal i r) = max (currentTarget r) i"
  by (auto simp: Signal_def signal_loop_eq)

lemma idx_inv_deferred:
  assumes "rt_inv (s_fsmTarget s)" and "rt_inv (s_appliedTarget s)"
    and "currentTarget (s_fsmTarget s) \<le> l_Index (ap_log a)"
    and "currentTarget (s_appliedTarget s) = s_dbAppliedIdx s" and "s_dbAppliedIdx s \<le> l_Index (ap_log a)"
  shows "idx_inv (fsm_deferred a s)"
  using assms by (simp add: idx_inv_def fsm_deferred_def Let_def rt_inv_Signal max_def)

lemma fsmApply_ok_cases:
  assumes "fsmApply C L a s = (Inr r, s')"
  obtains cmd mutated ps where
    "Process C L (ap_env a) (l_Data (ap_log a)) \<lparr>ps_dm = s_dm s, ps_db = s_db s\<rparr> = (Inr (cmd, mutated, r), ps)"
    and "s_db s' = ps_db ps" and "s_dm s' = ps_dm ps"
    and "s_fsmIdx s' = l_Index (ap_log a)"
    and "s_fsmTarget s' = Signal (l_Index (ap_log a)) (s_fsmTarget s)"
    and "s_dbAppliedIdx s' = (if mutated then l_Index (ap_log a) else s_dbAppliedIdx s)"
    and "s_appliedTarget s' = (if mutated then Signal (l_Index (ap_log a)) (s_appliedTarget s) else s_appliedTarget s)"
proof -
  obtain res ps where p: "Process C L (ap_env a) (l_Data (ap_log a)) \<lparr>ps_dm = s_dm s, ps_db = s_db s\<rparr> = (res, ps)"
    by fastforce
  have cdc: "s_dm (case x of None \<Rightarrow> t | Some c \<Rightarrow> t\<lparr>s_cdcStreamer := f c\<rparr>) = s_dm t"
    "s_db (case x of None \<Rightarrow> t | Some c \<Rightarrow> t\<lparr>s_cdcStreamer := f c\<rparr>) = s_db t"
    for x f and t :: "'a store" by (auto split: option.splits)
  from assms obtain cmd m where "res = Inr (cmd, m, r)"
    by (auto simp: fsmApply_def Let_def p cdc split: sum.splits if_splits option.splits prod.splits)
  with assms p show thesis
    by (intro that [of cmd m ps])
      (auto simp: fsmApply_def Let_def cdc fsm_deferred_def split: if_splits option.splits)
qed

lemma idx_inv_fsmApply:
  assumes "fsmApply C L a s = (Inr r, s')" and "idx_inv s" and "s_fsmIdx s \<le> l_Index (ap_log a)"
  shows "idx_inv s'"
  using assms(2,3) by (cases rule: fsmApply_ok_cases [OF assms(1)])
    (auto simp: idx_inv_def rt_inv_Signal max_def)

text \<open>Entries in log order: increasing indexes, above what was applied.\<close>

fun log_order :: "nat \<Rightarrow> applied list \<Rightarrow> bool" where
  "log_order i [] = True"
| "log_order i (a # as) = (i < l_Index (ap_log a) \<and> log_order (l_Index (ap_log a)) as)"

lemma apply_logs_inv:
  assumes "apply_logs C L as s = (Inr r, s')" and "idx_inv s" and "log_order (s_fsmIdx s) as"
  shows "idx_inv s' \<and> s_fsmIdx s' = (if as = [] then s_fsmIdx s else l_Index (ap_log (last as)))"
  using assms
proof (induction as arbitrary: s r)
  case (Cons a as)
  from Cons.prems(1) obtain r1 s1 r2 where a: "fsmApply C L a s = (Inr r1, s1)"
    and rest: "apply_logs C L as s1 = (Inr r2, s')"
    by (auto split: prod.splits sum.splits option.splits)
  have i1: "s_fsmIdx s1 = l_Index (ap_log a)" using a by (cases rule: fsmApply_ok_cases) auto
  have "idx_inv s1" using idx_inv_fsmApply [OF a] Cons.prems by simp
  from Cons.IH [OF rest this] Cons.prems(3) i1 show ?case by (auto split: if_splits)
qed auto

lemma apply_logs_fsmTarget:
  "apply_logs C L as s = (Inr r, s') \<Longrightarrow>
   s_fsmTarget s' = fold rt_apply (map (\<lambda>a. OpSignal (l_Index (ap_log a))) as) (s_fsmTarget s)"
proof (induction as arbitrary: s r)
  case (Cons a as)
  from Cons.prems obtain r1 s1 r2 where a: "fsmApply C L a s = (Inr r1, s1)"
    and rest: "apply_logs C L as s1 = (Inr r2, s')"
    by (auto split: prod.splits sum.splits option.splits)
  have "s_fsmTarget s1 = Signal (l_Index (ap_log a)) (s_fsmTarget s)"
    using a by (cases rule: fsmApply_ok_cases) auto
  then show ?case using Cons.IH [OF rest] by simp
qed simp

lemma idx_inv_Subscribe:
  assumes "Subscribe i (s_fsmTarget s) = (ch, t)" and "idx_inv s"
  shows "idx_inv (s\<lparr>s_fsmTarget := t\<rparr>)"
proof -
  have "rt_inv t" using rt_inv_Subscribe [of "s_fsmTarget s" i] assms by (simp add: idx_inv_def)
  moreover have "currentTarget t = currentTarget (s_fsmTarget s)"
    using assms(1) by (auto simp: Subscribe_def Let_def split: if_splits)
  ultimately show ?thesis using assms(2) by (simp add: idx_inv_def)
qed

lemma WaitForFSMIndex_cases:
  assumes "idx_inv (nst n)" and "r_wait R (nra n) = (as, ra)" and "log_order (s_fsmIdx (nst n)) as"
    and "WaitForFSMIndex C L R timer_first idx n = (res, n')"
  shows "case res of
      Inr i \<Rightarrow> idx \<le> i \<and> i = s_fsmIdx (nst n') \<and> idx_inv (nst n') \<and> nra n' = ra
    | Inl e \<Rightarrow> (e = ErrWaitForFSMTimeout \<and> (timer_first \<or> s_fsmIdx (nst n') < idx)) \<or> (\<exists>m. e = NodePanic m)"
proof -
  obtain ch t where sub: "Subscribe idx (s_fsmTarget (nst n)) = (ch, t)" by fastforce
  let ?s = "(nst n)\<lparr>s_fsmTarget := t\<rparr>"
  obtain r s where ap: "apply_logs C L as ?s = (r, s)" by fastforce
  show ?thesis
  proof (cases r)
    case (Inl e)
    then show ?thesis using assms(2,4) sub ap by (auto simp: WaitForFSMIndex_def during_def)
  next
    case (Inr x)
    have inv: "idx_inv s" "s_fsmTarget s = fold rt_apply (map (\<lambda>a. OpSignal (l_Index (ap_log a))) as) t"
      using apply_logs_inv [OF ap [unfolded Inr] idx_inv_Subscribe [OF sub assms(1)]] assms(3)
        apply_logs_fsmTarget [OF ap [unfolded Inr]] by auto
    have "rt_inv t" using idx_inv_Subscribe [OF sub assms(1)] by (simp add: idx_inv_def)
    from rt_fold [OF this stands_for_Subscribe [OF sub],
        of "map (\<lambda>a. OpSignal (l_Index (ap_log a))) as"] inv(2)
    have st: "stands_for ch idx (s_fsmTarget s)" and rt: "rt_inv (s_fsmTarget s)" by auto
    then have ch: "ch \<in> set (rt_closed (s_fsmTarget s)) \<longleftrightarrow> idx \<le> s_fsmIdx s"
      using inv(1) by (auto simp: stands_for_def idx_inv_def rt_inv_def split: if_splits)
    show ?thesis using assms(2,4) sub ap Inr ch inv(1)
      by (auto simp: WaitForFSMIndex_def during_def split: if_splits)
  qed
qed

text \<open>C34: Waiting for an index waits for the state machine. For a store whose bookkeeping is
  consistent and entries that arrive in log order, \<^verbatim>\<open>WaitForFSMIndex\<close> returns successfully
  only with the state machine at or past the index, and returns the index the state machine has
  then; it times out only when the timer was taken or the state machine had not got there; and the
  bookkeeping stays consistent.\<close>

theorem wait_for_fsm_index:
  assumes "idx_inv (nst n)" and "r_wait R (nra n) = (as, ra)" and "log_order (s_fsmIdx (nst n)) as"
  shows "case WaitForFSMIndex C L R timer_first idx n of (res, n') \<Rightarrow>
    (case res of
       Inr i \<Rightarrow> idx \<le> i \<and> i = s_fsmIdx (nst n') \<and> idx_inv (nst n')
     | Inl e \<Rightarrow> (e = ErrWaitForFSMTimeout \<and> (timer_first \<or> s_fsmIdx (nst n') < idx)) \<or> (\<exists>m. e = NodePanic m))"
  using WaitForFSMIndex_cases [OF assms]
  by (cases "WaitForFSMIndex C L R timer_first idx n") (fastforce split: sum.splits)

text \<open>A fresh store over a given database, and a Raft library for one node, for evaluation: its
  state is the term, whether it leads, and the entries still to arrive.\<close>

definition new_store :: "string \<Rightarrow> 'db \<Rightarrow> 'db store" where
  "new_store i d = \<lparr>s_open = True, s_raftID = i, s_restorePath = '''', s_restoreDone = False,
     s_db = \<lparr>sdb = d, sdb_closed = False\<rparr>, s_dm = \<lparr>dm_dir = ''/tmp'', dm_m = []\<rparr>, s_cdcStreamer = None,
     s_readyChans = NewReadyChannels, s_snapshotCAS = NewCheckAndSet, s_fsmIdx = 0,
     s_fsmTarget = NewReadyTarget, s_fsmTerm = 0, s_fsmUpdateTime = 0, s_appendedAtTime = 0,
     s_strongReadTerm = 0, s_dbModifiedTime = 0, s_dbAppliedIdx = 0, s_appliedTarget = NewReadyTarget,
     s_reqMarshaller = NewRequestMarshaler, s_bolt = (\<lambda>_. None), s_fullNeeded = False,
     s_firstLogAppliedT = 0, s_BootstrapExpect = 0, s_bootstrapped = False, s_notifyingNodes = [],
     s_AutoVacInterval = 0, s_AutoOptimizeInterval = 0, s_ReapTimeout = 0, s_ReapReadOnlyTimeout = 0,
     s_FKConstraints = False, s_numLRUpgraded = 0, s_numFullSnapshots = 0, s_numAutoVacuums = 0,
     s_numAutoOptimizes = 0, s_numIgnoredJoins = 0, s_numNoops = 0, s_numSnapshots = 0,
     s_pstats = (\<lambda>_. 0), s_stats = (\<lambda>_. 0)\<rparr>"

lemma idx_inv_new_store: "idx_inv (new_store i d)"
  by (simp add: idx_inv_def new_store_def rt_inv_new) (simp add: NewReadyTarget_def)

record sraft =
  sr_state :: RaftState
  sr_term :: nat
  sr_last :: nat
  sr_arriving :: "applied list"
  sr_conf :: "raft_server list"

definition sample_entry :: "nat \<Rightarrow> nat \<Rightarrow> bytes \<Rightarrow> applied" where
  "sample_entry i t data = \<lparr>ap_log = \<lparr>l_Index = i, l_Term = t, l_Data = data, l_AppendedAt = 1\<rparr>,
     ap_now = 2, ap_env = good_env, ap_setfull = None\<rparr>"

definition sr_add :: "raft_server \<Rightarrow> sraft \<Rightarrow> raft_err option \<times> sraft" where
  "sr_add v r =
   (if sr_state r \<noteq> RLeader then (Some RErrNotLeader, r)
    else
      let conf = (if \<exists>x \<in> set (sr_conf r). rs_ID x = rs_ID v
                  then map (\<lambda>x. if rs_ID x = rs_ID v then v else x) (sr_conf r)
                  else sr_conf r @ [v]) in
      if distinct (map rs_Address conf) then (None, r\<lparr>sr_conf := conf\<rparr>)
      else (Some (RErr ''found duplicate address in configuration''), r))"

definition sample_raft :: "sraft raft_ops" where
  "sample_raft = \<lparr>r_State = sr_state,
     r_LeaderWithID = (\<lambda>r. if sr_state r = RLeader then (''n1:4002'', ''n1'') else ('''', '''')),
     r_CurrentTerm = sr_term, r_CommitIndex = sr_last, r_AppliedIndex = sr_last, r_LastIndex = sr_last,
     r_LeaderCommitIndex = sr_last, r_CommandCommitIndex = sr_last, r_LastContact = (\<lambda>_. 0),
     r_GetConfiguration = (\<lambda>r. Inr (sr_conf r)),
     r_Apply = (\<lambda>data r. if sr_state r \<noteq> RLeader then (Inl RErrNotLeader, [], r)
        else (Inr (sr_last r + 1), sr_arriving r @ [sample_entry (sr_last r + 1) (sr_term r) data],
              r\<lparr>sr_last := sr_last r + 1, sr_arriving := []\<rparr>)),
     r_VerifyLeader = (\<lambda>r. (if sr_state r = RLeader then None else Some RErrNotLeader, [], r)),
     r_wait = (\<lambda>r. (sr_arriving r, r\<lparr>sr_arriving := []\<rparr>)),
     r_AddVoter = (\<lambda>i a. sr_add \<lparr>rs_ID = i, rs_Address = a, rs_Suffrage = Voter\<rparr>),
     r_AddNonvoter = (\<lambda>i a. sr_add \<lparr>rs_ID = i, rs_Address = a, rs_Suffrage = Nonvoter\<rparr>),
     r_RemoveServer = (\<lambda>i r. if sr_state r \<noteq> RLeader then (Some RErrNotLeader, r)
        else (None, r\<lparr>sr_conf := filter (\<lambda>x. rs_ID x \<noteq> i) (sr_conf r)\<rparr>)),
     r_BootstrapCluster = (\<lambda>ss r. (None, r\<lparr>sr_conf := ss\<rparr>)),
     r_LeadershipTransfer = (\<lambda>r. (None, r\<lparr>sr_state := RFollower\<rparr>))\<rparr>"

definition sample_raft_state :: "RaftState \<Rightarrow> nat \<Rightarrow> applied list \<Rightarrow> sraft" where
  "sample_raft_state st i as = \<lparr>sr_state = st, sr_term = 1, sr_last = i, sr_arriving = as,
     sr_conf = [\<lparr>rs_ID = ''n1'', rs_Address = ''n1:4002'', rs_Suffrage = Voter\<rparr>]\<rparr>"

definition noop_codecs :: codecs where
  "noop_codecs = sample_codecs \<lparr>cmd_Type = TYPE_NOOP, SubCommand = [7], Compressed = False\<rparr>
     (sample_query LEVEL_NONE) (sample_execute ''x'')"

theorem wait_for_fsm_index_witness:
  "idx_inv (new_store ''n1'' ([] :: string list)) \<and>
   (\<exists>i n'. WaitForFSMIndex noop_codecs sample_lib sample_raft False 2
      \<lparr>nst = new_store ''n1'' [], nra = sample_raft_state RLeader 2 [sample_entry 1 1 [1], sample_entry 2 1 [1]]\<rparr>
      = (Inr i, n') \<and> 2 \<le> i)"
proof -
  let ?n = "\<lparr>nst = new_store ''n1'' ([] :: string list),
    nra = sample_raft_state RLeader 2 [sample_entry 1 1 [1], sample_entry 2 1 [1]]\<rparr>"
  obtain i n' where w: "WaitForFSMIndex noop_codecs sample_lib sample_raft False 2 ?n = (Inr i, n')"
    by (simp add: WaitForFSMIndex_def during_def sample_raft_def sample_raft_state_def new_store_def
        sample_entry_def fsmApply_def fsm_deferred_def Process_def cmd_Unmarshal_def noop_codecs_def
        sample_codecs_def sample_pb_def Subscribe_def Signal_def NewReadyTarget_def Let_def)
  have wt: "r_wait sample_raft (nra ?n) = ([sample_entry 1 1 [1], sample_entry 2 1 [1]],
      (nra ?n)\<lparr>sr_arriving := []\<rparr>)"
    by (simp add: sample_raft_def sample_raft_state_def)
  have lo: "log_order (s_fsmIdx (nst ?n)) [sample_entry 1 1 [1], sample_entry 2 1 [1]]"
    by (simp add: new_store_def sample_entry_def)
  show ?thesis
    using wait_for_fsm_index [OF _ wt lo, where C = noop_codecs and L = sample_lib and
        timer_first = False and idx = 2] w
    by (simp add: idx_inv_new_store)
qed

section \<open>Replicas agree\<close>

text \<open>
  What replicas have in common: the database and the partial loads. Names of temporary files and
  the directory are local to a node and erased.
\<close>

definition erase_dc :: "dechunker \<Rightarrow> dechunker" where
  "erase_dc d = d\<lparr>dc_filePath := ''''\<rparr>"

definition erase_dm :: "dechunker_manager \<Rightarrow> dechunker_manager" where
  "erase_dm dm = \<lparr>dm_dir = '''', dm_m = map (\<lambda>(i, d). (i, erase_dc d)) (dm_m dm)\<rparr>"

definition erase_ps :: "'db proc_state \<Rightarrow> 'db proc_state" where
  "erase_ps s = s\<lparr>ps_dm := erase_dm (ps_dm s)\<rparr>"

text \<open>A node on which no file operation fails.\<close>

definition fine_env :: "proc_env \<Rightarrow> bool" where
  "fine_env e \<longleftrightarrow> is_ok (pe_tmp e) \<and> pe_write e = None \<and> is_ok (pe_dechunk_tmp e) \<and>
     pe_swap e = \<lparr>sw_remove = None, sw_rename = None\<rparr>"

definition erased_env :: proc_env where
  "erased_env = good_env\<lparr>pe_dechunk_tmp := Inr ''''\<rparr>"

lemma WriteChunk_erase:
  "WriteChunk g ch (erase_dc d) = (fst (WriteChunk g ch d), erase_dc (snd (WriteChunk g ch d)))"
  by (auto simp: WriteChunk_def erase_dc_def copy_to_file_def Let_def
      split: option.splits sum.splits prod.splits)

lemma dc_Close_erase:
  "is_ok (fst (dc_Close (erase_dc d))) = is_ok (fst (dc_Close d))"
  "snd (dc_Close (erase_dc d)) = erase_dc (snd (dc_Close d))"
  by (simp_all add: dc_Close_def erase_dc_def)

lemma dm_erase [simp]:
  "map_of (dm_m (erase_dm dm)) i = map_option erase_dc (map_of (dm_m dm) i)"
  "erase_dm (dm_put i d dm) = dm_put i (erase_dc d) (erase_dm dm)"
  "erase_dm (dm_Delete i dm) = dm_Delete i (erase_dm dm)"
proof -
  have u: "map (\<lambda>(i, d). (i, erase_dc d)) (AList.update i d al) =
      AList.update i (erase_dc d) (map (\<lambda>(i, d). (i, erase_dc d)) al)" for al
    by (induction al) auto
  show "map_of (dm_m (erase_dm dm)) i = map_option erase_dc (map_of (dm_m dm) i)"
    by (simp add: erase_dm_def map_of_map)
  show "erase_dm (dm_put i d dm) = dm_put i (erase_dc d) (erase_dm dm)"
    by (simp add: erase_dm_def dm_put_def u)
  show "erase_dm (dm_Delete i dm) = dm_Delete i (erase_dm dm)"
    by (simp add: erase_dm_def dm_Delete_def AList.delete_eq filter_map o_def split_def)
qed

lemma dm_Get_erase:
  assumes "is_ok tmp"
  shows "\<exists>d dm'. dm_Get tmp i dm = (Inr d, dm') \<and>
    dm_Get (Inr '''') i (erase_dm dm) = (Inr (erase_dc d), erase_dm dm')"
proof (cases "map_of (dm_m dm) i")
  case None
  obtain name where "tmp = Inr name" using assms by auto
  with None show ?thesis
    using dm_erase(2) [of i _ dm]
    by (auto simp: dm_Get_def NewDechunker_def erase_dc_def dm_put_def)
next
  case (Some d)
  then show ?thesis by (simp add: dm_Get_def)
qed

lemma process_load_erase:
  assumes "fine_env env"
  shows "fst (process_load C L erased_env cmd (erase_ps s)) = fst (process_load C L env cmd s) \<and>
    snd (process_load C L erased_env cmd (erase_ps s)) = erase_ps (snd (process_load C L env cmd s))"
  using assms
  by (auto simp: process_load_def erase_ps_def fine_env_def erased_env_def good_env_def
      split: sum.splits option.splits prod.splits)

lemma process_chunk_erase:
  assumes "fine_env env"
  shows "fst (process_chunk C L erased_env cmd (erase_ps s)) = fst (process_chunk C L env cmd s) \<and>
    snd (process_chunk C L erased_env cmd (erase_ps s)) = erase_ps (snd (process_chunk C L env cmd s))"
proof (cases "UnmarshalLoadChunkRequest (pb_LoadChunk C) (SubCommand cmd)")
  case (Inl e)
  then show ?thesis by (simp add: process_chunk_def)
next
  case (Inr lcr)
  obtain d dm' where get: "dm_Get (pe_dechunk_tmp env) (StreamId lcr) (ps_dm s) = (Inr d, dm')"
    "dm_Get (Inr '''') (StreamId lcr) (erase_dm (ps_dm s)) = (Inr (erase_dc d), erase_dm dm')"
    using dm_Get_erase assms by (metis fine_env_def)
  have sw: "pe_swap erased_env = pe_swap env" "pe_dechunk_tmp erased_env = Inr ''''"
    using assms by (simp_all add: fine_env_def erased_env_def good_env_def)
  obtain res d1 where w: "WriteChunk (gzip C) lcr d = (res, d1)" by fastforce
  then have w': "WriteChunk (gzip C) lcr (erase_dc d) = (res, erase_dc d1)"
    by (simp add: WriteChunk_erase)
  have sel: "dc_data (erase_dc x) = dc_data x" "dc_open (erase_dc x) = dc_open x"
    "erase_dc (x\<lparr>dc_open := b\<rparr>) = (erase_dc x)\<lparr>dc_open := b\<rparr>" for x b
    by (simp_all add: erase_dc_def)
  note defs = process_chunk_def Inr sw erase_ps_def get w w' dc_Close_def sel Let_def
  show ?thesis
  proof (cases "lcr_Abort lcr")
    case True
    then show ?thesis by (simp add: defs)
  next
    case False
    show ?thesis
    proof (cases res)
      case (Inl e)
      then show ?thesis using False by (simp add: defs)
    next
      case (Inr b)
      show ?thesis
        using False Inr by (cases b; cases "IsValidSQLiteFile (Some (dc_data d1))")
          (simp_all add: defs \<open>UnmarshalLoadChunkRequest _ _ = _\<close> split: option.splits prod.splits)
    qed
  qed
qed

lemma Process_erase:
  assumes "fine_env env"
  shows "fst (Process C L erased_env data (erase_ps s)) = fst (Process C L env data s) \<and>
    snd (Process C L erased_env data (erase_ps s)) = erase_ps (snd (Process C L env data s))"
proof (cases "cmd_Unmarshal (pb_Command C) data")
  case (Inr cmd)
  note l = process_load_erase [OF assms, of C L cmd s, unfolded erase_ps_def]
    process_chunk_erase [OF assms, of C L cmd s, unfolded erase_ps_def]
  show ?thesis
    by (cases "cmd_Type cmd")
      (auto simp: Process_def Inr l erase_ps_def [of "_ :: 'a proc_state"] split: sum.splits prod.splits)
qed (simp add: Process_def)

definition agree :: "'db store \<Rightarrow> 'db store \<Rightarrow> bool" where
  "agree s t \<longleftrightarrow> s_db s = s_db t \<and> erase_dm (s_dm s) = erase_dm (s_dm t) \<and> s_fsmIdx s = s_fsmIdx t \<and>
     s_fsmTerm s = s_fsmTerm t \<and> s_dbAppliedIdx s = s_dbAppliedIdx t \<and> s_appendedAtTime s = s_appendedAtTime t"

text \<open>The same entry met by two nodes, with their own clocks and files.\<close>

definition same_entry :: "applied \<Rightarrow> applied \<Rightarrow> bool" where
  "same_entry a b \<longleftrightarrow> ap_log a = ap_log b \<and> fine_env (ap_env a) \<and> fine_env (ap_env b) \<and>
     ap_setfull a = None \<and> ap_setfull b = None"

text \<open>What \<^verbatim>\<open>fsmApply\<close> does to the shared part, in terms of \<^verbatim>\<open>Process\<close>.\<close>

lemma fsmApply_shared:
  assumes "Process C L (ap_env a) (l_Data (ap_log a)) \<lparr>ps_dm = s_dm s, ps_db = s_db s\<rparr> = (res, ps)"
    and "ap_setfull a = None" and "fsmApply C L a s = (r, s')"
  shows "r = map_sum id (snd \<circ> snd) res" and "s_db s' = ps_db ps" and "s_dm s' = ps_dm ps"
    and "s_fsmIdx s' = l_Index (ap_log a)" and "s_fsmTerm s' = l_Term (ap_log a)"
    and "s_appendedAtTime s' = l_AppendedAt (ap_log a)"
    and "s_dbAppliedIdx s' = (case res of Inr (_, True, _) \<Rightarrow> l_Index (ap_log a) | _ \<Rightarrow> s_dbAppliedIdx s)"
proof -
  have cdc: "s_dm (case x of None \<Rightarrow> t | Some c \<Rightarrow> t\<lparr>s_cdcStreamer := f c\<rparr>) = s_dm t"
    "s_db (case x of None \<Rightarrow> t | Some c \<Rightarrow> t\<lparr>s_cdcStreamer := f c\<rparr>) = s_db t"
    "s_dbAppliedIdx (case x of None \<Rightarrow> t | Some c \<Rightarrow> t\<lparr>s_cdcStreamer := f c\<rparr>) = s_dbAppliedIdx t"
    for x f and t :: "'a store" by (auto split: option.splits)
  note d = fsmApply_def Let_def cdc fsm_deferred_def assms(1,2)
  show "r = map_sum id (snd \<circ> snd) res" and "s_db s' = ps_db ps" and "s_dm s' = ps_dm ps"
    and "s_fsmIdx s' = l_Index (ap_log a)" and "s_fsmTerm s' = l_Term (ap_log a)"
    and "s_appendedAtTime s' = l_AppendedAt (ap_log a)"
    and "s_dbAppliedIdx s' = (case res of Inr (_, True, _) \<Rightarrow> l_Index (ap_log a) | _ \<Rightarrow> s_dbAppliedIdx s)"
    using assms(3) by (cases res; auto simp: d split: if_splits)+
qed

lemma fsmApply_agree:
  assumes "agree s t" and "same_entry a b"
    and "fsmApply C L a s = (r, s')" and "fsmApply C L b t = (q, t')"
  shows "r = q \<and> agree s' t'"
proof -
  let ?P = "\<lambda>e s. Process C L e (l_Data (ap_log a)) \<lparr>ps_dm = s_dm s, ps_db = s_db s\<rparr>"
  obtain res ps where s: "?P (ap_env a) s = (res, ps)" by fastforce
  obtain res' ps' where t: "?P (ap_env b) t = (res', ps')" by fastforce
  have e: "erase_ps \<lparr>ps_dm = s_dm s, ps_db = s_db s\<rparr> = erase_ps \<lparr>ps_dm = s_dm t, ps_db = s_db t\<rparr>"
    using assms(1) by (simp add: agree_def erase_ps_def)
  have f: "fine_env (ap_env a)" "fine_env (ap_env b)" "ap_setfull a = None" "ap_setfull b = None"
    "ap_log b = ap_log a" using assms(2) by (simp_all add: same_entry_def)
  have eq: "res = res'" "erase_ps ps = erase_ps ps'"
    using Process_erase [OF f(1), of C L "l_Data (ap_log a)" "\<lparr>ps_dm = s_dm s, ps_db = s_db s\<rparr>"]
      Process_erase [OF f(2), of C L "l_Data (ap_log a)" "\<lparr>ps_dm = s_dm t, ps_db = s_db t\<rparr>"] s t e
    by simp_all
  from eq(2) have "ps_dm (erase_ps ps) = ps_dm (erase_ps ps')" "ps_db (erase_ps ps) = ps_db (erase_ps ps')"
    by simp_all
  then have "erase_dm (ps_dm ps) = erase_dm (ps_dm ps')" "ps_db ps = ps_db ps'"
    by (simp_all add: erase_ps_def)
  moreover note fsmApply_shared [OF s f(3) assms(3)]
    fsmApply_shared [of C L b t res' ps' q t', unfolded f(5), OF t f(4) assms(4)]
  ultimately show ?thesis
    using eq(1) assms(1) by (cases res') (simp_all add: agree_def split: bool.splits prod.splits)
qed



end
