(* ===== verification/Store_Request.thy ===== *)
theory Store_Request
  imports Store_Fsm
begin

text \<open>
  The requests a store serves (\<^verbatim>\<open>store/store.go\<close>): writes, reads at each consistency level,
  combined requests, loads and backups, and the accessors of the node's standing in the cluster
  they rely on. A Go result \<^verbatim>\<open>(value, index, error)\<close> is \<open>Inl\<close> for the errors the store
  returns with no value, and otherwise the value, the log index and the database's own error.
\<close>

section \<open>Standing in the cluster\<close>

datatype ClusterState = Leader | Follower | Candidate | Shutdown | Unknown

definition st_State :: "'r raft_ops \<Rightarrow> ('db, 'r) node \<Rightarrow> ClusterState" where
  "st_State R n = (if \<not> s_open (nst n) then Unknown else case r_State R (nra n) of
     RLeader \<Rightarrow> Leader | RCandidate \<Rightarrow> Candidate | RFollower \<Rightarrow> Follower | RShutdown \<Rightarrow> Shutdown)"

definition IsLeader :: "'r raft_ops \<Rightarrow> ('db, 'r) node \<Rightarrow> bool" where
  "IsLeader R n = (if \<not> s_open (nst n) then False else r_State R (nra n) = RLeader)"

definition HasLeader :: "'r raft_ops \<Rightarrow> ('db, 'r) node \<Rightarrow> bool" where
  "HasLeader R n = (if \<not> s_open (nst n) then False else fst (r_LeaderWithID R (nra n)) \<noteq> '''')"

definition LeaderWithID :: "'r raft_ops \<Rightarrow> ('db, 'r) node \<Rightarrow> string \<times> string" where
  "LeaderWithID R n = (if \<not> s_open (nst n) then ('''', '''') else r_LeaderWithID R (nra n))"

definition LeaderAddr :: "'r raft_ops \<Rightarrow> ('db, 'r) node \<Rightarrow> (store_err, string) result" where
  "LeaderAddr R n = (if \<not> s_open (nst n) then Inr '''' else Inr (fst (r_LeaderWithID R (nra n))))"

definition LeaderID :: "'r raft_ops \<Rightarrow> ('db, 'r) node \<Rightarrow> (store_err, string) result" where
  "LeaderID R n = (if \<not> s_open (nst n) then Inr '''' else Inr (snd (r_LeaderWithID R (nra n))))"

definition HasLeaderID :: "'r raft_ops \<Rightarrow> ('db, 'r) node \<Rightarrow> bool" where
  "HasLeaderID R n = (if \<not> s_open (nst n) then False else snd (r_LeaderWithID R (nra n)) \<noteq> '''')"

definition st_CommitIndex :: "'r raft_ops \<Rightarrow> ('db, 'r) node \<Rightarrow> (store_err, nat) result" where
  "st_CommitIndex R n = (if \<not> s_open (nst n) then Inl ErrNotOpen else Inr (r_CommitIndex R (nra n)))"

definition LeaderCommitIndex :: "'r raft_ops \<Rightarrow> ('db, 'r) node \<Rightarrow> (store_err, nat) result" where
  "LeaderCommitIndex R n = (if \<not> s_open (nst n) then Inl ErrNotOpen
     else if r_State R (nra n) = RLeader then Inr (r_CommitIndex R (nra n))
     else Inr (r_LeaderCommitIndex R (nra n)))"

fun voter_in :: "string \<Rightarrow> raft_server list \<Rightarrow> bool" where
  "voter_in i [] = False"
| "voter_in i (srv # rest) = (if rs_ID srv = i then rs_Suffrage srv = Voter else voter_in i rest)"

definition IsVoter :: "'r raft_ops \<Rightarrow> ('db, 'r) node \<Rightarrow> (store_err, bool) result" where
  "IsVoter R n = (if \<not> s_open (nst n) then Inl ErrNotOpen
     else case r_GetConfiguration R (nra n) of
       Inl e \<Rightarrow> Inl (RaftErr e)
     | Inr servers \<Rightarrow> Inr (voter_in (s_raftID (nst n)) servers))"

definition st_Ready :: "'r raft_ops \<Rightarrow> ('db, 'r) node \<Rightarrow> bool" where
  "st_Ready R n \<longleftrightarrow> s_open (nst n) \<and> rc_Ready (s_readyChans (nst n)) \<and> HasLeader R n"

definition isStaleRead :: "'r raft_ops \<Rightarrow> time \<Rightarrow> int \<Rightarrow> bool \<Rightarrow> ('db, 'r) node \<Rightarrow> bool" where
  "isStaleRead R now freshness strict n = (if r_State R (nra n) = RLeader then False
     else IsStaleRead now (r_LastContact R (nra n)) (s_fsmUpdateTime (nst n)) (s_appendedAtTime (nst n))
            (s_fsmIdx (nst n)) (r_CommandCommitIndex R (nra n)) freshness strict)"

section \<open>Through the log\<close>

definition tryCompress ::
  "gzip_lib \<Rightarrow> 'm pb_codec \<Rightarrow> ('m \<Rightarrow> Request option) \<Rightarrow> 'm \<Rightarrow> 'db store \<Rightarrow>
   (store_err, bytes \<times> bool) result \<times> 'db store" where
  "tryCompress g pb get rq s = (case rm_Marshal g pb get (s_reqMarshaller s) rq (s_pstats s) of
     (Inl e, ps) \<Rightarrow> (Inl (StoreErr e), s\<lparr>s_pstats := ps\<rparr>)
   | (Inr (b, compressed), ps) \<Rightarrow> (Inr (b, compressed),
       stat (if compressed then ''num_compressed_commands'' else ''num_uncompressed_commands'')
         (s\<lparr>s_pstats := ps\<rparr>)))"

text \<open>
  \<^verbatim>\<open>raft.Apply\<close> as the callers use it: the entries applied on this node by the time the
  future resolves, the error, or the index with the response of the last of them.
\<close>

definition raft_apply ::
  "codecs \<Rightarrow> 'db db_lib \<Rightarrow> 'r raft_ops \<Rightarrow> bytes \<Rightarrow> ('db, 'r) node \<Rightarrow>
   (raft_err + string, nat \<times> fsm_response option) result \<times> ('db, 'r) node" where
  "raft_apply C L R b n = (case r_Apply R b (nra n) of (res, as, ra) \<Rightarrow>
     (case apply_logs C L as (nst n) of
        (Inl p, s) \<Rightarrow> (Inl (Inr p), \<lparr>nst = s, nra = ra\<rparr>)
      | (Inr r, s) \<Rightarrow> (case res of
          Inl e \<Rightarrow> (Inl (Inl e), \<lparr>nst = s, nra = ra\<rparr>)
        | Inr idx \<Rightarrow> (Inr (idx, r), \<lparr>nst = s, nra = ra\<rparr>))))"

type_synonym 'a answer = "(store_err, 'a \<times> nat \<times> string option) result"

text \<open>Marshalling a request into a command and sending it, as \<^verbatim>\<open>execute\<close>, \<^verbatim>\<open>Query\<close>
  and \<^verbatim>\<open>Request\<close> do; \<open>lost\<close> are the Raft errors reported as not being the leader.\<close>

definition send_command ::
  "codecs \<Rightarrow> 'db db_lib \<Rightarrow> 'r raft_ops \<Rightarrow> CommandType \<Rightarrow> 'm pb_codec \<Rightarrow> ('m \<Rightarrow> Request option) \<Rightarrow>
   raft_err list \<Rightarrow> 'm \<Rightarrow> ('db, 'r) node \<Rightarrow>
   (store_err, nat \<times> fsm_response option) result \<times> ('db, 'r) node" where
  "send_command C L R typ pb get lost rq n = (case tryCompress (gzip C) pb get rq (nst n) of
     (Inl e, s) \<Rightarrow> (Inl e, n\<lparr>nst := s\<rparr>)
   | (Inr (b, compressed), s) \<Rightarrow>
      let n = n\<lparr>nst := s\<rparr> in
      (case cmd_Marshal (pb_Command C) \<lparr>cmd_Type = typ, SubCommand = b, Compressed = compressed\<rparr> of
         Inl e \<Rightarrow> (Inl (StoreErr e), n)
       | Inr data \<Rightarrow> (case raft_apply C L R data n of
           (Inl (Inl e), n) \<Rightarrow> (Inl (if e \<in> set lost then ErrNotLeader else RaftErr e), n)
         | (Inl (Inr p), n) \<Rightarrow> (Inl (NodePanic p), n)
         | (Inr x, n) \<Rightarrow> (Inr x, n))))"

section \<open>Writes\<close>

definition st_execute ::
  "codecs \<Rightarrow> 'db db_lib \<Rightarrow> 'r raft_ops \<Rightarrow> ExecuteRequest \<Rightarrow> ('db, 'r) node \<Rightarrow>
   ExecuteQueryResponse list answer \<times> ('db, 'r) node" where
  "st_execute C L R ex n =
   (case send_command C L R TYPE_EXECUTE (pb_Execute C) er_Request [RErrNotLeader] ex n of
      (Inl e, n) \<Rightarrow> (Inl e, n)
    | (Inr (idx, Some (FsmExecuteQuery r err)), n) \<Rightarrow> (Inr (r, idx, err), n)
    | (Inr _, n) \<Rightarrow> (Inl (NodePanic ''interface conversion''), n))"

definition st_Execute ::
  "codecs \<Rightarrow> 'db db_lib \<Rightarrow> 'r raft_ops \<Rightarrow> ExecuteRequest \<Rightarrow> ('db, 'r) node \<Rightarrow>
   ExecuteQueryResponse list answer \<times> ('db, 'r) node" where
  "st_Execute C L R ex n =
   (case pragma_Check (er_Request ex) of
      Inl e \<Rightarrow> (Inl e, n)
    | Inr _ \<Rightarrow>
       if \<not> s_open (nst n) then (Inl ErrNotOpen, n)
       else if r_State R (nra n) \<noteq> RLeader then (Inl ErrNotLeader, n)
       else if \<not> st_Ready R n then (Inl ErrNotReady, n)
       else st_execute C L R ex n)"

section \<open>Reads\<close>

definition VerifyLeader ::
  "codecs \<Rightarrow> 'db db_lib \<Rightarrow> 'r raft_ops \<Rightarrow> ('db, 'r) node \<Rightarrow> (store_err, unit) result \<times> ('db, 'r) node" where
  "VerifyLeader C L R n =
   (if \<not> s_open (nst n) then (Inl ErrNotOpen, n)
    else case r_VerifyLeader R (nra n) of (err, as, ra) \<Rightarrow>
      (case during C L as ra n of
         (Inl e, n) \<Rightarrow> (Inl e, n)
       | (Inr _, n) \<Rightarrow> (case err of
           None \<Rightarrow> (Inr (), upd_store (stat ''num_verify_leader'') n)
         | Some e \<Rightarrow> (Inl (if e = RErrNotLeader \<or> e = RErrLeadershipLost then ErrNotLeader
             else StoreErr ''failed to verify leader''),
             upd_store (stat ''num_verify_leader_failed'') n))))"

record query_env =
  qe_now :: time
  qe_timer_first :: bool

text \<open>The level a request is served at: automatic levels resolved, and the first linearizable read
  of a term made strong.\<close>

definition resolve_level ::
  "'r raft_ops \<Rightarrow> Level \<Rightarrow> ('db, 'r) node \<Rightarrow> (store_err, Level) result \<times> ('db, 'r) node" where
  "resolve_level R lv n =
   (case (if lv = LEVEL_AUTO then
            (case IsVoter R n of Inl e \<Rightarrow> Inl e
             | Inr isVoter \<Rightarrow> Inr (if isVoter then LEVEL_WEAK else LEVEL_NONE))
          else Inr lv) of
      Inl e \<Rightarrow> (Inl e, n)
    | Inr lv \<Rightarrow>
       if lv = LEVEL_LINEARIZABLE \<and> r_CurrentTerm R (nra n) \<noteq> s_strongReadTerm (nst n) then
         (Inr LEVEL_STRONG, upd_store (\<lambda>s. s\<lparr>s_numLRUpgraded := s_numLRUpgraded s + 1\<rparr>) n)
       else (Inr lv, n))"

text \<open>The checks of a linearizable read that is served from the local database.\<close>

definition linearizable_gate ::
  "codecs \<Rightarrow> 'db db_lib \<Rightarrow> 'r raft_ops \<Rightarrow> query_env \<Rightarrow> nat \<Rightarrow> ('db, 'r) node \<Rightarrow>
   (store_err, unit) result \<times> ('db, 'r) node" where
  "linearizable_gate C L R env readTerm n =
   (if r_State R (nra n) \<noteq> RLeader then (Inl ErrNotLeader, n)
    else if \<not> st_Ready R n then (Inl ErrNotReady, n)
    else
      let readIndex = r_CommitIndex R (nra n) in
      (case VerifyLeader C L R n of
         (Inl e, n) \<Rightarrow> (Inl e, n)
       | (Inr _, n) \<Rightarrow>
          if r_CurrentTerm R (nra n) \<noteq> readTerm then (Inl ErrStaleRead, n)
          else (case WaitForFSMIndex C L R (qe_timer_first env) readIndex n of
              (Inl e, n) \<Rightarrow> (Inl e, n)
            | (Inr _, n) \<Rightarrow> (Inr (), n))))"

text \<open>A strong read goes through the log.\<close>

definition strong_query ::
  "codecs \<Rightarrow> 'db db_lib \<Rightarrow> 'r raft_ops \<Rightarrow> nat \<Rightarrow> QueryRequest \<Rightarrow> ('db, 'r) node \<Rightarrow>
   QueryRows list answer \<times> ('db, 'r) node" where
  "strong_query C L R readTerm qr n =
   (if r_State R (nra n) \<noteq> RLeader then (Inl ErrNotLeader, n)
    else if \<not> st_Ready R n then (Inl ErrNotReady, n)
    else case send_command C L R TYPE_QUERY (pb_Query C) qr_Request [RErrNotLeader, RErrLeadershipLost] qr n of
      (Inl e, n) \<Rightarrow> (Inl e, n)
    | (Inr (idx, resp), n) \<Rightarrow>
       let n = upd_store (\<lambda>s. s\<lparr>s_strongReadTerm := readTerm\<rparr>) n in
       (case resp of
          Some (FsmQuery rows err) \<Rightarrow> (Inr (rows, idx, err), n)
        | _ \<Rightarrow> (Inl (NodePanic ''interface conversion''), n)))"

definition local_query ::
  "'db db_lib \<Rightarrow> QueryRequest \<Rightarrow> ('db, 'r) node \<Rightarrow> QueryRows list answer" where
  "local_query L qr n = (case sd_Query L (qr_Request qr) (qr_Timings qr) (s_db (nst n)) of
     (rows, err) \<Rightarrow> Inr (rows, 0, err))"

definition st_Query ::
  "codecs \<Rightarrow> 'db db_lib \<Rightarrow> 'r raft_ops \<Rightarrow> query_env \<Rightarrow> QueryRequest \<Rightarrow> ('db, 'r) node \<Rightarrow>
   QueryRows list answer \<times> ('db, 'r) node" where
  "st_Query C L R env qr n =
   (case pragma_Check (qr_Request qr) of
      Inl e \<Rightarrow> (Inl e, n)
    | Inr _ \<Rightarrow>
       if \<not> s_open (nst n) then (Inl ErrNotOpen, n)
       else
         let readTerm = r_CurrentTerm R (nra n) in
         (case resolve_level R (qr_Level qr) n of
            (Inl e, n) \<Rightarrow> (Inl e, n)
          | (Inr lv, n) \<Rightarrow>
             let qr = qr\<lparr>qr_Level := lv\<rparr> in
             if lv = LEVEL_LINEARIZABLE then
               (case linearizable_gate C L R env readTerm n of
                  (Inl e, n) \<Rightarrow> (Inl e, n)
                | (Inr _, n) \<Rightarrow> (local_query L qr n, n))
             else if lv = LEVEL_STRONG then strong_query C L R readTerm qr n
             else if lv = LEVEL_WEAK \<and> r_State R (nra n) \<noteq> RLeader then (Inl ErrNotLeader, n)
             else if lv = LEVEL_NONE \<and> isStaleRead R (qe_now env) (qr_Freshness qr) (qr_FreshnessStrict qr) n
             then (Inl ErrStaleRead, n)
             else (local_query L qr n, n)))"

section \<open>Combined requests\<close>

fun rorw :: "'db db_lib \<Rightarrow> 'db \<Rightarrow> Statement list \<Rightarrow> nat \<times> nat \<Rightarrow> nat \<times> nat" where
  "rorw L d [] acc = acc"
| "rorw L d (stmt # rest) (nRW, nRO) =
   (if Sql stmt = '''' then rorw L d rest (nRW, nRO)
    else case lib_StmtReadOnly L (Sql stmt) d of
      Inr True \<Rightarrow> rorw L d rest (nRW, nRO + 1)
    | _ \<Rightarrow> rorw L d rest (nRW + 1, nRO))"

definition RORWCount :: "'db db_lib \<Rightarrow> ExecuteQueryRequest \<Rightarrow> 'db store \<Rightarrow> nat \<times> nat" where
  "RORWCount L eqr s = rorw L (sdb (s_db s)) (GetStatements (eqr_Request eqr)) (0, 0)"

definition st_Request ::
  "codecs \<Rightarrow> 'db db_lib \<Rightarrow> 'r raft_ops \<Rightarrow> query_env \<Rightarrow> ExecuteQueryRequest \<Rightarrow> ('db, 'r) node \<Rightarrow>
   ExecuteQueryResponse list answer \<times> ('db, 'r) node" where
  "st_Request C L R env eqr n =
   (case pragma_Check (eqr_Request eqr) of
      Inl e \<Rightarrow> (Inl e, n)
    | Inr _ \<Rightarrow>
       if \<not> s_open (nst n) then (Inl ErrNotOpen, n)
       else if eqr_Request eqr = None then (Inl (NodePanic ''nil pointer dereference''), n)
       else
         let nRW = fst (RORWCount L eqr (nst n)); isLeader = (r_State R (nra n) = RLeader) in
         if nRW = 0 \<and> eqr_Level eqr \<noteq> LEVEL_STRONG then
           (if eqr_Level eqr = LEVEL_NONE \<and>
               isStaleRead R (qe_now env) (eqr_Freshness eqr) (eqr_FreshnessStrict eqr) n
            then (Inl ErrStaleRead, n)
            else if eqr_Level eqr = LEVEL_WEAK \<and> \<not> isLeader then (Inl ErrNotLeader, n)
            else case sd_Query L (eqr_Request eqr) (eqr_Timings eqr) (s_db (nst n)) of
              (rows, err) \<Rightarrow> (Inr (map Resp_Q rows, 0, err), n))
         else if \<not> isLeader then (Inl ErrNotLeader, n)
         else if \<not> st_Ready R n then (Inl ErrNotReady, n)
         else case send_command C L R TYPE_EXECUTE_QUERY (pb_ExecuteQuery C) eqr_Request [RErrNotLeader] eqr n of
           (Inl e, n) \<Rightarrow> (Inl e, n)
         | (Inr (idx, Some (FsmExecuteQuery r err)), n) \<Rightarrow> (Inr (r, idx, err), n)
         | (Inr _, n) \<Rightarrow> (Inl (NodePanic ''interface conversion''), n))"

section \<open>Loads and no-ops\<close>

definition st_load ::
  "codecs \<Rightarrow> 'db db_lib \<Rightarrow> 'r raft_ops \<Rightarrow> LoadRequest \<Rightarrow> ('db, 'r) node \<Rightarrow>
   (store_err, unit) result \<times> ('db, 'r) node" where
  "st_load C L R lr n = (case MarshalLoadRequest (gzip C) (pb_Load C) lr of
     Inl e \<Rightarrow> (Inl (StoreErr e), n)
   | Inr b \<Rightarrow> (case cmd_Marshal (pb_Command C) \<lparr>cmd_Type = TYPE_LOAD, SubCommand = b, Compressed = False\<rparr> of
       Inl e \<Rightarrow> (Inl (StoreErr e), n)
     | Inr data \<Rightarrow> (case raft_apply C L R data n of
         (Inl (Inl e), n) \<Rightarrow> (Inl (if e = RErrNotLeader then ErrNotLeader else RaftErr e), n)
       | (Inl (Inr p), n) \<Rightarrow> (Inl (NodePanic p), n)
       | (Inr _, n) \<Rightarrow> (Inr (), n))))"

definition st_Load ::
  "codecs \<Rightarrow> 'db db_lib \<Rightarrow> 'r raft_ops \<Rightarrow> LoadRequest \<Rightarrow> ('db, 'r) node \<Rightarrow>
   (store_err, unit) result \<times> ('db, 'r) node" where
  "st_Load C L R lr n =
   (if \<not> s_open (nst n) then (Inl ErrNotOpen, n)
    else if \<not> st_Ready R n then (Inl ErrNotReady, n)
    else case st_load C L R lr n of
      (Inl e, n) \<Rightarrow> (Inl e, n)
    | (Inr _, n) \<Rightarrow> (Inr (), upd_store (stat ''num_loads'') n))"

definition st_Noop ::
  "codecs \<Rightarrow> 'db db_lib \<Rightarrow> 'r raft_ops \<Rightarrow> string \<Rightarrow> ('db, 'r) node \<Rightarrow>
   (store_err, nat) result \<times> ('db, 'r) node" where
  "st_Noop C L R i n = (case MarshalNoop (pb_Noop C) \<lparr>noop_Id = i\<rparr> of
     Inl e \<Rightarrow> (Inl (StoreErr e), n)
   | Inr b \<Rightarrow> (case cmd_Marshal (pb_Command C) \<lparr>cmd_Type = TYPE_NOOP, SubCommand = b, Compressed = False\<rparr> of
       Inl e \<Rightarrow> (Inl (StoreErr e), n)
     | Inr data \<Rightarrow> (case raft_apply C L R data n of
         (Inl (Inl e), n) \<Rightarrow> (Inl (RaftErr e), n)
       | (Inl (Inr p), n) \<Rightarrow> (Inl (NodePanic p), n)
       | (Inr (idx, _), n) \<Rightarrow> (Inr idx, n))))"

definition SetRequestCompression :: "int \<Rightarrow> int \<Rightarrow> 'db store \<Rightarrow> 'db store" where
  "SetRequestCompression batch sz s =
     s\<lparr>s_reqMarshaller := (s_reqMarshaller s)\<lparr>BatchThreshold := batch, SizeThreshold := sz\<rparr>\<rparr>"

section \<open>What a command sent through the log does\<close>

text \<open>
  What \<^verbatim>\<open>raft.Apply\<close> promises: when its future resolves without error, the entry carries the
  data, has the returned index, and is the last one the state machine has applied.
\<close>

definition raft_apply_law :: "'r raft_ops \<Rightarrow> bool" where
  "raft_apply_law R \<longleftrightarrow> (\<forall>b r. case r_Apply R b r of
     (Inr idx, as, _) \<Rightarrow> as \<noteq> [] \<and> l_Data (ap_log (last as)) = b \<and> l_Index (ap_log (last as)) = idx
   | (Inl _, _, _) \<Rightarrow> True)"

lemma raft_apply_lawD:
  "raft_apply_law R \<Longrightarrow> r_Apply R b r = (Inr idx, as, r') \<Longrightarrow>
   as \<noteq> [] \<and> l_Data (ap_log (last as)) = b \<and> l_Index (ap_log (last as)) = idx"
  unfolding raft_apply_law_def by (drule spec [of _ b], drule spec [of _ r]) simp

lemma apply_logs_snoc:
  "apply_logs C L (as @ [a]) s = (Inr r, s') \<Longrightarrow>
   \<exists>r0 s0 r1. apply_logs C L as s = (Inr r0, s0) \<and> fsmApply C L a s0 = (Inr r1, s') \<and> r = Some r1"
proof (induction as arbitrary: s r)
  case Nil
  then show ?case by (auto split: prod.splits sum.splits)
next
  case (Cons b as)
  from Cons.prems obtain r2 s2 x where b: "fsmApply C L b s = (Inr r2, s2)"
    and rest: "apply_logs C L (as @ [a]) s2 = (Inr x, s')"
    by (auto split: prod.splits sum.splits option.splits)
  from Cons.IH [OF rest] obtain r0 s0 r1 where
    "apply_logs C L as s2 = (Inr r0, s0)" "fsmApply C L a s0 = (Inr r1, s')" "x = Some r1" by blast
  then show ?case using Cons.prems b rest by (auto split: option.splits)
qed

text \<open>The part of a store a request's marshalling leaves alone.\<close>

definition same_machine :: "'db store \<Rightarrow> 'db store \<Rightarrow> bool" where
  "same_machine s t \<longleftrightarrow> s_db s = s_db t \<and> s_dm s = s_dm t \<and> s_fsmIdx s = s_fsmIdx t \<and>
     s_dbAppliedIdx s = s_dbAppliedIdx t \<and> s_strongReadTerm s = s_strongReadTerm t"

lemma tryCompress_machine:
  "tryCompress g pb get rq s = (res, s') \<Longrightarrow> same_machine s s'"
  by (auto simp: tryCompress_def same_machine_def split: prod.splits sum.splits)

lemma tryCompress_InrD:
  "tryCompress g pb get rq s = (Inr (b, z), s') \<Longrightarrow>
   \<exists>ps. rm_Marshal g pb get (s_reqMarshaller s) rq (s_pstats s) = (Inr (b, z), ps)"
  by (auto simp: tryCompress_def split: prod.splits sum.splits)

lemma raft_apply_cases:
  assumes "raft_apply_law R" and "raft_apply C L R data n = (Inr (idx, resp), n')"
  obtains pre a r0 s0 r where "apply_logs C L pre (nst n) = (Inr r0, s0)"
    and "fsmApply C L a s0 = (Inr r, nst n')" and "l_Data (ap_log a) = data"
    and "l_Index (ap_log a) = idx" and "resp = Some r"
proof -
  obtain as r' where ap: "r_Apply R data (nra n) = (Inr idx, as, r')"
    and run: "apply_logs C L as (nst n) = (Inr resp, nst n')"
  proof (cases "r_Apply R data (nra n)")
    case (fields x as r')
    with assms(2) that show ?thesis
      by (cases "apply_logs C L as (nst n)"; cases "fst (apply_logs C L as (nst n))"; cases x)
         (auto simp: raft_apply_def)
  qed
  have as: "as \<noteq> []" "l_Data (ap_log (last as)) = data" "l_Index (ap_log (last as)) = idx"
    using raft_apply_lawD [OF assms(1) ap] by auto
  obtain r0 s0 r1 where "apply_logs C L (butlast as) (nst n) = (Inr r0, s0)"
    and "fsmApply C L (last as) s0 = (Inr r1, nst n')" and "resp = Some r1"
    using apply_logs_snoc [of C L "butlast as" "last as" "nst n"] run as(1) by auto
  with as that show thesis by blast
qed

lemma send_command_cases:
  assumes "gzip_inverse (gzip C)" and "pb_inverse pb rq" and "\<And>cmd. pb_inverse (pb_Command C) cmd"
    and "raft_apply_law R"
    and "send_command C L R typ pb get lost rq n = (Inr (idx, resp), n')"
  obtains cmd pre a s1 r0 s0 r where "encodes C cmd (l_Data (ap_log a))" and "cmd_Type cmd = typ"
    and "UnmarshalSubCommand (gzip C) pb cmd = Inr rq" and "same_machine (nst n) s1"
    and "apply_logs C L pre s1 = (Inr r0, s0)" and "fsmApply C L a s0 = (Inr r, nst n')"
    and "l_Index (ap_log a) = idx" and "resp = Some r"
proof -
  obtain b z s1 where tc: "tryCompress (gzip C) pb get rq (nst n) = (Inr (b, z), s1)"
  proof (cases "tryCompress (gzip C) pb get rq (nst n)")
    case (Pair res s1)
    with assms(5) that show ?thesis by (cases res) (auto simp: send_command_def)
  qed
  let ?cmd = "\<lparr>cmd_Type = typ, SubCommand = b, Compressed = z\<rparr>"
  obtain data where data: "cmd_Marshal (pb_Command C) ?cmd = Inr data"
    and ra: "raft_apply C L R data (n\<lparr>nst := s1\<rparr>) = (Inr (idx, resp), n')"
  proof (cases "cmd_Marshal (pb_Command C) ?cmd")
    case (Inr data)
    show ?thesis
    proof (cases "raft_apply C L R data (n\<lparr>nst := s1\<rparr>)")
      case (Pair x m)
      with assms(5) tc Inr that show ?thesis
        by (cases x; cases "projl x") (auto simp: send_command_def)
    qed
  qed (use assms(5) tc in \<open>simp add: send_command_def\<close>)
  obtain pre a r0 s0 r1 where a: "apply_logs C L pre s1 = (Inr r0, s0)"
    "fsmApply C L a s0 = (Inr r1, nst n')" "l_Data (ap_log a) = data" "l_Index (ap_log a) = idx"
    "resp = Some r1"
  proof (rule raft_apply_cases [OF assms(4) ra])
    fix pre a r0 s0 r
    assume "apply_logs C L pre (nst (n\<lparr>nst := s1\<rparr>)) = (Inr r0, s0)" "fsmApply C L a s0 = (Inr r, nst n')"
      "l_Data (ap_log a) = data" "l_Index (ap_log a) = idx" "resp = Some r"
    then show thesis using that [of pre r0 s0 a r] by simp
  qed
  have "UnmarshalSubCommand (gzip C) pb ?cmd = Inr rq"
  proof -
    obtain ps where m: "rm_Marshal (gzip C) pb get (s_reqMarshaller (nst n)) rq (s_pstats (nst n)) = (Inr (b, z), ps)"
      using tryCompress_InrD [OF tc] by blast
    then obtain pbb where pbb: "pb_marshal pb rq = Inr pbb"
      by (cases "pb_marshal pb rq") (simp_all add: rm_Marshal_def)
    have z: "z \<Longrightarrow> gzUncompress (gzip C) b = Inr pbb" "\<not> z \<Longrightarrow> b = pbb"
      by (rule rm_Marshal_result [OF assms(1) pbb, of get "s_reqMarshaller (nst n)" "s_pstats (nst n)"],
          simp add: m)+
    show ?thesis
      by (rule UnmarshalSubCommand_eq [where b = pbb]) (simp_all add: z pb_inverseD [OF assms(2) pbb])
  qed
  moreover have "encodes C ?cmd (l_Data (ap_log a))"
    using data a(3) assms(3) by (simp add: encodes_def)
  ultimately show thesis
    using that [of ?cmd a s1 pre] tryCompress_machine [OF tc] a by simp
qed

lemma fsmApply_execute:
  assumes "fsmApply C L a s = (Inr r, s')" and "encodes C cmd (l_Data (ap_log a))"
    and "cmd_Type cmd = TYPE_EXECUTE" and "UnmarshalSubCommand (gzip C) (pb_Execute C) cmd = Inr er"
  shows "\<exists>rs err. r = FsmExecuteQuery rs err \<and>
    lib_Execute L (er_Request er) (er_Timings er) (sdb (s_db s)) = ((rs, err), sdb (s_db s')) \<and>
    s_fsmIdx s' = l_Index (ap_log a) \<and> s_dbAppliedIdx s' = l_Index (ap_log a)"
proof -
  obtain rs err d where "lib_Execute L (er_Request er) (er_Timings er) (sdb (s_db s)) = ((rs, err), d)"
    by (metis prod.exhaust)
  moreover from this have "Process C L (ap_env a) (l_Data (ap_log a)) \<lparr>ps_dm = s_dm s, ps_db = s_db s\<rparr> =
      (Inr (cmd, True, FsmExecuteQuery rs err), \<lparr>ps_dm = s_dm s, ps_db = (s_db s)\<lparr>sdb := d\<rparr>\<rparr>)"
    using Process_execute [OF assms(2-4), of L "\<lparr>ps_dm = s_dm s, ps_db = s_db s\<rparr>"] by simp
  ultimately show ?thesis by (cases rule: fsmApply_ok_cases [OF assms(1)]) auto
qed

lemma fsmApply_query:
  assumes "fsmApply C L a s = (Inr r, s')" and "encodes C cmd (l_Data (ap_log a))"
    and "cmd_Type cmd = TYPE_QUERY" and "UnmarshalSubCommand (gzip C) (pb_Query C) cmd = Inr qr"
  shows "\<exists>rows err. r = FsmQuery rows err \<and>
    lib_Query L (qr_Request qr) (qr_Timings qr) (sdb (s_db s)) = (rows, err) \<and>
    s_db s' = s_db s \<and> s_fsmIdx s' = l_Index (ap_log a) \<and> s_dbAppliedIdx s' = s_dbAppliedIdx s"
proof -
  obtain rows err where "lib_Query L (qr_Request qr) (qr_Timings qr) (sdb (s_db s)) = (rows, err)"
    by (metis prod.exhaust)
  moreover from this have "Process C L (ap_env a) (l_Data (ap_log a)) \<lparr>ps_dm = s_dm s, ps_db = s_db s\<rparr> =
      (Inr (cmd, False, FsmQuery rows err), \<lparr>ps_dm = s_dm s, ps_db = s_db s\<rparr>)"
    using Process_query [OF assms(2-4), of L "\<lparr>ps_dm = s_dm s, ps_db = s_db s\<rparr>"] by simp
  ultimately show ?thesis by (cases rule: fsmApply_ok_cases [OF assms(1)]) auto
qed

text \<open>C2: A write that succeeds went through the log. When \<^verbatim>\<open>Execute\<close> returns results, the
  node was the leader and ready and no statement is a disallowed pragma; some entries that were
  already in the log were applied first, then exactly this request was executed by the database on
  the state they left, its results and its new state are what is returned and kept, and the index
  returned is the index of the last entry applied and of the last change.\<close>

theorem execute_through_log:
  assumes "gzip_inverse (gzip C)" and "pb_inverse (pb_Execute C) ex"
    and "\<And>cmd. pb_inverse (pb_Command C) cmd" and "raft_apply_law R"
    and "st_Execute C L R ex n = (Inr (r, idx, err), n')"
  shows "IsLeader R n \<and> st_Ready R n \<and>
    list_all (\<lambda>stmt. \<not> IsBreakingPragma (Sql stmt)) (GetStatements (er_Request ex)) \<and>
    (\<exists>pre s1 r0 s0. same_machine (nst n) s1 \<and> apply_logs C L pre s1 = (Inr r0, s0) \<and>
       lib_Execute L (er_Request ex) (er_Timings ex) (sdb (s_db s0)) = ((r, err), sdb (s_db (nst n'))) \<and>
       s_fsmIdx (nst n') = idx \<and> s_dbAppliedIdx (nst n') = idx)"
proof -
  have "pragma_Check (er_Request ex) = Inr ()"
    using assms(5) by (cases "pragma_Check (er_Request ex)") (auto simp: st_Execute_def)
  then have guards: "IsLeader R n" "st_Ready R n"
    "list_all (\<lambda>stmt. \<not> IsBreakingPragma (Sql stmt)) (GetStatements (er_Request ex))"
    and ex: "st_execute C L R ex n = (Inr (r, idx, err), n')"
    using assms(5) by (auto simp: st_Execute_def IsLeader_def pragma_Check_def list_all_iff
        GetStatements_def split: if_splits option.splits)
  obtain resp where sc:
    "send_command C L R TYPE_EXECUTE (pb_Execute C) er_Request [RErrNotLeader] ex n = (Inr (idx, resp), n')"
    and resp: "resp = Some (FsmExecuteQuery r err)"
    using ex by (auto simp: st_execute_def split: prod.splits sum.splits option.splits fsm_response.splits)
  show ?thesis
    using send_command_cases [OF assms(1-4) sc]
  proof cases
    case (1 cmd pre a s1 r0 s0 x)
    from fsmApply_execute [OF 1(6,1,2,3)] 1(4,5,7,8) resp guards show ?thesis by auto
  qed
qed

lemmas sample_defs = sample_codecs_def sample_pb_def sample_query_def sample_execute_def sample_lib_def
  sample_raft_def sample_raft_state_def new_store_def sample_entry_def

lemmas send_defs = send_command_def tryCompress_def rm_Marshal_def NewRequestMarshaler_def
  wants_compression_def raft_apply_def fsmApply_def fsm_deferred_def Process_def cmd_Marshal_def
  cmd_Unmarshal_def UnmarshalSubCommand_def Let_def

lemma sample_raft_apply_law: "raft_apply_law sample_raft"
  by (simp add: raft_apply_law_def sample_raft_def sample_entry_def)

lemma sample_ready:
  "st_Ready sample_raft \<lparr>nst = new_store i d, nra = sample_raft_state RLeader k as\<rparr>"
  by (simp add: st_Ready_def HasLeader_def sample_defs rc_Ready_def NewReadyChannels_def)

lemma sample_open: "s_open (new_store i d)" "r_State sample_raft (sample_raft_state st k as) = st"
  by (simp_all add: sample_defs)

lemma sample_not_breaking: "\<not> IsBreakingPragma ''x''" "\<not> IsBreakingPragma ''SELECT 1''"
  by code_simp+

theorem execute_through_log_witness:
  "\<exists>n'. st_Execute (sample_codecs \<lparr>cmd_Type = TYPE_EXECUTE, SubCommand = [3], Compressed = False\<rparr>
        (sample_query LEVEL_NONE) (sample_execute ''x'')) sample_lib sample_raft (sample_execute ''x'')
      \<lparr>nst = new_store ''n1'' [], nra = sample_raft_state RLeader 4 []\<rparr> =
        (Inr ([Resp_E \<lparr>LastInsertId = 0, RowsAffected = 1, res_Error = ''''\<rparr>], 5, None), n') \<and>
     s_dbAppliedIdx (nst n') = 5"
proof -
  let ?C = "sample_codecs \<lparr>cmd_Type = TYPE_EXECUTE, SubCommand = [3], Compressed = False\<rparr>
    (sample_query LEVEL_NONE) (sample_execute ''x'')"
  let ?n = "\<lparr>nst = new_store ''n1'' [], nra = sample_raft_state RLeader 4 []\<rparr>"
  have "pragma_Check (er_Request (sample_execute ''x'')) = Inr ()"
    by (simp add: pragma_Check_def sample_execute_def sample_not_breaking)
  moreover have "\<exists>n'. st_execute ?C sample_lib sample_raft (sample_execute ''x'') ?n =
      (Inr ([Resp_E \<lparr>LastInsertId = 0, RowsAffected = 1, res_Error = ''''\<rparr>], 5, None), n')"
    by (simp add: st_execute_def send_defs sample_defs sd_Execute_def defaultBatchThreshold_def
        defaultSizeThreshold_def GetStatements_def)
  ultimately obtain n' where ex: "st_Execute ?C sample_lib sample_raft (sample_execute ''x'') ?n =
      (Inr ([Resp_E \<lparr>LastInsertId = 0, RowsAffected = 1, res_Error = ''''\<rparr>], 5, None), n')"
    by (auto simp: st_Execute_def sample_ready sample_open)
  show ?thesis
    using execute_through_log [OF _ _ _ sample_raft_apply_law ex] ex
    by (simp add: sample_codecs_def sample_gzip_inverse sample_pb_inverse) blast
qed

section \<open>What a read sees\<close>

lemma log_order_append:
  "log_order i (as @ bs) \<longleftrightarrow>
   log_order i as \<and> log_order (if as = [] then i else l_Index (ap_log (last as))) bs"
  by (induction as arbitrary: i) (auto split: if_splits)

lemma VerifyLeader_ok:
  assumes "VerifyLeader C L R n = (Inr u, n1)" and "r_VerifyLeader R (nra n) = (ve, as, ra)"
    and "idx_inv (nst n)" and "log_order (s_fsmIdx (nst n)) as"
  shows "ve = None \<and> nra n1 = ra \<and> idx_inv (nst n1) \<and>
    s_fsmIdx (nst n1) = (if as = [] then s_fsmIdx (nst n) else l_Index (ap_log (last as)))"
proof -
  obtain r s where ap: "apply_logs C L as (nst n) = (Inr r, s)"
    using assms(1,2) by (auto simp: VerifyLeader_def during_def split: if_splits prod.splits sum.splits)
  then have "ve = None \<and> n1 = \<lparr>nst = stat ''num_verify_leader'' s, nra = ra\<rparr>"
    using assms(1,2) by (auto simp: VerifyLeader_def during_def split: if_splits option.splits)
  with apply_logs_inv [OF ap assms(3,4)] show ?thesis by (simp add: idx_inv_def)
qed

lemma linearizable_gate_ok:
  assumes "linearizable_gate C L R env readTerm n = (Inr u, n')"
    and "r_VerifyLeader R (nra n) = (ve, as, ra)" and "r_wait R ra = (bs, rb)"
    and "idx_inv (nst n)" and "log_order (s_fsmIdx (nst n)) (as @ bs)"
  shows "r_State R (nra n) = RLeader \<and> st_Ready R n \<and> ve = None \<and> r_CurrentTerm R ra = readTerm \<and>
    r_CommitIndex R (nra n) \<le> s_fsmIdx (nst n') \<and> idx_inv (nst n')"
proof -
  obtain v n1 where v: "VerifyLeader C L R n = (v, n1)" by fastforce
  obtain w n2 where w: "WaitForFSMIndex C L R (qe_timer_first env) (r_CommitIndex R (nra n)) n1 = (w, n2)"
    by fastforce
  from assms(1) v w obtain u1 i where g: "r_State R (nra n) = RLeader" "st_Ready R n" "v = Inr u1"
    "r_CurrentTerm R (nra n1) = readTerm" "w = Inr i" "n' = n2"
    by (auto simp: linearizable_gate_def Let_def split: if_splits sum.splits)
  from assms(5) have lo: "log_order (s_fsmIdx (nst n)) as"
    "log_order (if as = [] then s_fsmIdx (nst n) else l_Index (ap_log (last as))) bs"
    by (simp_all add: log_order_append)
  note v1 = VerifyLeader_ok [OF v [unfolded g(3)] assms(2,4) lo(1)]
  from WaitForFSMIndex_cases [OF _ _ _ w, of bs rb] v1 assms(3) lo(2) g show ?thesis by auto
qed

lemma strong_query_ok:
  assumes "gzip_inverse (gzip C)" and "pb_inverse (pb_Query C) qr"
    and "\<And>cmd. pb_inverse (pb_Command C) cmd" and "raft_apply_law R"
    and "strong_query C L R term qr n = (Inr (rows, idx, err), n')"
  shows "r_State R (nra n) = RLeader \<and> st_Ready R n \<and> s_strongReadTerm (nst n') = term \<and>
    s_fsmIdx (nst n') = idx \<and>
    (\<exists>pre s1 r0 s0. same_machine (nst n) s1 \<and> apply_logs C L pre s1 = (Inr r0, s0) \<and>
       s_db (nst n') = s_db s0 \<and> lib_Query L (qr_Request qr) (qr_Timings qr) (sdb (s_db s0)) = (rows, err))"
proof -
  obtain x n1 where sc: "send_command C L R TYPE_QUERY (pb_Query C) qr_Request
      [RErrNotLeader, RErrLeadershipLost] qr n = (x, n1)" by fastforce
  from assms(5) sc have g: "r_State R (nra n) = RLeader" "st_Ready R n"
    and x: "x = Inr (idx, Some (FsmQuery rows err))"
    and n': "n' = upd_store (\<lambda>s. s\<lparr>s_strongReadTerm := term\<rparr>) n1"
    by (auto simp: strong_query_def Let_def split: if_splits sum.splits option.splits fsm_response.splits)
  show ?thesis
    using send_command_cases [OF assms(1-4) sc [unfolded x]]
  proof cases
    case (1 cmd pre a s1 r0 s0 y)
    have "y = FsmQuery rows err" using 1(8) by simp
    from fsmApply_query [OF 1(6,1,2,3)] this 1(4,5,7) g n' show ?thesis by auto
  qed
qed

lemma st_Query_start:
  assumes "st_Query C L R env qr n = (Inr x, n')"
  shows "pragma_Check (qr_Request qr) = Inr () \<and> s_open (nst n)"
  using assms by (cases "pragma_Check (qr_Request qr)") (auto simp: st_Query_def split: if_splits)

text \<open>C3: A linearizable read is current. When such a read returns, the node was a ready leader, and
  one of two things held. Either a strong read had already been done in the current term: then the
  leadership was verified after the read began, in the same term, the rows are the database's answer
  at a moment when the state machine had reached the index that was committed when the read began,
  and no entry was written. Or none had: then the query itself went through the log, the rows are
  the answer at its own index, the database is unchanged by it, and the term is recorded, so that
  the next linearizable read of the term can be served locally.\<close>

theorem linearizable_read_current:
  assumes "gzip_inverse (gzip C)" and "\<And>q. pb_inverse (pb_Query C) q"
    and "\<And>cmd. pb_inverse (pb_Command C) cmd" and "raft_apply_law R"
    and "qr_Level qr = LEVEL_LINEARIZABLE" and "idx_inv (nst n)"
    and "r_VerifyLeader R (nra n) = (ve, as, ra)" and "r_wait R ra = (bs, rb)"
    and "log_order (s_fsmIdx (nst n)) (as @ bs)"
    and "st_Query C L R env qr n = (Inr (rows, idx, err), n')"
  shows "IsLeader R n \<and> st_Ready R n \<and>
   (if r_CurrentTerm R (nra n) = s_strongReadTerm (nst n) then
      ve = None \<and> r_CurrentTerm R ra = r_CurrentTerm R (nra n) \<and>
      r_CommitIndex R (nra n) \<le> s_fsmIdx (nst n') \<and> idx = 0 \<and>
      lib_Query L (qr_Request qr) (qr_Timings qr) (sdb (s_db (nst n'))) = (rows, err)
    else
      s_strongReadTerm (nst n') = r_CurrentTerm R (nra n) \<and> s_fsmIdx (nst n') = idx \<and>
      (\<exists>pre s1 r0 s0. same_machine (nst n) s1 \<and> apply_logs C L pre s1 = (Inr r0, s0) \<and>
         s_db (nst n') = s_db s0 \<and>
         lib_Query L (qr_Request qr) (qr_Timings qr) (sdb (s_db s0)) = (rows, err)))"
proof (cases "r_CurrentTerm R (nra n) = s_strongReadTerm (nst n)")
  case True
  obtain g n1 where g: "linearizable_gate C L R env (r_CurrentTerm R (nra n)) n = (g, n1)" by fastforce
  from st_Query_start [OF assms(10)] True assms(5,10) g obtain u where u: "g = Inr u" "n1 = n'"
    and lq: "local_query L (qr\<lparr>qr_Level := LEVEL_LINEARIZABLE\<rparr>) n' = Inr (rows, idx, err)"
    by (auto simp: st_Query_def resolve_level_def split: sum.splits)
  from linearizable_gate_ok [OF g [unfolded u] assms(7,8,6,9)] lq True st_Query_start [OF assms(10)]
  show ?thesis by (auto simp: local_query_def sd_Query_def IsLeader_def split: prod.splits)
next
  case False
  let ?n = "upd_store (\<lambda>s. s\<lparr>s_numLRUpgraded := s_numLRUpgraded s + 1\<rparr>) n"
  have ready: "st_Ready R ?n = st_Ready R n" by (simp add: st_Ready_def HasLeader_def)
  have sm: "same_machine (nst ?n) s1 = same_machine (nst n) s1" for s1 by (simp add: same_machine_def)
  from st_Query_start [OF assms(10)] False assms(5,10)
  have "strong_query C L R (r_CurrentTerm R (nra n)) (qr\<lparr>qr_Level := LEVEL_STRONG\<rparr>) ?n =
      (Inr (rows, idx, err), n')"
    by (auto simp: st_Query_def resolve_level_def)
  from strong_query_ok [OF assms(1,2,3,4) this] False st_Query_start [OF assms(10)] ready sm
  show ?thesis by (simp add: IsLeader_def)
qed

lemma st_Query_local:
  assumes "pragma_Check (qr_Request qr) = Inr ()" and "s_open (nst n)"
    and "qr_Level qr = LEVEL_LINEARIZABLE" and "r_CurrentTerm R (nra n) = s_strongReadTerm (nst n)"
    and "linearizable_gate C L R env (r_CurrentTerm R (nra n)) n = (Inr u, n')"
  shows "st_Query C L R env qr n = (local_query L qr n', n')"
  using assms by (simp add: st_Query_def resolve_level_def local_query_def)

theorem linearizable_read_current_witness:
  "\<exists>rows n'. st_Query (sample_codecs \<lparr>cmd_Type = TYPE_NOOP, SubCommand = [], Compressed = False\<rparr>
        (sample_query LEVEL_STRONG) (sample_execute ''x'')) sample_lib sample_raft
        \<lparr>qe_now = 0, qe_timer_first = False\<rparr> (sample_query LEVEL_LINEARIZABLE)
      \<lparr>nst = (new_store ''n1'' [])\<lparr>s_strongReadTerm := 1\<rparr>,
       nra = sample_raft_state RLeader 2 [sample_entry 1 1 [1], sample_entry 2 1 [1]]\<rparr> =
        (Inr (rows, 0, None), n') \<and> 2 \<le> s_fsmIdx (nst n')"
proof -
  let ?C = "sample_codecs \<lparr>cmd_Type = TYPE_NOOP, SubCommand = [], Compressed = False\<rparr>
        (sample_query LEVEL_STRONG) (sample_execute ''x'')"
  let ?ra = "sample_raft_state RLeader 2 [sample_entry 1 1 [1], sample_entry 2 1 [1]]"
  let ?s = "(new_store ''n1'' [])\<lparr>s_strongReadTerm := 1\<rparr>"
  let ?n = "\<lparr>nst = ?s, nra = ?ra\<rparr>" and ?env = "\<lparr>qe_now = 0, qe_timer_first = False\<rparr>"
  have p: "pragma_Check (qr_Request (sample_query LEVEL_LINEARIZABLE)) = Inr ()"
    by (simp add: pragma_Check_def sample_query_def sample_not_breaking)
  have "\<exists>n'. linearizable_gate ?C sample_lib sample_raft ?env 1 ?n = (Inr (), n')"
    by (simp add: linearizable_gate_def st_Ready_def HasLeader_def sample_defs rc_Ready_def
        NewReadyChannels_def VerifyLeader_def during_def WaitForFSMIndex_def send_defs Subscribe_def
        Signal_def NewReadyTarget_def)
  then obtain n' where g: "linearizable_gate ?C sample_lib sample_raft ?env 1 ?n = (Inr (), n')" by blast
  have t: "r_CurrentTerm sample_raft ?ra = 1" "s_strongReadTerm ?s = 1" "s_open ?s"
    "r_CommitIndex sample_raft ?ra = 2" "r_VerifyLeader sample_raft ?ra = (None, [], ?ra)"
    "r_wait sample_raft ?ra = ([sample_entry 1 1 [1], sample_entry 2 1 [1]], ?ra\<lparr>sr_arriving := []\<rparr>)"
    "log_order (s_fsmIdx ?s) ([] @ [sample_entry 1 1 [1], sample_entry 2 1 [1]])"
    by (simp_all add: sample_defs)
  have "\<exists>rows. local_query sample_lib (sample_query LEVEL_LINEARIZABLE) n' = Inr (rows, 0, None)"
    by (simp add: local_query_def sd_Query_def sample_lib_def)
  moreover have "st_Query ?C sample_lib sample_raft ?env (sample_query LEVEL_LINEARIZABLE) ?n =
      (local_query sample_lib (sample_query LEVEL_LINEARIZABLE) n', n')"
    by (rule st_Query_local) (use p t g in \<open>simp_all add: sample_query_def\<close>)
  ultimately obtain rows where q: "st_Query ?C sample_lib sample_raft ?env
      (sample_query LEVEL_LINEARIZABLE) ?n = (Inr (rows, 0, None), n')" by auto
  have "idx_inv ?s" using idx_inv_new_store by (simp add: idx_inv_def)
  with linearizable_read_current [OF _ _ _ sample_raft_apply_law _ _ _ _ _ q, of None "[]" ?ra
      "[sample_entry 1 1 [1], sample_entry 2 1 [1]]" "?ra\<lparr>sr_arriving := []\<rparr>"] t q
  show ?thesis by (simp add: sample_codecs_def sample_gzip_inverse sample_pb_inverse sample_query_def) blast
qed



end
