(* ===== verification/Store_Cluster.thy ===== *)
theory Store_Cluster
  imports Store_Request
begin

text \<open>
  The part of a store that manages the cluster (\<^verbatim>\<open>store/store.go\<close>): bootstrapping by
  notification, joins and removals, reaping of nodes that fail their heartbeats, the one-shot
  restore when leadership is first settled, change data capture, and closing. Name resolution and
  the file system are parameters. What is shown: when and with which nodes a cluster is
  bootstrapped, what a successful join leaves in the configuration, which nodes are reaped, that a
  restore is attempted once, and what a load through the log does.
\<close>

section \<open>Configuration\<close>

definition st_Bootstrap ::
  "'r raft_ops \<Rightarrow> Server list \<Rightarrow> ('db, 'r) node \<Rightarrow> (store_err, unit) result \<times> ('db, 'r) node" where
  "st_Bootstrap R servers n =
   (case r_BootstrapCluster R
      (map (\<lambda>s. \<lparr>rs_ID = srv_ID s, rs_Address = srv_Addr s, rs_Suffrage = Voter\<rparr>) servers) (nra n) of
      (None, ra) \<Rightarrow> (Inr (), n\<lparr>nra := ra\<rparr>)
    | (Some e, ra) \<Rightarrow> (Inl (RaftErr e), n\<lparr>nra := ra\<rparr>))"

definition Stepdown ::
  "'r raft_ops \<Rightarrow> bool \<Rightarrow> ('db, 'r) node \<Rightarrow> (store_err, unit) result \<times> ('db, 'r) node" where
  "Stepdown R wait n =
   (if \<not> s_open (nst n) then (Inl ErrNotOpen, n)
    else case r_LeadershipTransfer R (nra n) of (e, ra) \<Rightarrow>
      ((if \<not> wait then Inr () else case e of None \<Rightarrow> Inr () | Some e \<Rightarrow> Inl (RaftErr e)), n\<lparr>nra := ra\<rparr>))"

definition RegisterReadyChannel :: "chan \<Rightarrow> ('db, 'r) node \<Rightarrow> ('db, 'r) node" where
  "RegisterReadyChannel ch n = upd_store (\<lambda>s. s\<lparr>s_readyChans := rc_Register ch (s_readyChans s)\<rparr>) n"

definition srv_of :: "raft_server \<Rightarrow> Server" where
  "srv_of r = \<lparr>srv_ID = rs_ID r, srv_Addr = rs_Address r, srv_Suffrage = suffrage_String (rs_Suffrage r)\<rparr>"

definition Nodes :: "'r raft_ops \<Rightarrow> ('db, 'r) node \<Rightarrow> (store_err, Server list) result" where
  "Nodes R n = (if \<not> s_open (nst n) then Inl ErrNotOpen
     else case r_GetConfiguration R (nra n) of
       Inl e \<Rightarrow> Inl (RaftErr e)
     | Inr rs \<Rightarrow> Inr (sort_key srv_ID (map srv_of rs)))"

text \<open>The polling waits. Each tick finds the node in some state; the result is \<open>None\<close> while neither
  the condition nor the timer has ended the wait.\<close>

datatype 'n tick = At 'n | Timeout

fun poll_nodes :: "('n \<Rightarrow> bool) \<Rightarrow> 'n tick list \<Rightarrow> poll_event list" where
  "poll_nodes chk [] = []"
| "poll_nodes chk (At n # evs) = Tick (chk n) # poll_nodes chk evs"
| "poll_nodes chk (Timeout # evs) = Timer # poll_nodes chk evs"

definition WaitForRemoval ::
  "'r raft_ops \<Rightarrow> string \<Rightarrow> ('db, 'r) node \<Rightarrow> ('db, 'r) node tick list \<Rightarrow> (store_err, unit) result option" where
  "WaitForRemoval R i n evs =
   (let check = (\<lambda>n. case Nodes R n of Inl _ \<Rightarrow> False | Inr nodes \<Rightarrow> \<not> servers_Contains nodes i) in
    case poll_Run ''removal'' (check n) (poll_nodes check evs) of
      None \<Rightarrow> None
    | Some (Inr _) \<Rightarrow> Some (Inr ())
    | Some (Inl _) \<Rightarrow> Some (Inl ErrWaitForRemovalTimeout))"

text \<open>\<^verbatim>\<open>WaitForLeader\<close> returns the address its last check stored.\<close>

fun first_leader :: "'r raft_ops \<Rightarrow> ('db, 'r) node tick list \<Rightarrow> (store_err, string) result option" where
  "first_leader R [] = None"
| "first_leader R (Timeout # evs) = Some (Inl ErrWaitForLeaderTimeout)"
| "first_leader R (At n # evs) = (case LeaderAddr R n of
     Inr a \<Rightarrow> if a \<noteq> '''' then Some (Inr a) else first_leader R evs
   | Inl _ \<Rightarrow> first_leader R evs)"

definition WaitForLeader ::
  "'r raft_ops \<Rightarrow> ('db, 'r) node \<Rightarrow> ('db, 'r) node tick list \<Rightarrow> (store_err, string) result option" where
  "WaitForLeader R n evs = first_leader R (At n # evs)"

definition WaitForCommitIndex ::
  "'r raft_ops \<Rightarrow> nat \<Rightarrow> ('db, 'r) node \<Rightarrow> ('db, 'r) node tick list \<Rightarrow> (string, unit) result option" where
  "WaitForCommitIndex R idx n evs =
   (let check = (\<lambda>n. idx \<le> r_CommitIndex R (nra n)) in
    poll_Run ''commit index'' (check n) (poll_nodes check evs))"

definition Committed ::
  "'r raft_ops \<Rightarrow> ('db, 'r) node \<Rightarrow> ('db, 'r) node tick list \<Rightarrow>
   (store_err, nat \<times> (string, unit) result) result option" where
  "Committed R n evs = (case LeaderCommitIndex R n of
     Inl e \<Rightarrow> Some (Inl e)
   | Inr lci \<Rightarrow> map_option (\<lambda>r. Inr (lci, r)) (WaitForCommitIndex R (max 1 lci) n evs))"

section \<open>Bootstrapping by notification\<close>

definition resolvableAddress :: "(string \<Rightarrow> string option) \<Rightarrow> string \<Rightarrow> string \<times> string option" where
  "resolvableAddress lookup addr =
   (let h = (case SplitHostPort addr of Inr (h, _) \<Rightarrow> h | Inl _ \<Rightarrow> addr) in (h, lookup h))"

text \<open>The order in which Go ranges over the map of notifying nodes is not fixed: \<open>ord\<close> picks it.\<close>

definition Notify ::
  "(string \<Rightarrow> string option) \<Rightarrow> ((string \<times> Server) list \<Rightarrow> (string \<times> Server) list) \<Rightarrow> 'r raft_ops \<Rightarrow>
   NotifyRequest \<Rightarrow> ('db, 'r) node \<Rightarrow> (store_err, unit) result \<times> ('db, 'r) node" where
  "Notify lookup ord R nr n =
   (if \<not> s_open (nst n) then (Inl ErrNotOpen, n)
    else if s_BootstrapExpect (nst n) = 0 \<or> s_bootstrapped (nst n) \<or> HasLeader R n then (Inr (), n)
    else if map_of (s_notifyingNodes (nst n)) (nr_Id nr) \<noteq> None then (Inr (), n)
    else case resolvableAddress lookup (nr_Address nr) of
      (addr, Some e) \<Rightarrow> (Inl (StoreErr (''failed to resolve '' @ addr @ '': '' @ e)), n)
    | (_, None) \<Rightarrow>
       let nodes = AList.update (nr_Id nr)
             \<lparr>srv_ID = nr_Id nr, srv_Addr = nr_Address nr, srv_Suffrage = ''voter''\<rparr> (s_notifyingNodes (nst n));
           n = upd_store (\<lambda>s. s\<lparr>s_notifyingNodes := nodes\<rparr>) n in
       if int (length nodes) < s_BootstrapExpect (nst n) then (Inr (), n)
       else
         let raftServers = map (\<lambda>(_, s). \<lparr>rs_ID = srv_ID s, rs_Address = srv_Addr s, rs_Suffrage = Voter\<rparr>) (ord nodes) in
         case r_BootstrapCluster R raftServers (nra n) of (_, ra) \<Rightarrow>
           (Inr (), upd_store (\<lambda>s. s\<lparr>s_bootstrapped := True\<rparr>) (n\<lparr>nra := ra\<rparr>)))"

section \<open>Joining and removing\<close>

definition st_remove ::
  "'r raft_ops \<Rightarrow> string \<Rightarrow> ('db, 'r) node \<Rightarrow> (store_err, unit) result \<times> ('db, 'r) node" where
  "st_remove R i n = (case r_RemoveServer R i (nra n) of
     (None, ra) \<Rightarrow> (Inr (), n\<lparr>nra := ra\<rparr>)
   | (Some e, ra) \<Rightarrow> (Inl (if e = RErrNotLeader then ErrNotLeader else RaftErr e), n\<lparr>nra := ra\<rparr>))"

definition st_Remove ::
  "'r raft_ops \<Rightarrow> RemoveNodeRequest \<Rightarrow> ('db, 'r) node \<Rightarrow> (store_err, unit) result \<times> ('db, 'r) node" where
  "st_Remove R rn n = (if \<not> s_open (nst n) then (Inl ErrNotOpen, n) else st_remove R (rn_Id rn) n)"

text \<open>The loop over the current configuration; it answers whether the join is to be ignored.\<close>

fun join_loop ::
  "'r raft_ops \<Rightarrow> string \<Rightarrow> string \<Rightarrow> raft_server list \<Rightarrow> ('db, 'r) node \<Rightarrow>
   (store_err, bool) result \<times> ('db, 'r) node" where
  "join_loop R i addr [] n = (Inr False, n)"
| "join_loop R i addr (srv # rest) n =
   (if rs_ID srv = i \<or> rs_Address srv = addr then
      (if rs_Address srv = addr \<and> rs_ID srv = i then
         (Inr True, upd_store (\<lambda>s. (stat ''num_ignored_joins'' s)\<lparr>s_numIgnoredJoins := s_numIgnoredJoins s + 1\<rparr>) n)
       else case st_remove R i n of
         (Inl e, n) \<Rightarrow> (Inl e, n)
       | (Inr _, n) \<Rightarrow> join_loop R i addr rest (upd_store (stat ''num_removed_before_joins'') n))
    else join_loop R i addr rest n)"

definition st_Join ::
  "(string \<Rightarrow> string option) \<Rightarrow> 'r raft_ops \<Rightarrow> JoinRequest \<Rightarrow> ('db, 'r) node \<Rightarrow>
   (store_err, unit) result \<times> ('db, 'r) node" where
  "st_Join lookup R jr n =
   (if \<not> s_open (nst n) then (Inl ErrNotOpen, n)
    else if r_State R (nra n) \<noteq> RLeader then (Inl ErrNotLeader, n)
    else case resolvableAddress lookup (jr_Address jr) of
      (_, Some e) \<Rightarrow> (Inl (StoreErr (''failed to resolve '' @ jr_Address jr @ '': '' @ e)), n)
    | (_, None) \<Rightarrow> (case r_GetConfiguration R (nra n) of
        Inl e \<Rightarrow> (Inl (RaftErr e), n)
      | Inr servers \<Rightarrow> (case join_loop R (jr_Id jr) (jr_Address jr) servers n of
          (Inl e, n) \<Rightarrow> (Inl e, n)
        | (Inr True, n) \<Rightarrow> (Inr (), n)
        | (Inr False, n) \<Rightarrow>
           (case (if jr_Voter jr then r_AddVoter R else r_AddNonvoter R) (jr_Id jr) (jr_Address jr) (nra n) of
              (Some e, ra) \<Rightarrow> (Inl (if e = RErrNotLeader then ErrNotLeader else RaftErr e), n\<lparr>nra := ra\<rparr>)
            | (None, ra) \<Rightarrow> (Inr (), upd_store (stat ''num_joins'') (n\<lparr>nra := ra\<rparr>))))))"

section \<open>Observations\<close>

datatype observation =
    FailedHeartbeat string time
  | LeaderObserved string

text \<open>A channel registered for leader changes: what it holds and how much it can hold.\<close>

type_synonym obs_chan = "nat \<times> nat"

definition RegisterLeaderChange :: "obs_chan \<Rightarrow> obs_chan list \<Rightarrow> obs_chan list" where
  "RegisterLeaderChange c obs = obs @ [c]"

definition reap ::
  "'r raft_ops \<Rightarrow> time \<Rightarrow> string \<Rightarrow> time \<Rightarrow> ('db, 'r) node \<Rightarrow> ('db, 'r) node" where
  "reap R now i lastContact n =
   (let n = upd_store (stat ''failed_heartbeat_observed'') n;
        servers = (case Nodes R n of Inl _ \<Rightarrow> [] | Inr nodes \<Rightarrow> nodes);
        dur = now - lastContact in
    case IsReadOnly servers i of (isReadOnly, found) \<Rightarrow>
      if \<not> found then n
      else if (isReadOnly \<and> s_ReapReadOnlyTimeout (nst n) > 0 \<and> dur > s_ReapReadOnlyTimeout (nst n)) \<or>
              (\<not> isReadOnly \<and> s_ReapTimeout (nst n) > 0 \<and> dur > s_ReapTimeout (nst n)) then
        (case st_remove R i n of
           (Inl _, n) \<Rightarrow> upd_store (stat ''nodes_reaped_failed'') n
         | (Inr _, n) \<Rightarrow> upd_store (stat ''nodes_reaped_ok'') n)
      else n)"

fun notify_observers :: "obs_chan list \<Rightarrow> counters \<Rightarrow> obs_chan list \<times> counters" where
  "notify_observers [] st = ([], st)"
| "notify_observers ((held, capacity) # obs) st =
   (if held < capacity
    then (case notify_observers obs (stats_add ''leader_changes_observed'' 1 st) of
            (obs, st) \<Rightarrow> ((held + 1, capacity) # obs, st))
    else (case notify_observers obs (stats_add ''leader_changes_dropped'' 1 st) of
            (obs, st) \<Rightarrow> ((held, capacity) # obs, st)))"

text \<open>The file of \<^verbatim>\<open>restorePath\<close> is read by \<^verbatim>\<open>installRestore\<close>: its contents or the error.\<close>

definition installRestore ::
  "codecs \<Rightarrow> 'db db_lib \<Rightarrow> 'r raft_ops \<Rightarrow> (string, bytes) result \<Rightarrow> ('db, 'r) node \<Rightarrow>
   (store_err, unit) result \<times> ('db, 'r) node" where
  "installRestore C L R file n = (case file of
     Inl e \<Rightarrow> (Inl (StoreErr e), n)
   | Inr b \<Rightarrow> st_load C L R \<lparr>lr_Data = b\<rparr> n)"

definition selfLeaderChange ::
  "codecs \<Rightarrow> 'db db_lib \<Rightarrow> 'r raft_ops \<Rightarrow> (string \<Rightarrow> (string, bytes) result) \<Rightarrow> bool \<Rightarrow> ('db, 'r) node \<Rightarrow> ('db, 'r) node" where
  "selfLeaderChange C L R fs leader n =
   (if s_restorePath (nst n) \<noteq> '''' then
      let n = (if \<not> leader then upd_store (stat ''num_auto_restores_skipped'') n
               else case installRestore C L R (fs (s_restorePath (nst n))) n of
                 (Inl _, n) \<Rightarrow> upd_store (stat ''num_auto_restores_failed'') n
               | (Inr _, n) \<Rightarrow> upd_store (stat ''num_auto_restores'') n) in
      upd_store (\<lambda>s. s\<lparr>s_restorePath := '''', s_restoreDone := True\<rparr>) n
    else n)"

definition observe ::
  "codecs \<Rightarrow> 'db db_lib \<Rightarrow> 'r raft_ops \<Rightarrow> (string \<Rightarrow> (string, bytes) result) \<Rightarrow> time \<Rightarrow> observation \<Rightarrow>
   ('db, 'r) node \<times> obs_chan list \<Rightarrow> ('db, 'r) node \<times> obs_chan list" where
  "observe C L R fs now ob st = (case st of (n, obs) \<Rightarrow> (case ob of
     FailedHeartbeat i lastContact \<Rightarrow> (reap R now i lastContact n, obs)
   | LeaderObserved leaderID \<Rightarrow>
      (case notify_observers obs (s_stats (nst n)) of (obs, counts) \<Rightarrow>
        (selfLeaderChange C L R fs (leaderID = s_raftID (nst n)) (upd_store (\<lambda>s. s\<lparr>s_stats := counts\<rparr>) n), obs))))"

section \<open>Change data capture\<close>

definition EnableCDC ::
  "'db db_lib \<Rightarrow> nat \<Rightarrow> ('db, 'r) node \<Rightarrow> (store_err, unit) result \<times> ('db, 'r) node" where
  "EnableCDC L capacity n =
   (if \<not> s_open (nst n) then (Inl ErrNotOpen, n)
    else if s_cdcStreamer (nst n) \<noteq> None then (Inl ErrCDCEnabled, n)
    else
      let n = upd_store (\<lambda>s. s\<lparr>s_cdcStreamer := Some (NewCDCStreamer capacity)\<rparr>) n in
      case lib_PreUpdateHook L True (sdb (s_db (nst n))) of
        Some e \<Rightarrow> (Inl (StoreErr e), n)
      | None \<Rightarrow> (case lib_CommitHook L True (sdb (s_db (nst n))) of
          Some e \<Rightarrow> (Inl (StoreErr e), n)
        | None \<Rightarrow> (Inr (), n)))"

definition DisableCDC ::
  "'db db_lib \<Rightarrow> ('db, 'r) node \<Rightarrow> (store_err, unit) result \<times> ('db, 'r) node" where
  "DisableCDC L n =
   (if s_cdcStreamer (nst n) = None then (Inr (), n)
    else case lib_PreUpdateHook L False (sdb (s_db (nst n))) of
      Some e \<Rightarrow> (Inl (StoreErr (''failed to unregister preupdate hook: '' @ e)), n)
    | None \<Rightarrow> (case lib_CommitHook L False (sdb (s_db (nst n))) of
        Some e \<Rightarrow> (Inl (StoreErr (''failed to unregister commit hook: '' @ e)), n)
      | None \<Rightarrow> (Inr (), upd_store (\<lambda>s. s\<lparr>s_cdcStreamer := None\<rparr>) n)))"

section \<open>Closing\<close>

text \<open>What closing meets: the states of the snapshot lock at each attempt, the delays of the clock,
  and the errors of the parts it shuts down.\<close>

record close_env =
  ce_cas :: "nat \<Rightarrow> check_and_set"
  ce_lag :: "nat \<Rightarrow> int"
  ce_now :: time
  ce_raft :: "string option"
  ce_transport :: "string option"
  ce_bolt :: "string option"

definition milliseconds :: "int \<Rightarrow> int" where
  "milliseconds k = k * 1000000"

definition st_Close ::
  "'db db_lib \<Rightarrow> close_env \<Rightarrow> bool \<Rightarrow> ('db, 'r) node \<Rightarrow> ((store_err, unit) result \<times> ('db, 'r) node) option" where
  "st_Close L env wait n =
   (if \<not> s_open (nst n) then Some (Inr (), n)
    else case BeginWithRetry (ce_cas env) (ce_lag env) (ce_now env) ''close'' (milliseconds 10) (milliseconds 10000) of
      None \<Rightarrow> None
    | Some (Inl e, _) \<Rightarrow> Some (Inl (CasErr e), n)
    | Some (Inr c, _) \<Rightarrow>
       let n = upd_store (\<lambda>s. s\<lparr>s_snapshotCAS := cas_End c, s_dm := dm_Close (s_dm s)\<rparr>) n in
       if wait \<and> ce_raft env \<noteq> None then Some (Inl (StoreErr (the (ce_raft env))), n)
       else (case ce_transport env of
         Some e \<Rightarrow> Some (Inl (StoreErr e), n)
       | None \<Rightarrow> (case lib_Close L (sdb (s_db (nst n))) of
           Some e \<Rightarrow> Some (Inl (StoreErr e), n)
         | None \<Rightarrow>
            let n = upd_store (\<lambda>s. s\<lparr>s_db := (s_db s)\<lparr>sdb_closed := True\<rparr>\<rparr>) n in
            (case ce_bolt env of
               Some e \<Rightarrow> Some (Inl (StoreErr e), n)
             | None \<Rightarrow> Some (Inr (), upd_store (\<lambda>s. s\<lparr>s_open := False\<rparr>) n)))))"


section \<open>When a cluster is bootstrapped\<close>

fun notify_all ::
  "(string \<Rightarrow> string option) \<Rightarrow> ((string \<times> Server) list \<Rightarrow> (string \<times> Server) list) \<Rightarrow> 'r raft_ops \<Rightarrow>
   NotifyRequest list \<Rightarrow> ('db, 'r) node \<Rightarrow> ('db, 'r) node" where
  "notify_all lookup ord R [] n = n"
| "notify_all lookup ord R (nr # nrs) n = notify_all lookup ord R nrs (snd (Notify lookup ord R nr n))"

lemma notify_all_snoc:
  "notify_all lookup ord R (nrs @ [nr]) n = snd (Notify lookup ord R nr (notify_all lookup ord R nrs n))"
  by (induction nrs arbitrary: n) simp_all

definition voters :: "(string \<times> Server) list \<Rightarrow> raft_server list" where
  "voters ns = map (\<lambda>(_, s). \<lparr>rs_ID = srv_ID s, rs_Address = srv_Addr s, rs_Suffrage = Voter\<rparr>) ns"

definition from_requests :: "NotifyRequest list \<Rightarrow> (string \<times> Server) list \<Rightarrow> bool" where
  "from_requests nrs ns \<longleftrightarrow> distinct (map fst ns) \<and>
     (\<forall>(i, s) \<in> set ns. \<exists>nr \<in> set nrs. nr_Id nr = i \<and>
        s = \<lparr>srv_ID = i, srv_Addr = nr_Address nr, srv_Suffrage = ''voter''\<rparr>)"

lemma from_requests_mono: "from_requests nrs ns \<Longrightarrow> from_requests (nrs @ nrs2) ns"
  unfolding from_requests_def by (auto split: prod.splits) blast

lemma from_requests_add:
  "from_requests nrs ns \<Longrightarrow> nr_Id nr \<notin> fst ` set ns \<Longrightarrow>
   from_requests (nrs @ [nr])
     (ns @ [(nr_Id nr, \<lparr>srv_ID = nr_Id nr, srv_Addr = nr_Address nr, srv_Suffrage = ''voter''\<rparr>)])"
  using from_requests_mono [of nrs ns "[nr]"] unfolding from_requests_def by auto

lemma update_new: "i \<notin> fst ` set ns \<Longrightarrow> AList.update i v ns = ns @ [(i, v)]"
  by (induction ns) auto

text \<open>The state of a node after notifications, \<open>k\<close> being the number expected.\<close>

definition notify_inv ::
  "((string \<times> Server) list \<Rightarrow> (string \<times> Server) list) \<Rightarrow> 'r raft_ops \<Rightarrow> nat \<Rightarrow> NotifyRequest list \<Rightarrow> 'r \<Rightarrow>
   ('db, 'r) node \<Rightarrow> bool" where
  "notify_inv ord R k nrs ra n \<longleftrightarrow> s_open (nst n) \<and> s_BootstrapExpect (nst n) = int k \<and>
     from_requests nrs (s_notifyingNodes (nst n)) \<and>
     (if card (nr_Id ` set nrs) < k then
        \<not> s_bootstrapped (nst n) \<and> nra n = ra \<and> fst ` set (s_notifyingNodes (nst n)) = nr_Id ` set nrs
      else s_bootstrapped (nst n) \<and> length (s_notifyingNodes (nst n)) = k \<and>
        nra n = snd (r_BootstrapCluster R (voters (ord (s_notifyingNodes (nst n)))) ra))"

lemma notify_inv_step:
  assumes "0 < k" and inv: "notify_inv ord R k nrs ra n" and lead: "fst (r_LeaderWithID R ra) = ''''"
    and res: "snd (resolvableAddress lookup (nr_Address nr)) = None"
  shows "notify_inv ord R k (nrs @ [nr]) ra (snd (Notify lookup ord R nr n))"
proof (cases "card (nr_Id ` set nrs) < k")
  case False
  have "card (nr_Id ` set nrs) \<le> card (nr_Id ` set (nrs @ [nr]))" by (rule card_mono) auto
  then show ?thesis using False inv from_requests_mono [of nrs _ "[nr]"]
    by (simp add: notify_inv_def Notify_def)
next
  case True
  let ?ns = "s_notifyingNodes (nst n)"
  have n: "s_open (nst n)" "s_BootstrapExpect (nst n) = int k" "\<not> s_bootstrapped (nst n)" "nra n = ra"
    "fst ` set ?ns = nr_Id ` set nrs" and fr: "from_requests nrs ?ns"
    using True inv by (simp_all add: notify_inv_def)
  have nl: "\<not> HasLeader R n" using n lead by (simp add: HasLeader_def)
  obtain h where h: "resolvableAddress lookup (nr_Address nr) = (h, None)" using res by (metis prod.collapse)
  show ?thesis
  proof (cases "nr_Id nr \<in> nr_Id ` set nrs")
    case old: True
    then have "map_of ?ns (nr_Id nr) \<noteq> None" using n(5) by (simp add: map_of_eq_None_iff)
    moreover have "nr_Id ` set (nrs @ [nr]) = nr_Id ` set nrs" using old by auto
    ultimately show ?thesis using True inv n nl from_requests_mono [OF fr]
      by (simp add: notify_inv_def Notify_def)
  next
    case new: False
    then have m: "map_of ?ns (nr_Id nr) = None" using n(5) by (simp add: map_of_eq_None_iff)
    note up = update_new [OF new [folded n(5)]]
    have card: "card (nr_Id ` set (nrs @ [nr])) = Suc (card (nr_Id ` set nrs))" using new by simp
    have "length ?ns = card (fst ` set ?ns)"
      using fr unfolding from_requests_def by (metis distinct_card length_map list.set_map)
    then have len: "length ?ns = card (nr_Id ` set nrs)" using n(5) by simp
    show ?thesis
    proof (cases "Suc (length ?ns) < k")
      case True
      then show ?thesis using n nl m h up card len from_requests_add [OF fr new [folded n(5)]]
        by (simp add: notify_inv_def Notify_def Let_def)
    next
      case False
      then have "Suc (length ?ns) = k" using True len by simp
      then show ?thesis using n nl m h up card len from_requests_add [OF fr new [folded n(5)]] assms(1)
        by (simp add: notify_inv_def Notify_def Let_def voters_def split: prod.splits)
    qed
  qed
qed

text \<open>C15: A cluster is bootstrapped once, by the right nodes. Whatever the order of notifications and
  however often each node repeats its own, a fresh node that expects \<open>k\<close> of them does nothing to Raft
  before \<open>k\<close> different nodes have notified it; at that moment it bootstraps Raft with exactly \<open>k\<close>
  voters, each with the ID and an address of a notification; and later notifications change nothing
  more.\<close>

theorem notify_bootstraps_once:
  assumes "0 < k" and "s_open (nst n)" and "s_BootstrapExpect (nst n) = int k"
    and "s_notifyingNodes (nst n) = []" and "\<not> s_bootstrapped (nst n)" and "\<not> HasLeader R n"
    and "list_all (\<lambda>nr. snd (resolvableAddress lookup (nr_Address nr)) = None) nrs"
    and "n' = notify_all lookup ord R nrs n"
  shows "if card (nr_Id ` set nrs) < k then \<not> s_bootstrapped (nst n') \<and> nra n' = nra n
    else s_bootstrapped (nst n') \<and>
      (\<exists>ns. length ns = k \<and> from_requests nrs ns \<and>
         nra n' = snd (r_BootstrapCluster R (voters (ord ns)) (nra n)))"
proof -
  have lead: "fst (r_LeaderWithID R (nra n)) = ''''" using assms(2,6) by (simp add: HasLeader_def)
  have "notify_inv ord R k nrs (nra n) (notify_all lookup ord R nrs n)"
    using assms(7)
  proof (induction nrs rule: rev_induct)
    case Nil
    then show ?case using assms by (simp add: notify_inv_def from_requests_def)
  next
    case (snoc nr nrs)
    then have "notify_inv ord R k nrs (nra n) (notify_all lookup ord R nrs n)"
      and "snd (resolvableAddress lookup (nr_Address nr)) = None" by simp_all
    from notify_inv_step [OF assms(1) this(1) lead this(2)] show ?case by (simp only: notify_all_snoc)
  qed
  then show ?thesis using assms(8) by (auto simp: notify_inv_def)
qed

theorem notify_bootstraps_once_witness:
  "let reqs = [\<lparr>nr_Id = ''a'', nr_Address = ''a:1''\<rparr>, \<lparr>nr_Id = ''a'', nr_Address = ''a:1''\<rparr>,
               \<lparr>nr_Id = ''b'', nr_Address = ''b:1''\<rparr>];
       n = \<lparr>nst = (new_store ''a'' ([] :: string list))\<lparr>s_BootstrapExpect := 2\<rparr>, nra = sample_raft_state RFollower 0 []\<rparr>
   in s_bootstrapped (nst (notify_all (\<lambda>_. None) id sample_raft reqs n))"
proof -
  let ?n = "\<lparr>nst = (new_store ''a'' ([] :: string list))\<lparr>s_BootstrapExpect := 2\<rparr>, nra = sample_raft_state RFollower 0 []\<rparr>"
  have "s_open (nst ?n)" "s_BootstrapExpect (nst ?n) = int 2" "s_notifyingNodes (nst ?n) = []"
    "\<not> s_bootstrapped (nst ?n)" "\<not> HasLeader sample_raft ?n"
    by (simp_all add: new_store_def HasLeader_def sample_raft_def sample_raft_state_def)
  from notify_bootstraps_once [OF _ this, of "\<lambda>_. None" "[\<lparr>nr_Id = ''a'', nr_Address = ''a:1''\<rparr>,
      \<lparr>nr_Id = ''a'', nr_Address = ''a:1''\<rparr>, \<lparr>nr_Id = ''b'', nr_Address = ''b:1''\<rparr>]" _ id]
  show ?thesis by (simp add: resolvableAddress_def)
qed


section \<open>What a join leaves\<close>

text \<open>
  What Raft promises about its configuration: removing an ID drops the server with it; adding an ID
  that is not there appends the server; a configuration with two equal addresses is refused.
\<close>

definition raft_conf_law :: "'r raft_ops \<Rightarrow> bool" where
  "raft_conf_law R \<longleftrightarrow>
   (\<forall>r i r' ss. r_RemoveServer R i r = (None, r') \<longrightarrow> r_GetConfiguration R r = Inr ss \<longrightarrow>
      r_GetConfiguration R r' = Inr (filter (\<lambda>s. rs_ID s \<noteq> i) ss)) \<and>
   (\<forall>r i a r' ss. r_AddVoter R i a r = (None, r') \<longrightarrow> r_GetConfiguration R r = Inr ss \<longrightarrow>
      i \<notin> rs_ID ` set ss \<longrightarrow> a \<notin> rs_Address ` set ss \<and>
      r_GetConfiguration R r' = Inr (ss @ [\<lparr>rs_ID = i, rs_Address = a, rs_Suffrage = Voter\<rparr>])) \<and>
   (\<forall>r i a r' ss. r_AddNonvoter R i a r = (None, r') \<longrightarrow> r_GetConfiguration R r = Inr ss \<longrightarrow>
      i \<notin> rs_ID ` set ss \<longrightarrow> a \<notin> rs_Address ` set ss \<and>
      r_GetConfiguration R r' = Inr (ss @ [\<lparr>rs_ID = i, rs_Address = a, rs_Suffrage = Nonvoter\<rparr>]))"

lemma raft_conf_remove:
  "raft_conf_law R \<Longrightarrow> r_RemoveServer R i r = (None, r') \<Longrightarrow> r_GetConfiguration R r = Inr ss \<Longrightarrow>
   r_GetConfiguration R r' = Inr (filter (\<lambda>s. rs_ID s \<noteq> i) ss)"
  by (rule raft_conf_law_def [THEN iffD1, THEN conjunct1, rule_format])

lemma raft_conf_add:
  "raft_conf_law R \<Longrightarrow> (if v then r_AddVoter R else r_AddNonvoter R) i a r = (None, r') \<Longrightarrow>
   r_GetConfiguration R r = Inr ss \<Longrightarrow> i \<notin> rs_ID ` set ss \<Longrightarrow>
   a \<notin> rs_Address ` set ss \<and> r_GetConfiguration R r' =
     Inr (ss @ [\<lparr>rs_ID = i, rs_Address = a, rs_Suffrage = if v then Voter else Nonvoter\<rparr>])"
  using raft_conf_law_def [THEN iffD1, THEN conjunct2, THEN conjunct1, rule_format, of R i a r r' ss]
    raft_conf_law_def [THEN iffD1, THEN conjunct2, THEN conjunct2, rule_format, of R i a r r' ss]
  by (cases v) simp_all

lemma st_remove_conf:
  assumes "raft_conf_law R" and "r_GetConfiguration R (nra n) = Inr ss" and "st_remove R i n = (Inr u, n1)"
  shows "r_GetConfiguration R (nra n1) = Inr (filter (\<lambda>s. rs_ID s \<noteq> i) ss)"
  using assms(3) raft_conf_remove [OF assms(1) _ assms(2)]
  by (auto simp: st_remove_def split: prod.splits option.splits)

text \<open>A member that joins again is found before anything is removed.\<close>

lemma join_loop_member:
  assumes "distinct (map rs_ID ss)" and "distinct (map rs_Address ss)"
    and "srv \<in> set ss" and "rs_ID srv = i" and "rs_Address srv = a"
  shows "\<exists>n1. join_loop R i a ss n = (Inr True, n1) \<and> nra n1 = nra n"
  using assms by (induction ss arbitrary: n) (auto simp: rev_image_eqI)

text \<open>Otherwise the loop ends with the ID gone from the configuration, if it goes through.\<close>

lemma join_loop_removes:
  assumes "raft_conf_law R" and "join_loop R i a cs n = (Inr b, n1)"
    and "\<forall>s \<in> set cs. \<not> (rs_ID s = i \<and> rs_Address s = a)" and "r_GetConfiguration R (nra n) = Inr ss"
  shows "\<not> b \<and> r_GetConfiguration R (nra n1) =
    Inr (if \<exists>s \<in> set cs. rs_ID s = i \<or> rs_Address s = a then filter (\<lambda>s. rs_ID s \<noteq> i) ss else ss)"
  using assms(2-)
proof (induction cs arbitrary: n ss)
  case (Cons s cs)
  show ?case
  proof (cases "rs_ID s = i \<or> rs_Address s = a")
    case True
    obtain u m where u: "st_remove R i n = (u, m)" by fastforce
    with Cons.prems True obtain x where x: "u = Inr x"
      and rest: "join_loop R i a cs (upd_store (stat ''num_removed_before_joins'') m) = (Inr b, n1)"
      by (cases u) auto
    from Cons.IH [OF rest] Cons.prems(2) st_remove_conf [OF assms(1) Cons.prems(3) u [unfolded x]] True
    show ?thesis by (auto split: if_splits)
  next
    case False
    then show ?thesis using Cons.IH [of n ss] Cons.prems by auto
  qed
qed simp

text \<open>C16: What a successful join leaves. When \<^verbatim>\<open>Join\<close> answers without error, the node is a member
  with the ID and address of the request, every other server is as it was and in the same place, and
  IDs and addresses are still distinct. In particular a join at an address that another ID holds is
  never successful: the loop removes the joining ID, not the server that holds the address.\<close>

theorem join_configuration:
  assumes "raft_conf_law R" and "r_GetConfiguration R (nra n) = Inr ss"
    and "distinct (map rs_ID ss)" and "distinct (map rs_Address ss)"
    and "st_Join lookup R jr n = (Inr u, n')"
  shows "\<exists>ss'. r_GetConfiguration R (nra n') = Inr ss' \<and>
    filter (\<lambda>s. rs_ID s \<noteq> jr_Id jr) ss' = filter (\<lambda>s. rs_ID s \<noteq> jr_Id jr) ss \<and>
    list_ex (\<lambda>s. rs_ID s = jr_Id jr \<and> rs_Address s = jr_Address jr) ss' \<and>
    distinct (map rs_ID ss') \<and> distinct (map rs_Address ss') \<and>
    list_all (\<lambda>s. rs_Address s \<noteq> jr_Address jr \<or> rs_ID s = jr_Id jr) ss"
proof -
  let ?i = "jr_Id jr" and ?a = "jr_Address jr" and ?f = "filter (\<lambda>s. rs_ID s \<noteq> jr_Id jr) ss"
  obtain h e where h: "resolvableAddress lookup ?a = (h, e)" by fastforce
  obtain r n1 where l: "join_loop R ?i ?a ss n = (r, n1)" by fastforce
  obtain ae ra where add: "(if jr_Voter jr then r_AddVoter R else r_AddNonvoter R) ?i ?a (nra n1) = (ae, ra)"
    by fastforce
  have "e = None" using assms(5) h by (cases e) (auto simp: st_Join_def split: if_splits)
  moreover from this obtain b where b: "r = Inr b"
    using assms(2,5) h l by (cases r) (auto simp: st_Join_def split: if_splits)
  ultimately have res: "if b then n' = n1 else ae = None \<and> nra n' = ra"
    using assms(2,5) h l add
    by (cases b; cases ae) (auto simp: st_Join_def split: if_splits)
  show ?thesis
  proof (cases "\<exists>s \<in> set ss. rs_ID s = ?i \<and> rs_Address s = ?a")
    case True
    then obtain s where s: "s \<in> set ss" "rs_ID s = ?i" "rs_Address s = ?a" by blast
    with join_loop_member [OF assms(3,4) s, of R n] l b res have "nra n' = nra n" by auto
    have "rs_ID t = ?i" if "t \<in> set ss" "rs_Address t = ?a" for t
    proof -
      have "t = s" using assms(4) s that unfolding distinct_map
        by (intro inj_onD [of rs_Address "set ss" t s]) auto
      then show ?thesis using s by simp
    qed
    then have "list_all (\<lambda>s. rs_Address s \<noteq> ?a \<or> rs_ID s = ?i) ss" by (auto simp: list_all_iff)
    moreover have "list_ex (\<lambda>s. rs_ID s = ?i \<and> rs_Address s = ?a) ss" using s by (auto simp: list_ex_iff)
    ultimately show ?thesis using assms(2-4) \<open>nra n' = nra n\<close> by (intro exI [of _ ss] conjI) simp_all
  next
    case False
    then have "\<forall>s \<in> set ss. \<not> (rs_ID s = ?i \<and> rs_Address s = ?a)" by blast
    from join_loop_removes [OF assms(1) l [unfolded b] this assms(2)]
    have nb: "\<not> b" and "r_GetConfiguration R (nra n1) =
      Inr (if \<exists>s \<in> set ss. rs_ID s = ?i \<or> rs_Address s = ?a then ?f else ss)" by auto
    moreover have "?f = ss" if "\<not> (\<exists>s \<in> set ss. rs_ID s = ?i \<or> rs_Address s = ?a)"
      using that by (auto simp: filter_id_conv)
    ultimately have conf: "r_GetConfiguration R (nra n1) = Inr ?f" by auto
    from nb res have "ae = None" "nra n' = ra" by auto
    moreover have "?i \<notin> rs_ID ` set ?f" by auto
    ultimately have new: "?a \<notin> rs_Address ` set ?f" and conf': "r_GetConfiguration R (nra n') =
        Inr (?f @ [\<lparr>rs_ID = ?i, rs_Address = ?a, rs_Suffrage = if jr_Voter jr then Voter else Nonvoter\<rparr>])"
      using raft_conf_add [OF assms(1) add [unfolded \<open>ae = None\<close>] conf] by blast+
    show ?thesis
      using conf' new assms(3,4)
      by (intro exI [of _ "?f @ [\<lparr>rs_ID = ?i, rs_Address = ?a,
          rs_Suffrage = if jr_Voter jr then Voter else Nonvoter\<rparr>]"])
        (auto simp: distinct_map_filter list_all_iff image_iff)
  qed
qed


lemma sample_raft_conf_law: "raft_conf_law sample_raft"
  unfolding raft_conf_law_def
  by (auto simp: sample_raft_def sr_add_def Let_def image_iff split: if_splits)

theorem join_configuration_witness:
  "\<exists>n'. st_Join (\<lambda>_. None) sample_raft \<lparr>jr_Id = ''n2'', jr_Address = ''n2:4002'', jr_Voter = True\<rparr>
     \<lparr>nst = new_store ''n1'' ([] :: string list), nra = sample_raft_state RLeader 1 []\<rparr> = (Inr (), n') \<and>
   (\<exists>ss'. r_GetConfiguration sample_raft (nra n') = Inr ss' \<and>
      list_ex (\<lambda>s. rs_ID s = ''n2'' \<and> rs_Address s = ''n2:4002'') ss')"
proof -
  let ?jr = "\<lparr>jr_Id = ''n2'', jr_Address = ''n2:4002'', jr_Voter = True\<rparr>"
  let ?n = "\<lparr>nst = new_store ''n1'' ([] :: string list), nra = sample_raft_state RLeader 1 []\<rparr>"
  let ?ss = "[\<lparr>rs_ID = ''n1'', rs_Address = ''n1:4002'', rs_Suffrage = Voter\<rparr>]"
  have "\<exists>n'. st_Join (\<lambda>_. None) sample_raft ?jr ?n = (Inr (), n')"
    by (simp add: st_Join_def resolvableAddress_def Let_def new_store_def sample_raft_def
        sample_raft_state_def sr_add_def)
  then obtain n' where j: "st_Join (\<lambda>_. None) sample_raft ?jr ?n = (Inr (), n')" by blast
  have c: "r_GetConfiguration sample_raft (nra ?n) = Inr ?ss"
    by (simp add: sample_raft_def sample_raft_state_def)
  from join_configuration [OF sample_raft_conf_law c _ _ j] j show ?thesis by auto
qed

section \<open>Which nodes are reaped\<close>

lemma find_server_sorted:
  "distinct (map srv_ID ss) \<Longrightarrow> s \<in> set ss \<Longrightarrow> find_server (srv_ID s) (sort_key srv_ID ss) = Some s"
proof -
  have "distinct (map srv_ID xs) \<Longrightarrow> s \<in> set xs \<Longrightarrow> find_server (srv_ID s) xs = Some s" for xs
    by (induction xs) (auto simp: rev_image_eqI)
  from this [of "sort_key srv_ID ss"] show "distinct (map srv_ID ss) \<Longrightarrow> s \<in> set ss \<Longrightarrow> ?thesis"
    by (metis distinct_map distinct_sort set_sort)
qed

lemma find_server_None: "i \<notin> srv_ID ` set ss \<Longrightarrow> find_server i ss = None"
  by (induction ss) auto

text \<open>C32: A failed heartbeat reaps exactly the nodes that are out of contact for too long. A server is
  removed from the configuration on such an observation only when it is a member, its last contact is
  further back than the timeout for its kind (read-only or not), that timeout is set, and Raft
  removes it; nothing else of the configuration changes, and a server that satisfies this and that
  Raft agrees to remove is gone.\<close>

theorem reap_exact:
  assumes "raft_conf_law R" and "s_open (nst n)" and "r_GetConfiguration R (nra n) = Inr ss"
    and "distinct (map rs_ID ss)" and "srv \<in> set ss" and "rs_ID srv \<noteq> ''''"
  shows "r_GetConfiguration R (nra (reap R now (rs_ID srv) lastContact n)) =
    (let limit = (if rs_Suffrage srv = Nonvoter then s_ReapReadOnlyTimeout (nst n) else s_ReapTimeout (nst n)) in
     if 0 < limit \<and> limit < now - lastContact then
       (case r_RemoveServer R (rs_ID srv) (nra n) of
          (None, _) \<Rightarrow> Inr (filter (\<lambda>s. rs_ID s \<noteq> rs_ID srv) ss)
        | (Some _, ra) \<Rightarrow> r_GetConfiguration R ra)
     else Inr ss)"
proof -
  let ?n = "upd_store (stat ''failed_heartbeat_observed'') n"
  have nodes: "Nodes R ?n = Inr (sort_key srv_ID (map srv_of ss))" using assms(2,3) by (simp add: Nodes_def)
  have "distinct (map srv_ID (map srv_of ss))" using assms(4) by (simp add: srv_of_def comp_def)
  from find_server_sorted [OF this, of "srv_of srv"] assms(5)
  have f: "find_server (rs_ID srv) (sort_key srv_ID (map srv_of ss)) = Some (srv_of srv)"
    by (simp add: srv_of_def)
  then have "sort_key srv_ID (map srv_of ss) \<noteq> []" by auto
  with f assms(6) have ro: "IsReadOnly (sort_key srv_ID (map srv_of ss)) (rs_ID srv) =
      (rs_Suffrage srv = Nonvoter, True)"
    by (cases "rs_Suffrage srv") (simp_all add: IsReadOnly_def srv_of_def)
  show ?thesis
    using nodes ro assms(3) raft_conf_remove [OF assms(1) _ assms(3)]
    by (auto simp: reap_def Let_def st_remove_def split: prod.splits option.splits)
qed

theorem reap_exact_witness:
  "r_GetConfiguration sample_raft (nra (reap sample_raft 100 ''n1'' 10
     \<lparr>nst = (new_store ''n1'' ([] :: string list))\<lparr>s_ReapTimeout := 50\<rparr>, nra = sample_raft_state RLeader 1 []\<rparr>)) = Inr []"
proof -
  let ?n = "\<lparr>nst = (new_store ''n1'' ([] :: string list))\<lparr>s_ReapTimeout := 50\<rparr>, nra = sample_raft_state RLeader 1 []\<rparr>"
  let ?srv = "\<lparr>rs_ID = ''n1'', rs_Address = ''n1:4002'', rs_Suffrage = Voter\<rparr>"
  have "s_open (nst ?n)" "r_GetConfiguration sample_raft (nra ?n) = Inr [?srv]"
    by (simp_all add: new_store_def sample_raft_def sample_raft_state_def)
  from reap_exact [OF sample_raft_conf_law this, of ?srv 100 10] show ?thesis
    by (simp add: sample_raft_def sample_raft_state_def)
qed


section \<open>Loads and restores\<close>

lemma fsmApply_load:
  assumes "fsmApply C L a s = (Inr r, s')" and "encodes C cmd (l_Data (ap_log a))"
    and "cmd_Type cmd = TYPE_LOAD"
  shows "\<exists>m ps. process_load C L (ap_env a) cmd \<lparr>ps_dm = s_dm s, ps_db = s_db s\<rparr> = (Inr (cmd, m, r), ps) \<and>
    s_db s' = ps_db ps \<and> s_fsmIdx s' = l_Index (ap_log a) \<and>
    s_dbAppliedIdx s' = (if m then l_Index (ap_log a) else s_dbAppliedIdx s)"
proof (cases rule: fsmApply_ok_cases [OF assms(1)])
  case (1 cmd' m ps)
  have p: "process_load C L (ap_env a) cmd \<lparr>ps_dm = s_dm s, ps_db = s_db s\<rparr> = (Inr (cmd', m, r), ps)"
    using 1(1) assms(2,3) by (simp add: Process_def encodesD)
  then have "cmd' = cmd"
    by (auto simp: process_load_def split: sum.splits option.splits prod.splits)
  then show ?thesis using p 1 by blast
qed


lemma st_load_cases:
  assumes "gzip_inverse (gzip C)" and "pb_inverse (pb_Load C) lr" and "\<And>cmd. pb_inverse (pb_Command C) cmd"
    and "raft_apply_law R" and "st_load C L R lr n = (Inr u, n')"
  obtains pre a r0 s0 r cmd where "apply_logs C L pre (nst n) = (Inr r0, s0)"
    and "fsmApply C L a s0 = (Inr r, nst n')" and "encodes C cmd (l_Data (ap_log a))"
    and "cmd_Type cmd = TYPE_LOAD" and "UnmarshalLoadRequest (gzip C) (pb_Load C) (SubCommand cmd) = Inr lr"
proof -
  obtain b where b: "MarshalLoadRequest (gzip C) (pb_Load C) lr = Inr b"
    using assms(5) by (cases "MarshalLoadRequest (gzip C) (pb_Load C) lr") (auto simp: st_load_def)
  let ?cmd = "\<lparr>cmd_Type = TYPE_LOAD, SubCommand = b, Compressed = False\<rparr>"
  obtain data where data: "cmd_Marshal (pb_Command C) ?cmd = Inr data"
    using assms(5) b by (cases "cmd_Marshal (pb_Command C) ?cmd") (auto simp: st_load_def)
  obtain x m where x: "raft_apply C L R data n = (x, m)" by fastforce
  with assms(5) b data obtain idx resp where ra: "raft_apply C L R data n = (Inr (idx, resp), n')"
    by (cases x; cases "projl x") (auto simp: st_load_def)
  obtain pbb where "pb_marshal (pb_Load C) lr = Inr pbb"
    using b by (cases "pb_marshal (pb_Load C) lr") (auto simp: MarshalLoadRequest_def)
  from load_request_roundtrip [OF assms(1,2) this] b
  have "UnmarshalLoadRequest (gzip C) (pb_Load C) (SubCommand ?cmd) = Inr lr" by auto
  moreover have "encodes C ?cmd data" using data assms(3) by (simp add: encodes_def)
  ultimately show thesis
    using raft_apply_cases [OF assms(4) ra] that [of _ _ s0 a _ ?cmd for s0 a] by (metis Command.select_convs(1))
qed



definition bad_load_codecs :: codecs where
  "bad_load_codecs = (sample_codecs \<lparr>cmd_Type = TYPE_LOAD, SubCommand = [31, 5], Compressed = False\<rparr>
     (sample_query LEVEL_NONE) (sample_execute ''x''))\<lparr>pb_Load := sample_pb \<lparr>lr_Data = [0]\<rparr> [5]\<rparr>"


text \<open>A restore is attempted once. When a node that was started with a file to restore first learns
  who leads, the attempt is made if it is itself the leader and skipped otherwise; in both cases the
  path is cleared and the waiters are released; a skipped restore leaves database and Raft alone; and
  whatever leadership changes follow, no further attempt is made.\<close>

theorem auto_restore_once:
  assumes "s_restorePath (nst n) \<noteq> ''''"
  shows "let m = selfLeaderChange C L R fs leader n in
    s_restorePath (nst m) = '''' \<and> s_restoreDone (nst m) \<and>
    (if leader then
        s_db (nst m) = s_db (nst (snd (installRestore C L R (fs (s_restorePath (nst n))) n))) \<and>
        nra m = nra (snd (installRestore C L R (fs (s_restorePath (nst n))) n))
     else s_db (nst m) = s_db (nst n) \<and> nra m = nra n) \<and>
    fold (\<lambda>b. selfLeaderChange C L R fs b) bs m = m"
proof -
  obtain m where m: "selfLeaderChange C L R fs leader n = m" by simp
  have cleared: "s_restorePath (nst m) = ''''" "s_restoreDone (nst m)"
    using assms m by (auto simp: selfLeaderChange_def Let_def)
  then have idle: "fold (\<lambda>b. selfLeaderChange C L R fs b) bs m = m"
    by (induction bs) (simp_all add: selfLeaderChange_def)
  show ?thesis
  proof (cases leader)
    case True
    then show ?thesis using assms m cleared idle
      by (cases "installRestore C L R (fs (s_restorePath (nst n))) n")
        (auto simp: selfLeaderChange_def Let_def split: sum.splits)
  next
    case False
    then show ?thesis using assms m cleared idle by (auto simp: selfLeaderChange_def Let_def)
  qed
qed

theorem auto_restore_once_witness:
  "let n = \<lparr>nst = (new_store ''n1'' ([] :: string list))\<lparr>s_restorePath := ''/r''\<rparr>, nra = sample_raft_state RFollower 1 []\<rparr>;
       m = selfLeaderChange noop_codecs sample_lib sample_raft (\<lambda>_. Inl ''no such file'') False n
   in s_restorePath (nst n) \<noteq> '''' \<and> s_restoreDone (nst m) \<and>
      fold (\<lambda>b. selfLeaderChange noop_codecs sample_lib sample_raft (\<lambda>_. Inl ''no such file'') b) [True, False] m = m"
proof -
  let ?n = "\<lparr>nst = (new_store ''n1'' ([] :: string list))\<lparr>s_restorePath := ''/r''\<rparr>, nra = sample_raft_state RFollower 1 []\<rparr>"
  have "s_restorePath (nst ?n) \<noteq> ''''" by simp
  from auto_restore_once [OF this, of noop_codecs sample_lib sample_raft "\<lambda>_. Inl ''no such file''" False "[True, False]"]
  show ?thesis unfolding Let_def by simp
qed

end
