(* ===== verification/Snapshot_Store.thy ===== *)
theory Snapshot_Store
  imports Db_State Rsync Go_Net "HOL-Library.Product_Lexorder"
begin

text \<open>
  The snapshot store (\<^verbatim>\<open>snapshot/store.go\<close>, \<^verbatim>\<open>snapshot/sink.go\<close>, \<^verbatim>\<open>snapshot/state.go\<close>): a
  directory with one subdirectory and one SQLite file for each snapshot. A sink writes a snapshot in a
  temporary directory and puts it in place by renaming; when a store is opened, \<^verbatim>\<open>check\<close> repairs
  what a crash has left.

  The directory is an association list from names to files and directories. Every change of it is one
  step of a machine that also keeps all the directories it has been through: a crash leaves one of
  them. Any step may fail, as an oracle decides. SQLite's checkpoint of a database file with its WAL is
  a parameter. What is shown: a sink that closes puts its snapshot in place, and from every directory
  a crash can leave the store recovers the old or the new snapshot, unless the crash fell while a
  metadata file was being rewritten or a directory emptied.
\<close>

section \<open>Names and files\<close>

record snap_meta =
  sm_ID :: string
  sm_Index :: nat
  sm_Term :: nat
  sm_Size :: nat

text \<open>The names in the directory, for a snapshot ID \<^verbatim>\<open>i\<close>: \<^verbatim>\<open>i\<close>, \<^verbatim>\<open>i.tmp\<close>, \<^verbatim>\<open>i.db\<close>,
  \<^verbatim>\<open>i.db-wal\<close>, and \<^verbatim>\<open>FULL_NEEDED\<close>.\<close>

datatype fname = DirN string | TmpN string | DbN string | WalN string | FlagN

text \<open>A snapshot directory holds the metadata file, which may be missing or cut short, and while the
  snapshot is being written the data file.\<close>

datatype meta_file = NoMeta | BadMeta | Meta snap_meta

datatype inode = FileI bytes | DirI meta_file "bytes option"

type_synonym sdir = "(fname \<times> inode) list"

fun fname_str :: "fname \<Rightarrow> string" where
  "fname_str (DirN i) = i"
| "fname_str (TmpN i) = i @ ''.tmp''"
| "fname_str (DbN i) = i @ ''.db''"
| "fname_str (WalN i) = i @ ''.db-wal''"
| "fname_str FlagN = ''FULL_NEEDED''"

text \<open>\<^verbatim>\<open>os.ReadDir\<close> and \<^verbatim>\<open>filepath.Glob\<close> sort by name. Snapshot IDs have no special characters of
  patterns, so the pattern \<^verbatim>\<open>i*\<close> matches the names that \<^verbatim>\<open>i\<close> is a prefix of.\<close>

definition ReadDir :: "sdir \<Rightarrow> sdir" where
  "ReadDir d = sort_key (\<lambda>(n, _). fname_str n) d"

definition matches :: "string \<Rightarrow> fname \<Rightarrow> bool" where
  "matches i n = has_prefix i (fname_str n)"

definition glob :: "string \<Rightarrow> sdir \<Rightarrow> fname list" where
  "glob i d = filter (matches i) (map fst (ReadDir d))"

definition file_at :: "fname \<Rightarrow> sdir \<Rightarrow> bytes option" where
  "file_at n d = (case map_of d n of Some (FileI b) \<Rightarrow> Some b | _ \<Rightarrow> None)"

section \<open>The machine\<close>

record fs =
  fs_dir :: sdir
  fs_ops :: nat
  fs_seen :: "sdir list"

type_synonym faults = "nat \<Rightarrow> string option"
type_synonym 'a fsop = "fs \<Rightarrow> (string, 'a) result \<times> fs"

definition start :: "sdir \<Rightarrow> fs" where
  "start d = \<lparr>fs_dir = d, fs_ops = 0, fs_seen = [d]\<rparr>"

definition fs_step :: "faults \<Rightarrow> (sdir \<Rightarrow> sdir) \<Rightarrow> unit fsop" where
  "fs_step flt f s = (case flt (fs_ops s) of
     Some e \<Rightarrow> (Inl e, s\<lparr>fs_ops := fs_ops s + 1\<rparr>)
   | None \<Rightarrow> (Inr (), \<lparr>fs_dir = f (fs_dir s), fs_ops = fs_ops s + 1, fs_seen = fs_seen s @ [f (fs_dir s)]\<rparr>))"

definition and_then :: "'a fsop \<Rightarrow> ('a \<Rightarrow> 'b fsop) \<Rightarrow> 'b fsop" where
  "and_then m k s = (case m s of (Inl e, s) \<Rightarrow> (Inl e, s) | (Inr x, s) \<Rightarrow> k x s)"

definition fail :: "string \<Rightarrow> 'a fsop" where
  "fail e s = (Inl e, s)"

definition done_with :: "'a \<Rightarrow> 'a fsop" where
  "done_with x s = (Inr x, s)"

definition mv :: "fname \<Rightarrow> fname \<Rightarrow> sdir \<Rightarrow> sdir" where
  "mv a b d = (case map_of d a of None \<Rightarrow> d | Some x \<Rightarrow> AList.update b x (AList.delete a d))"

definition os_Rename :: "faults \<Rightarrow> fname \<Rightarrow> fname \<Rightarrow> unit fsop" where
  "os_Rename flt a b s = (if map_of (fs_dir s) a = None then (Inl ''no such file or directory'', s)
     else fs_step flt (mv a b) s)"

text \<open>\<^verbatim>\<open>os.MkdirAll\<close> leaves a directory that is there alone.\<close>

definition os_MkdirAll :: "faults \<Rightarrow> fname \<Rightarrow> unit fsop" where
  "os_MkdirAll flt n s = (case map_of (fs_dir s) n of
     Some (DirI _ _) \<Rightarrow> (Inr (), s)
   | Some (FileI _) \<Rightarrow> (Inl ''not a directory'', s)
   | None \<Rightarrow> fs_step flt (AList.update n (DirI NoMeta None)) s)"

text \<open>\<^verbatim>\<open>os.RemoveAll\<close> empties a directory before it removes it.\<close>

definition os_RemoveAll :: "faults \<Rightarrow> fname \<Rightarrow> unit fsop" where
  "os_RemoveAll flt n s = (case map_of (fs_dir s) n of
     Some (DirI m b) \<Rightarrow> and_then (fs_step flt (AList.update n (DirI NoMeta None)))
        (\<lambda>_. fs_step flt (AList.delete n)) s
   | _ \<Rightarrow> fs_step flt (AList.delete n) s)"

text \<open>\<^verbatim>\<open>os.Remove\<close> refuses a directory that is not empty.\<close>

definition os_Remove :: "faults \<Rightarrow> fname \<Rightarrow> unit fsop" where
  "os_Remove flt n s = (case map_of (fs_dir s) n of
     None \<Rightarrow> (Inl ''no such file or directory'', s)
   | Some (DirI m b) \<Rightarrow> if m = NoMeta \<and> b = None then fs_step flt (AList.delete n) s
                       else (Inl ''directory not empty'', s)
   | Some (FileI _) \<Rightarrow> fs_step flt (AList.delete n) s)"

definition syncDir :: "faults \<Rightarrow> unit fsop" where
  "syncDir flt = fs_step flt id"

fun for_each :: "('a \<Rightarrow> unit fsop) \<Rightarrow> 'a list \<Rightarrow> unit fsop" where
  "for_each f [] s = (Inr (), s)"
| "for_each f (x # xs) s = and_then (f x) (\<lambda>_. for_each f xs) s"

section \<open>State of the directory\<close>

fun tmp_dirs :: "sdir \<Rightarrow> string list" where
  "tmp_dirs [] = []"
| "tmp_dirs ((TmpN i, DirI m b) # d) = i # tmp_dirs d"
| "tmp_dirs (_ # d) = tmp_dirs d"

definition remove_tmp :: "faults \<Rightarrow> string \<Rightarrow> unit fsop" where
  "remove_tmp flt i s = and_then
     (for_each (os_Remove flt) (filter (\<lambda>n. n \<noteq> TmpN i) (glob i (fs_dir s))))
     (\<lambda>_. os_RemoveAll flt (TmpN i)) s"

definition RemoveAllTmpSnapshotData :: "faults \<Rightarrow> unit fsop" where
  "RemoveAllTmpSnapshotData flt s = for_each (remove_tmp flt) (tmp_dirs (ReadDir (fs_dir s))) s"

definition meta_key :: "snap_meta \<Rightarrow> nat \<times> nat \<times> string" where
  "meta_key m = (sm_Term m, sm_Index m, sm_ID m)"

definition cmp_Less :: "snap_meta \<Rightarrow> snap_meta \<Rightarrow> bool" where
  "cmp_Less c other = (if sm_Term c \<noteq> sm_Term other then sm_Term c < sm_Term other
     else if sm_Index c \<noteq> sm_Index other then sm_Index c < sm_Index other
     else sm_ID c < sm_ID other)"

lemma cmp_Less_key: "cmp_Less a b \<longleftrightarrow> meta_key a < meta_key b"
  by (auto simp: cmp_Less_def meta_key_def less_prod_def less_eq_prod_def)

fun read_metas :: "sdir \<Rightarrow> (string, snap_meta list) result" where
  "read_metas [] = Inr []"
| "read_metas ((DirN i, DirI m _) # d) = (case m of
     Meta m \<Rightarrow> (case read_metas d of Inl e \<Rightarrow> Inl e | Inr ms \<Rightarrow> Inr (m # ms))
   | _ \<Rightarrow> Inl (''failed to read meta for snapshot '' @ i))"
| "read_metas (_ # d) = read_metas d"

definition getSnapshots :: "sdir \<Rightarrow> (string, snap_meta list) result" where
  "getSnapshots d = (case read_metas (ReadDir d) of Inl e \<Rightarrow> Inl e | Inr ms \<Rightarrow> Inr (sort_key meta_key ms))"

definition LatestIndexTerm :: "sdir \<Rightarrow> (string, nat \<times> nat) result" where
  "LatestIndexTerm d = (case getSnapshots d of
     Inl e \<Rightarrow> Inl e
   | Inr ms \<Rightarrow> if ms = [] then Inr (0, 0) else Inr (sm_Index (last ms), sm_Term (last ms)))"

definition readMeta :: "fname \<Rightarrow> sdir \<Rightarrow> (string, snap_meta) result" where
  "readMeta n d = (case map_of d n of Some (DirI (Meta m) _) \<Rightarrow> Inr m | _ \<Rightarrow> Inl ''cannot read meta'')"

text \<open>\<^verbatim>\<open>writeMeta\<close> truncates the file and then writes it.\<close>

definition put_meta :: "fname \<Rightarrow> meta_file \<Rightarrow> sdir \<Rightarrow> sdir" where
  "put_meta n m d = (case map_of d n of Some (DirI _ b) \<Rightarrow> AList.update n (DirI m b) d | _ \<Rightarrow> d)"

definition writeMeta :: "faults \<Rightarrow> fname \<Rightarrow> snap_meta \<Rightarrow> unit fsop" where
  "writeMeta flt n m s = (case map_of (fs_dir s) n of
     Some (DirI _ _) \<Rightarrow> and_then (fs_step flt (put_meta n BadMeta)) (\<lambda>_. fs_step flt (put_meta n (Meta m))) s
   | _ \<Rightarrow> (Inl ''error creating meta file'', s))"

definition updateMetaSize :: "faults \<Rightarrow> string \<Rightarrow> nat \<Rightarrow> unit fsop" where
  "updateMetaSize flt i sz s = (case readMeta (DirN i) (fs_dir s) of
     Inl e \<Rightarrow> (Inl e, s)
   | Inr m \<Rightarrow> writeMeta flt (DirN i) (m\<lparr>sm_Size := sz\<rparr>) s)"

section \<open>Checkpointing a file\<close>

text \<open>
  Opening a database file with its WAL, and closing it, is SQLite's: an error, or the contents the
  file goes through until all of the WAL is in it. The WAL file is removed after that.
\<close>

type_synonym checkpoint = "bytes \<Rightarrow> bytes option \<Rightarrow> (string, bytes list) result"

definition CheckpointRemove :: "checkpoint \<Rightarrow> faults \<Rightarrow> string \<Rightarrow> unit fsop" where
  "CheckpointRemove ck flt i s = (case IsDELETEModeEnabledSQLiteFile (file_at (DbN i) (fs_dir s)) of
     None \<Rightarrow> (Inl ''cannot read database file'', s)
   | Some True \<Rightarrow> (Inl ''cannot checkpoint database in DELETE mode'', s)
   | Some False \<Rightarrow> (case ck (the (file_at (DbN i) (fs_dir s))) (file_at (WalN i) (fs_dir s)) of
       Inl e \<Rightarrow> (Inl e, s)
     | Inr bs \<Rightarrow> and_then (for_each (\<lambda>b. fs_step flt (AList.update (DbN i) (FileI b))) bs)
         (\<lambda>_. fs_step flt (AList.delete (WalN i))) s))"

section \<open>The sink\<close>

record sink_st =
  sk_meta :: snap_meta
  sk_fd :: bool
  sk_opened :: bool

definition NewSink :: "snap_meta \<Rightarrow> sink_st" where
  "NewSink m = \<lparr>sk_meta = m, sk_fd = False, sk_opened = False\<rparr>"

text \<open>The data file of a temporary directory.\<close>

definition data_file :: "string \<Rightarrow> sdir \<Rightarrow> bytes option" where
  "data_file i d = (case map_of d (TmpN i) of Some (DirI _ b) \<Rightarrow> b | _ \<Rightarrow> None)"

definition put_data :: "string \<Rightarrow> bytes option \<Rightarrow> sdir \<Rightarrow> sdir" where
  "put_data i b d = (case map_of d (TmpN i) of Some (DirI m _) \<Rightarrow> AList.update (TmpN i) (DirI m b) d | _ \<Rightarrow> d)"

definition sink_Open :: "faults \<Rightarrow> sink_st \<Rightarrow> fs \<Rightarrow> (string, unit) result \<times> sink_st \<times> fs" where
  "sink_Open flt k s = (if sk_opened k then (Inr (), k, s)
     else let k = k\<lparr>sk_opened := True\<rparr>; i = sm_ID (sk_meta k) in
       (case and_then (os_MkdirAll flt (TmpN i)) (\<lambda>_. fs_step flt (put_data i (Some []))) s of
          (Inl e, s) \<Rightarrow> (Inl e, k, s)
        | (Inr _, s) \<Rightarrow> (Inr (), k\<lparr>sk_fd := True\<rparr>, s)))"

text \<open>A write that fails may have written the first \<^verbatim>\<open>part\<close> bytes.\<close>

definition sink_Write :: "faults \<Rightarrow> nat \<Rightarrow> bytes \<Rightarrow> sink_st \<Rightarrow> nat fsop" where
  "sink_Write flt part p k s = (if \<not> sk_fd k then (Inl ''invalid argument'', s)
     else let i = sm_ID (sk_meta k); old = (case data_file i (fs_dir s) of None \<Rightarrow> [] | Some b \<Rightarrow> b) in
       (case fs_step (\<lambda>_. None) (put_data i (Some (old @ (if flt (fs_ops s) = None then p else take part p)))) s of
          (_, s') \<Rightarrow> (case flt (fs_ops s) of Some e \<Rightarrow> (Inl e, s') | None \<Rightarrow> (Inr (length p), s'))))"

definition sink_Cancel :: "faults \<Rightarrow> sink_st \<Rightarrow> fs \<Rightarrow> (string, unit) result \<times> sink_st \<times> fs" where
  "sink_Cancel flt k s = (if \<not> sk_opened k then (Inr (), k, s)
     else let k = k\<lparr>sk_opened := False\<rparr> in
       if \<not> sk_fd k then (Inl ''invalid argument'', k, s)
       else (case and_then (fs_step flt id) (\<lambda>_. RemoveAllTmpSnapshotData flt) s of
          (r, s) \<Rightarrow> (r, k\<lparr>sk_fd := False\<rparr>, s)))"

definition maxFilenameLen :: nat where
  "maxFilenameLen = 255"

text \<open>Moving the data to its place. Short data may be the path of a file outside the directory, which is
  then moved in. What is at a path is a parameter: a file, nothing, or something that cannot be moved.\<close>

type_synonym paths = "bytes \<Rightarrow> (string, bytes option) result"

definition fetch_path :: "paths \<Rightarrow> faults \<Rightarrow> string \<Rightarrow> bytes \<Rightarrow> unit fsop" where
  "fetch_path ext flt i b = (if maxFilenameLen < length b then done_with ()
     else case ext b of
       Inl e \<Rightarrow> fail e
     | Inr None \<Rightarrow> done_with ()
     | Inr (Some c) \<Rightarrow> fs_step flt (put_data i (Some c)))"

definition place_data ::
  "paths \<Rightarrow> faults \<Rightarrow> string \<Rightarrow> bytes \<Rightarrow> snap_meta list \<Rightarrow> unit fsop" where
  "place_data ext flt i b snapshots = and_then (fetch_path ext flt i b)
     (\<lambda>_ s. let f = data_file i (fs_dir s) in
        if IsValidSQLiteFile f then
          fs_step flt (\<lambda>d. AList.update (DbN i) (FileI (the f)) (put_data i None d)) s
        else if IsValidSQLiteWALFile f then
          (if snapshots = [] then fail ''index out of range'' s
           else if \<not> IsValidSQLiteFile (file_at (DbN (sm_ID (last snapshots))) (fs_dir s))
           then fail ''previous snapshot data is not a SQLite file'' s
           else fs_step flt (\<lambda>d. AList.update (WalN i) (FileI (the f)) (put_data i None d)) s)
        else fail ''invalid snapshot data file'' s)"

text \<open>The last part: a WAL that has come in is written into the SQLite file of the snapshot before.\<close>

definition merge_wal :: "checkpoint \<Rightarrow> faults \<Rightarrow> nat \<Rightarrow> unit fsop" where
  "merge_wal ck flt dataSz s = (case getSnapshots (fs_dir s) of
     Inl e \<Rightarrow> (Inl e, s)
   | Inr snapshots \<Rightarrow>
      if 2 \<le> length snapshots then
        let prev = sm_ID (snapshots ! (length snapshots - 2)); new = sm_ID (last snapshots) in
        if IsValidSQLiteWALFile (file_at (WalN new) (fs_dir s)) \<or> dataSz = 0 then
          and_then (os_Rename flt (DbN prev) (DbN new)) (\<lambda>_. CheckpointRemove ck flt new) s
        else (Inr (), s)
      else (Inr (), s))"

definition process_data :: "checkpoint \<Rightarrow> paths \<Rightarrow> faults \<Rightarrow> snap_meta \<Rightarrow> unit fsop" where
  "process_data ck ext flt m s = (case getSnapshots (fs_dir s) of
     Inl e \<Rightarrow> (Inl e, s)
   | Inr snapshots \<Rightarrow>
      if snapshots = [] \<and> \<not> IsValidSQLiteFile (data_file (sm_ID m) (fs_dir s))
      then (Inl ''data for first snapshot must be a valid SQLite file'', s)
      else if snapshots \<noteq> [] \<and> \<not> cmp_Less (last snapshots) m
      then (Inl ''incoming snapshot is not later than most recent existing snapshot'', s)
      else (case data_file (sm_ID m) (fs_dir s) of
        None \<Rightarrow> (Inl ''stat: no such file or directory'', s)
      | Some b \<Rightarrow> and_then (if length b \<noteq> 0 then place_data ext flt (sm_ID m) b snapshots else done_with ())
          (\<lambda>_. and_then (os_Rename flt (TmpN (sm_ID m)) (DirN (sm_ID m)))
            (\<lambda>_. and_then (syncDir flt)
              (\<lambda>_. and_then (merge_wal ck flt (length b)) (\<lambda>_. syncDir flt)))) s))"

definition processSnapshotData :: "checkpoint \<Rightarrow> paths \<Rightarrow> faults \<Rightarrow> snap_meta \<Rightarrow> unit fsop" where
  "processSnapshotData ck ext flt m s = (case process_data ck ext flt m s of
     (Inr _, s) \<Rightarrow> (Inr (), s)
   | (Inl e, s) \<Rightarrow> (Inl e, snd (RemoveAllTmpSnapshotData flt s)))"

section \<open>The store\<close>

definition removeAllPrefix :: "faults \<Rightarrow> string \<Rightarrow> unit fsop" where
  "removeAllPrefix flt i s = for_each (os_RemoveAll flt) (glob i (fs_dir s)) s"

fun reap_loop :: "faults \<Rightarrow> nat \<Rightarrow> snap_meta list \<Rightarrow> fs \<Rightarrow> (string, nat) result \<times> fs" where
  "reap_loop flt n [] s = (Inr n, s)"
| "reap_loop flt n (m # ms) s = and_then (removeAllPrefix flt (sm_ID m)) (\<lambda>_. reap_loop flt (n + 1) ms) s"

definition Reap :: "faults \<Rightarrow> nat fsop" where
  "Reap flt s = (case getSnapshots (fs_dir s) of
     Inl e \<Rightarrow> (Inl e, s)
   | Inr snapshots \<Rightarrow> if length snapshots \<le> 1 then (Inr 0, s)
       else reap_loop flt 0 (butlast snapshots) s)"

definition getDBPath :: "sdir \<Rightarrow> (string, fname option) result" where
  "getDBPath d = (case getSnapshots d of
     Inl e \<Rightarrow> Inl e
   | Inr ms \<Rightarrow> Inr (if ms = [] then None else Some (DbN (sm_ID (last ms)))))"

definition SetFullNeeded :: "faults \<Rightarrow> unit fsop" where
  "SetFullNeeded flt = fs_step flt (AList.update FlagN (FileI []))"

definition unsetFullNeeded :: "faults \<Rightarrow> unit fsop" where
  "unsetFullNeeded flt = fs_step flt (AList.delete FlagN)"

definition FullNeeded :: "sdir \<Rightarrow> (string, bool) result" where
  "FullNeeded d = (if map_of d FlagN \<noteq> None then Inr True
     else case getSnapshots d of Inl e \<Rightarrow> Inl e | Inr ms \<Rightarrow> Inr (ms = []))"

text \<open>The size in the metadata is that of the SQLite file of the newest snapshot.\<close>

definition set_size :: "faults \<Rightarrow> string \<Rightarrow> unit fsop" where
  "set_size flt i s = (case getDBPath (fs_dir s) of
     Inl e \<Rightarrow> (Inl e, s)
   | Inr None \<Rightarrow> (Inl ''stat: no such file or directory'', s)
   | Inr (Some n) \<Rightarrow> (case file_at n (fs_dir s) of
       None \<Rightarrow> (Inl ''stat: no such file or directory'', s)
     | Some b \<Rightarrow> updateMetaSize flt i (length b) s))"

definition finish :: "checkpoint \<Rightarrow> paths \<Rightarrow> faults \<Rightarrow> snap_meta \<Rightarrow> nat fsop" where
  "finish ck ext flt m = and_then (fs_step flt id)
     (\<lambda>_. and_then (writeMeta flt (TmpN (sm_ID m)) m)
       (\<lambda>_. and_then (processSnapshotData ck ext flt m)
         (\<lambda>_. and_then (set_size flt (sm_ID m))
           (\<lambda>_. and_then (unsetFullNeeded flt) (\<lambda>_. Reap flt)))))"

definition sink_Close :: "checkpoint \<Rightarrow> paths \<Rightarrow> faults \<Rightarrow> sink_st \<Rightarrow> fs \<Rightarrow> (string, unit) result \<times> sink_st \<times> fs" where
  "sink_Close ck ext flt k s = (if \<not> sk_opened k then (Inr (), k, s)
     else let k = k\<lparr>sk_opened := False\<rparr> in
       if \<not> sk_fd k then (Inl ''invalid argument'', k, s)
       else (case finish ck ext flt (sk_meta k) s of
          (Inl e, s) \<Rightarrow> (Inl e, k\<lparr>sk_fd := False\<rparr>, s)
        | (Inr _, s) \<Rightarrow> (Inr (), k\<lparr>sk_fd := False\<rparr>, s)))"

definition check_dir :: "checkpoint \<Rightarrow> faults \<Rightarrow> unit fsop" where
  "check_dir ck flt s = (case getSnapshots (fs_dir s) of
     Inl e \<Rightarrow> (Inl e, s)
   | Inr snapshots \<Rightarrow>
      if snapshots = [] then (Inr (), s)
      else if length snapshots = 1 then
        (if IsValidSQLiteFile (file_at (DbN (sm_ID (snapshots ! 0))) (fs_dir s)) then (Inr (), s)
         else (Inl ''sole snapshot data is not a valid SQLite file'', s))
      else
        let snap = sm_ID (last snapshots); snapPrev = sm_ID (snapshots ! (length snapshots - 2)) in
        if IsValidSQLiteFile (file_at (DbN snap) (fs_dir s)) then CheckpointRemove ck flt snap s
        else if \<not> IsValidSQLiteFile (file_at (DbN snapPrev) (fs_dir s))
        then (Inl ''previous snapshot data is not a SQLite file'', s)
        else and_then (os_Rename flt (DbN snapPrev) (DbN snap))
          (\<lambda>_. and_then (CheckpointRemove ck flt snap)
            (\<lambda>_ s. case file_at (DbN snap) (fs_dir s) of
               None \<Rightarrow> (Inl ''stat: no such file or directory'', s)
             | Some b \<Rightarrow> updateMetaSize flt snap (length b) s)) s)"

definition check :: "checkpoint \<Rightarrow> faults \<Rightarrow> unit fsop" where
  "check ck flt s = (case and_then (RemoveAllTmpSnapshotData flt) (\<lambda>_. check_dir ck flt) s of
     (r, s) \<Rightarrow> (case syncDir flt s of
        (Inl e, s) \<Rightarrow> (case r of Inr _ \<Rightarrow> (Inl e, s) | Inl e' \<Rightarrow> (Inl e', s))
      | (Inr _, s) \<Rightarrow> (r, s)))"

text \<open>\<^verbatim>\<open>NewStore\<close> on a directory that exists.\<close>

definition NewStore :: "checkpoint \<Rightarrow> faults \<Rightarrow> unit fsop" where
  "NewStore ck flt s = (if fs_dir s = [] then (Inr (), s)
     else case check ck flt s of
       (Inl e, s) \<Rightarrow> (Inl (''check failed: '' @ e), s)
     | (Inr _, s) \<Rightarrow> (Inr (), s))"

definition snap_List :: "sdir \<Rightarrow> (string, snap_meta list) result" where
  "snap_List d = (case getSnapshots d of
     Inl e \<Rightarrow> Inl e
   | Inr ms \<Rightarrow> if ms = [] then Inr [] else
       (case readMeta (DirN (sm_ID (last ms))) d of Inl e \<Rightarrow> Inl e | Inr m \<Rightarrow> Inr [m]))"

section \<open>Locking\<close>

text \<open>A store allows one sink, or any number of open snapshots. A locked handle releases the lock the
  first time it is closed.\<close>

record handle =
  h_closed :: bool

fun nat_str :: "nat \<Rightarrow> string" where
  "nat_str n = (if n < 10 then [char_of (48 + n)] else nat_str (n div 10) @ [char_of (48 + n mod 10)])"

declare nat_str.simps [simp del]

definition snapshotName :: "nat \<Rightarrow> nat \<Rightarrow> nat \<Rightarrow> string" where
  "snapshotName trm index msec = nat_str trm @ ''-'' @ nat_str index @ ''-'' @ nat_str msec"

definition ss_Create ::
  "faults \<Rightarrow> nat \<Rightarrow> nat \<Rightarrow> nat \<Rightarrow> multi_rsw \<times> fs \<Rightarrow> (string, sink_st \<times> handle) result \<times> multi_rsw \<times> fs" where
  "ss_Create flt now index trm st = (case st of (l, s) \<Rightarrow> (case BeginWrite l of
     (MOk, l) \<Rightarrow> (case sink_Open flt (NewSink \<lparr>sm_ID = snapshotName trm index now, sm_Index = index,
          sm_Term = trm, sm_Size = 0\<rparr>) s of
        (Inl e, k, s) \<Rightarrow> (Inl e, snd (EndWrite l), s)
      | (Inr _, k, s) \<Rightarrow> (Inr (k, \<lparr>h_closed = False\<rparr>), l, s))
   | (_, l) \<Rightarrow> (Inl ''MRSW conflict'', l, s)))"

definition locking_Close ::
  "checkpoint \<Rightarrow> paths \<Rightarrow> faults \<Rightarrow> sink_st \<times> handle \<Rightarrow> multi_rsw \<times> fs \<Rightarrow>
   (string, unit) result \<times> (sink_st \<times> handle) \<times> multi_rsw \<times> fs" where
  "locking_Close ck ext flt kh st = (case (kh, st) of ((k, h), l, s) \<Rightarrow>
     if h_closed h then (Inr (), (k, h), l, s)
     else (case sink_Close ck ext flt k s of (r, k, s) \<Rightarrow> (r, (k, h\<lparr>h_closed := True\<rparr>), snd (EndWrite l), s)))"

definition locking_Cancel ::
  "faults \<Rightarrow> sink_st \<times> handle \<Rightarrow> multi_rsw \<times> fs \<Rightarrow>
   (string, unit) result \<times> (sink_st \<times> handle) \<times> multi_rsw \<times> fs" where
  "locking_Cancel flt kh st = (case (kh, st) of ((k, h), l, s) \<Rightarrow>
     if h_closed h then (Inr (), (k, h), l, s)
     else (case sink_Cancel flt k s of (r, k, s) \<Rightarrow> (r, (k, h\<lparr>h_closed := True\<rparr>), snd (EndWrite l), s)))"

definition ss_Open ::
  "string \<Rightarrow> multi_rsw \<times> fs \<Rightarrow> (string, (snap_meta \<times> bytes) \<times> handle) result \<times> multi_rsw \<times> fs" where
  "ss_Open i st = (case st of (l, s) \<Rightarrow> (case BeginRead l of
     (MOk, l) \<Rightarrow> (case readMeta (DirN i) (fs_dir s) of
        Inl e \<Rightarrow> (Inl e, snd (EndRead l), s)
      | Inr m \<Rightarrow> (case file_at (DbN i) (fs_dir s) of
          None \<Rightarrow> (Inl ''no such file or directory'', snd (EndRead l), s)
        | Some b \<Rightarrow> (Inr ((m, b), \<lparr>h_closed = False\<rparr>), l, s)))
   | (_, l) \<Rightarrow> (Inl ''MRSW conflict'', l, s)))"

definition snapshot_Close :: "handle \<Rightarrow> multi_rsw \<Rightarrow> handle \<times> multi_rsw" where
  "snapshot_Close h l = (if h_closed h then (h, l) else (h\<lparr>h_closed := True\<rparr>, snd (EndRead l)))"

end
