(* ===== verification/Bytes_IO.thy ===== *)
theory Bytes_IO
  imports Rq_Prelude
begin

unbundle bit_operations_syntax

text \<open>
  What the sources use of Go's \<^verbatim>\<open>encoding/binary\<close> and \<^verbatim>\<open>io\<close> packages: 32-bit
  integers in either byte order, \<^verbatim>\<open>io.ReadFull\<close> and \<^verbatim>\<open>Seek\<close> on a file, and
  \<^verbatim>\<open>Write\<close> to a bounded sink. A file is its contents, a position and, optionally, the
  offset of the first byte that cannot be read; a sink accepts a bounded number of bytes. Both
  bounds make the error branches of the callers reachable.
\<close>

section \<open>Byte order\<close>

datatype byte_order = LittleEndian | BigEndian

fun be_uint32 :: "bytes \<Rightarrow> u32" where
  "be_uint32 (b0 # b1 # b2 # b3 # bs) =
     push_bit 24 (ucast b0) OR push_bit 16 (ucast b1) OR push_bit 8 (ucast b2) OR ucast b3"
| "be_uint32 bs = 0"

fun le_uint32 :: "bytes \<Rightarrow> u32" where
  "le_uint32 (b0 # b1 # b2 # b3 # bs) =
     push_bit 24 (ucast b3) OR push_bit 16 (ucast b2) OR push_bit 8 (ucast b1) OR ucast b0"
| "le_uint32 bs = 0"

definition bo_uint32 :: "byte_order \<Rightarrow> bytes \<Rightarrow> u32" where
  "bo_uint32 bo b = (case bo of LittleEndian \<Rightarrow> le_uint32 b | BigEndian \<Rightarrow> be_uint32 b)"

definition be_put32 :: "u32 \<Rightarrow> bytes" where
  "be_put32 v = [ucast (drop_bit 24 v), ucast (drop_bit 16 v), ucast (drop_bit 8 v), ucast v]"

lemma length_be_put32 [simp]: "length (be_put32 v) = 4"
  by (simp add: be_put32_def)

lemma be_put32_not_Nil [simp]: "be_put32 v \<noteq> []"
  by (simp add: be_put32_def)

lemma be_uint32_put32 [simp, codec_simps]: "be_uint32 (be_put32 v @ bs) = v"
proof -
  have "be_uint32 (be_put32 v @ bs) =
    push_bit 24 (ucast (ucast (drop_bit 24 v) :: u8)) OR
    push_bit 16 (ucast (ucast (drop_bit 16 v) :: u8)) OR
    push_bit 8 (ucast (ucast (drop_bit 8 v) :: u8)) OR ucast (ucast v :: u8)"
    by (simp add: be_put32_def)
  also have "\<dots> = v"
  proof (rule bit_word_eqI, goal_cases)
    case (1 n)
    then consider "n < 8" | "8 \<le> n" "n < 16" | "16 \<le> n" "n < 24" | "24 \<le> n" "n < 32"
      by fastforce
    then show ?case by cases (simp_all add: bit_simps, auto)
  qed
  finally show ?thesis .
qed

lemma be_uint32_put32_all [simp, codec_simps]: "be_uint32 (be_put32 v) = v"
  using be_uint32_put32 [of v "[]"] by simp

lemma be_put32_inject [simp]: "be_put32 v = be_put32 w \<longleftrightarrow> v = w"
  by (metis be_uint32_put32_all)

lemma be_put32_uint32 [codec_simps]:
  assumes "4 \<le> length b"
  shows "be_put32 (be_uint32 b) = take 4 b"
proof -
  obtain b0 b1 b2 b3 bs where b: "b = b0 # b1 # b2 # b3 # bs"
    using assms by (cases b rule: be_uint32.cases) auto
  let ?v = "be_uint32 b"
  have "ucast (drop_bit 24 ?v) = b0" "ucast (drop_bit 16 ?v) = b1"
    "ucast (drop_bit 8 ?v) = b2" "ucast ?v = b3"
    unfolding b be_uint32.simps
    by (rule bit_word_eqI; auto simp: bit_simps dest: bit_imp_le_length)+
  then show ?thesis by (simp add: be_put32_def b)
qed

lemma be_uint32_append [simp]: "4 \<le> length bs \<Longrightarrow> be_uint32 (bs @ cs) = be_uint32 bs"
  by (cases bs rule: be_uint32.cases) auto

lemma be_uint32_take: "4 \<le> m \<Longrightarrow> be_uint32 (take m bs) = be_uint32 bs"
  by (cases "length bs \<le> m") (use be_uint32_append [of "take m bs" "drop m bs"] in auto)

lemma be_uint32_drop_take: "n + 4 \<le> m \<Longrightarrow> be_uint32 (drop n (take m bs)) = be_uint32 (drop n bs)"
  by (simp add: drop_take be_uint32_take)

lemma le_uint32_append: "4 \<le> length bs \<Longrightarrow> le_uint32 (bs @ cs) = le_uint32 bs"
  by (cases bs rule: le_uint32.cases) auto

lemma bo_uint32_append [simp]: "4 \<le> length bs \<Longrightarrow> bo_uint32 bo (bs @ cs) = bo_uint32 bo bs"
  by (cases bo) (simp_all add: bo_uint32_def le_uint32_append)

section \<open>Files read by position\<close>

datatype io_err = EOF | ErrUnexpectedEOF | ErrFault

record read_seeker =
  rs_bytes :: bytes
  rs_pos :: nat
  rs_bad :: "nat option"

definition open_file :: "bytes \<Rightarrow> read_seeker" where
  "open_file bs = \<lparr>rs_bytes = bs, rs_pos = 0, rs_bad = None\<rparr>"

text \<open>
  \<^verbatim>\<open>io.ReadFull(r, buf)\<close> with \<open>n = len(buf)\<close>: nothing is read for an empty buffer, a
  read at the end of the file is \<^verbatim>\<open>io.EOF\<close>, a partial one \<^verbatim>\<open>io.ErrUnexpectedEOF\<close>.
\<close>

definition read_full :: "nat \<Rightarrow> read_seeker \<Rightarrow> (io_err, bytes) result \<times> read_seeker" where
  "read_full n s =
     (let p = rs_pos s; avail = length (rs_bytes s) - p; got = min n avail in
      if n = 0 then (Inr [], s)
      else case rs_bad s of
        Some k \<Rightarrow>
          if p \<le> k \<and> k < p + got then (Inl ErrFault, s\<lparr>rs_pos := k\<rparr>)
          else if avail = 0 then (Inl EOF, s)
          else if avail < n then (Inl ErrUnexpectedEOF, s\<lparr>rs_pos := p + got\<rparr>)
          else (Inr (take n (drop p (rs_bytes s))), s\<lparr>rs_pos := p + n\<rparr>)
      | None \<Rightarrow>
          if avail = 0 then (Inl EOF, s)
          else if avail < n then (Inl ErrUnexpectedEOF, s\<lparr>rs_pos := p + got\<rparr>)
          else (Inr (take n (drop p (rs_bytes s))), s\<lparr>rs_pos := p + n\<rparr>))"

definition seek_start :: "nat \<Rightarrow> read_seeker \<Rightarrow> read_seeker" where
  "seek_start off s = s\<lparr>rs_pos := off\<rparr>"

definition seek_current :: "nat \<Rightarrow> read_seeker \<Rightarrow> read_seeker" where
  "seek_current off s = s\<lparr>rs_pos := rs_pos s + off\<rparr>"

lemma seek_simps [simp]:
  "rs_bytes (seek_start off s) = rs_bytes s" "rs_bad (seek_start off s) = rs_bad s"
  "rs_pos (seek_start off s) = off"
  "rs_bytes (seek_current off s) = rs_bytes s" "rs_bad (seek_current off s) = rs_bad s"
  "rs_pos (seek_current off s) = rs_pos s + off"
  by (simp_all add: seek_start_def seek_current_def)

lemma read_full_frame [simp]:
  "rs_bytes (snd (read_full n s)) = rs_bytes s" "rs_bad (snd (read_full n s)) = rs_bad s"
  by (auto simp: read_full_def Let_def split: option.splits)

lemma read_full_Inr:
  assumes "read_full n s = (Inr bs, s')"
  shows "length bs = n" and "s' = s\<lparr>rs_pos := rs_pos s + n\<rparr>"
    and "0 < n \<Longrightarrow> rs_pos s + n \<le> length (rs_bytes s)"
    and "bs = take n (drop (rs_pos s) (rs_bytes s))"
  using assms by (auto simp: read_full_def Let_def split: option.splits if_splits)

text \<open>A read of bytes that are there, on a file without a fault, succeeds.\<close>

lemma read_full_ok [io_simps]:
  assumes "rs_bad s = None" and "drop (rs_pos s) (rs_bytes s) = bs @ rest" and "length bs = n"
  shows "read_full n s = (Inr bs, s\<lparr>rs_pos := rs_pos s + n\<rparr>)"
proof (cases "n = 0")
  case True
  then show ?thesis using assms(3) by (simp add: read_full_def)
next
  case False
  have "length (rs_bytes s) - rs_pos s = n + length rest"
    using arg_cong [OF assms(2), of length] assms(3) by simp
  with False show ?thesis
    using assms by (simp add: read_full_def Let_def)
qed

lemma read_full_end [io_simps]:
  assumes "rs_bad s = None" and "length (rs_bytes s) \<le> rs_pos s" and "0 < n"
  shows "read_full n s = (Inl EOF, s)"
  using assms by (simp add: read_full_def Let_def)

lemma read_full_no_fault:
  "rs_bad s = None \<Longrightarrow> fst (read_full n s) \<noteq> Inl ErrFault"
  by (auto simp: read_full_def Let_def)

section \<open>Sinks\<close>

record sink =
  out :: bytes
  cap :: "nat option"

definition sink_of :: "nat option \<Rightarrow> sink" where
  "sink_of c = \<lparr>out = [], cap = c\<rparr>"

text \<open>
  \<^verbatim>\<open>ww.Write(p)\<close>: the number of bytes written, and whether the write failed; it fails when
  fewer than \<open>len(p)\<close> bytes were taken.
\<close>

definition sink_write :: "bytes \<Rightarrow> sink \<Rightarrow> nat \<times> bool \<times> sink" where
  "sink_write bs w =
     (case cap w of
        None \<Rightarrow> (length bs, True, w\<lparr>out := out w @ bs\<rparr>)
      | Some c \<Rightarrow>
          (let room = c - length (out w) in
           if length bs \<le> room then (length bs, True, w\<lparr>out := out w @ bs\<rparr>)
           else (room, False, w\<lparr>out := out w @ take room bs\<rparr>)))"

lemma sink_write_unbounded [io_simps]:
  "cap w = None \<Longrightarrow> sink_write bs w = (length bs, True, w\<lparr>out := out w @ bs\<rparr>)"
  by (simp add: sink_write_def)

lemma sink_write_count:
  assumes "sink_write bs w = (n, ok, w')"
  shows "\<exists>pre. out w' = out w @ pre \<and> length pre = n" and "cap w' = cap w"
    and "ok \<Longrightarrow> out w' = out w @ bs" and "ok \<Longrightarrow> n = length bs"
  using assms by (auto simp: sink_write_def Let_def split: option.splits if_splits)

end
