(* ===== verification/Wal_Format.thy ===== *)
theory Wal_Format
  imports Bytes_IO
begin

text \<open>
  The SQLite write-ahead-log format of \<^verbatim>\<open>db/wal\<close>: constants, header and frame records, the
  running checksum, and the serialised form of a log as a specification. A log is its header
  followed by frames; each frame carries the header's salts and the checksum of everything
  before it, started from the header's checksum.
\<close>

section \<open>Constants, header and frame (reader.go, writer.go)\<close>

definition WALHeaderSize :: nat where
  "WALHeaderSize = 32"

definition WALFrameHeaderSize :: nat where
  "WALFrameHeaderSize = 24"

definition WALSupportedVersion :: u32 where
  "WALSupportedVersion = 3007000"

datatype wal_err =
    WIo io_err
  | WBadMagic u32
  | WBadVersion u32
  | WBufSize nat u32
  | WErrOpenTransaction
  | WShortWrite
  | WPanic

abbreviation WEOF :: wal_err where
  "WEOF \<equiv> WIo EOF"

record WALHeader =
  Magic :: u32
  Version :: u32
  PageSize :: u32
  Seq :: u32
  Salt1 :: u32
  Salt2 :: u32
  Checksum1 :: u32
  Checksum2 :: u32

record Frame =
  Pgno :: u32
  Commit :: u32
  Data :: bytes

text \<open>The \<^verbatim>\<open>switch\<close> on the magic number that selects the checksum's byte order.\<close>

definition magic_order :: "u32 \<Rightarrow> byte_order option" where
  "magic_order m =
     (if m = 0x377f0682 then Some LittleEndian
      else if m = 0x377f0683 then Some BigEndian
      else None)"

section \<open>Checksum (reader.go)\<close>

fun chksum_loop :: "byte_order \<Rightarrow> u32 \<Rightarrow> u32 \<Rightarrow> bytes \<Rightarrow> u32 \<times> u32" where
  "chksum_loop bo s0 s1 b =
     (if b = [] then (s0, s1)
      else let s0' = s0 + (bo_uint32 bo b + s1);
               s1' = s1 + (bo_uint32 bo (drop 4 b) + s0')
           in chksum_loop bo s0' s1' (drop 8 b))"

declare chksum_loop.simps [simp del]

text \<open>A misaligned slice makes \<^verbatim>\<open>assert\<close> panic, which is \<open>None\<close>.\<close>

definition WALChecksum :: "byte_order \<Rightarrow> u32 \<Rightarrow> u32 \<Rightarrow> bytes \<Rightarrow> (u32 \<times> u32) option" where
  "WALChecksum bo s0 s1 b =
     (if length b mod 8 = 0 then Some (chksum_loop bo s0 s1 b) else None)"

lemma chksum_loop_Nil [simp]: "chksum_loop bo s0 s1 [] = (s0, s1)"
  by (simp add: chksum_loop.simps)

text \<open>The checksum of a concatenation is the checksum of the second part, started from the first's.\<close>

lemma chksum_loop_append:
  "length xs mod 8 = 0 \<Longrightarrow>
   chksum_loop bo s0 s1 (xs @ ys) = (case chksum_loop bo s0 s1 xs of (a, b) \<Rightarrow> chksum_loop bo a b ys)"
proof (induction bo s0 s1 xs rule: chksum_loop.induct)
  case (1 bo s0 s1 xs)
  show ?case
  proof (cases "xs = []")
    case True
    then show ?thesis by simp
  next
    case False
    with "1.prems" have len: "8 \<le> length xs"
      by (metis length_0_conv mod_less not_le_imp_less)
    with "1.prems" have "length (drop 8 xs) mod 8 = 0"
      by (simp add: le_mod_geq)
    note IH = "1.IH" [OF False refl refl this]
    have "bo_uint32 bo (xs @ ys) = bo_uint32 bo xs"
      "bo_uint32 bo (drop 4 (xs @ ys)) = bo_uint32 bo (drop 4 xs)"
      using len by simp_all
    then show ?thesis
      using False len IH
      by (simp add: chksum_loop.simps [of bo s0 s1 "xs @ ys"] chksum_loop.simps [of bo s0 s1 xs] Let_def)
  qed
qed

section \<open>Serialised form\<close>

definition enc_header24 :: "WALHeader \<Rightarrow> bytes" where
  "enc_header24 h = be_put32 (Magic h) @ be_put32 (Version h) @ be_put32 (PageSize h) @
     be_put32 (Seq h) @ be_put32 (Salt1 h) @ be_put32 (Salt2 h)"

definition enc_header :: "WALHeader \<Rightarrow> bytes" where
  "enc_header h = enc_header24 h @ be_put32 (Checksum1 h) @ be_put32 (Checksum2 h)"

definition frame_sum :: "byte_order \<Rightarrow> u32 \<times> u32 \<Rightarrow> Frame \<Rightarrow> u32 \<times> u32" where
  "frame_sum bo c f =
     (case chksum_loop bo (fst c) (snd c) (be_put32 (Pgno f) @ be_put32 (Commit f)) of
        (a, b) \<Rightarrow> chksum_loop bo a b (Data f))"

definition enc_frame :: "byte_order \<Rightarrow> u32 \<Rightarrow> u32 \<Rightarrow> u32 \<times> u32 \<Rightarrow> Frame \<Rightarrow> bytes" where
  "enc_frame bo s1 s2 c f =
     be_put32 (Pgno f) @ be_put32 (Commit f) @ be_put32 s1 @ be_put32 s2 @
     be_put32 (fst (frame_sum bo c f)) @ be_put32 (snd (frame_sum bo c f)) @ Data f"

primrec enc_frames :: "byte_order \<Rightarrow> u32 \<Rightarrow> u32 \<Rightarrow> u32 \<times> u32 \<Rightarrow> Frame list \<Rightarrow> bytes" where
  "enc_frames bo s1 s2 c [] = []"
| "enc_frames bo s1 s2 c (f # fs) =
     enc_frame bo s1 s2 c f @ enc_frames bo s1 s2 (frame_sum bo c f) fs"

definition header_order :: "WALHeader \<Rightarrow> byte_order" where
  "header_order h = (if Magic h = 0x377f0682 then LittleEndian else BigEndian)"

definition wal_image :: "WALHeader \<Rightarrow> Frame list \<Rightarrow> bytes" where
  "wal_image h fs =
     enc_header h @ enc_frames (header_order h) (Salt1 h) (Salt2 h) (Checksum1 h, Checksum2 h) fs"

text \<open>
  A header is valid when its magic and version are known and its checksum is that of its first
  24 bytes. SQLite's page sizes are powers of two from 512, so they are multiples of eight.
\<close>

definition valid_header :: "WALHeader \<Rightarrow> bool" where
  "valid_header h \<longleftrightarrow>
     magic_order (Magic h) \<noteq> None \<and> Version h = WALSupportedVersion \<and>
     chksum_loop (header_order h) 0 0 (enc_header24 h) = (Checksum1 h, Checksum2 h)"

definition aligned :: "WALHeader \<Rightarrow> bool" where
  "aligned h \<longleftrightarrow> unat (PageSize h) mod 8 = 0"

definition page_frames :: "WALHeader \<Rightarrow> Frame list \<Rightarrow> bool" where
  "page_frames h fs = list_all (\<lambda>f. length (Data f) = unat (PageSize h)) fs"

lemma length_enc_header24 [simp]: "length (enc_header24 h) = 24"
  by (simp add: enc_header24_def)

lemma length_enc_header [simp]: "length (enc_header h) = 32"
  by (simp add: enc_header_def)

lemma length_enc_frame [simp]: "length (enc_frame bo s1 s2 c f) = 24 + length (Data f)"
  by (simp add: enc_frame_def)

lemma length_enc_frames:
  "list_all (\<lambda>f. length (Data f) = n) fs \<Longrightarrow>
   length (enc_frames bo s1 s2 c fs) = length fs * (24 + n)"
  by (induction fs arbitrary: c) auto

lemma enc_frames_append:
  "enc_frames bo s1 s2 c (fs @ gs) =
     enc_frames bo s1 s2 c fs @ enc_frames bo s1 s2 (fold (\<lambda>f c. frame_sum bo c f) fs c) gs"
  by (induction fs arbitrary: c) auto

lemma length_wal_image:
  "page_frames h fs \<Longrightarrow> length (wal_image h fs) = 32 + length fs * (24 + unat (PageSize h))"
  by (simp add: wal_image_def page_frames_def length_enc_frames)

lemma valid_header_order:
  "valid_header h \<Longrightarrow> magic_order (Magic h) = Some (header_order h)"
  by (auto simp: valid_header_def magic_order_def header_order_def split: if_splits)

lemma enc_header_fields [codec_simps]:
  "be_uint32 (enc_header h @ bs) = Magic h"
  "be_uint32 (drop 4 (enc_header h)) = Version h"
  "be_uint32 (drop 8 (enc_header h)) = PageSize h"
  "be_uint32 (drop 12 (enc_header h)) = Seq h"
  "be_uint32 (drop 16 (enc_header h)) = Salt1 h"
  "be_uint32 (drop 20 (enc_header h)) = Salt2 h"
  "be_uint32 (drop 24 (enc_header h)) = Checksum1 h"
  "be_uint32 (drop 28 (enc_header h)) = Checksum2 h"
  "take 24 (enc_header h) = enc_header24 h"
  by (simp_all add: enc_header_def enc_header24_def)

section \<open>Sample logs\<close>

text \<open>A header with its checksum filled in, and small frames: the inputs of the examples below.\<close>

definition mk_header :: "u32 \<Rightarrow> u32 \<Rightarrow> u32 \<Rightarrow> u32 \<Rightarrow> u32 \<Rightarrow> WALHeader" where
  "mk_header m ps seq s1 s2 =
     (let h = \<lparr>Magic = m, Version = WALSupportedVersion, PageSize = ps, Seq = seq, Salt1 = s1,
                Salt2 = s2, Checksum1 = 0, Checksum2 = 0\<rparr>
      in case chksum_loop (header_order h) 0 0 (enc_header24 h) of
           (a, b) \<Rightarrow> h\<lparr>Checksum1 := a, Checksum2 := b\<rparr>)"

lemma mk_header_simps [simp]:
  "Magic (mk_header m ps seq s1 s2) = m" "PageSize (mk_header m ps seq s1 s2) = ps"
  "Salt1 (mk_header m ps seq s1 s2) = s1" "Salt2 (mk_header m ps seq s1 s2) = s2"
  by (simp_all add: mk_header_def Let_def split: prod.splits)

lemma valid_mk_header: "magic_order m \<noteq> None \<Longrightarrow> valid_header (mk_header m ps seq s1 s2)"
  by (auto simp: mk_header_def Let_def valid_header_def header_order_def enc_header24_def split: prod.splits)

definition sample_header :: WALHeader where
  "sample_header = mk_header 0x377f0682 8 1 7 9"

definition sample_frame :: "u32 \<Rightarrow> u32 \<Rightarrow> u8 \<Rightarrow> Frame" where
  "sample_frame p c d = \<lparr>Pgno = p, Commit = c, Data = replicate 8 d\<rparr>"

lemma sample_header_simps [simp]:
  "PageSize sample_header = 8" "Salt1 sample_header = 7" "Salt2 sample_header = 9"
  "valid_header sample_header" "aligned sample_header"
  by (simp_all add: sample_header_def aligned_def valid_mk_header magic_order_def)

lemma sample_frame_simps [simp]:
  "Pgno (sample_frame p c d) = p" "Commit (sample_frame p c d) = c"
  "Data (sample_frame p c d) = replicate 8 d"
  by (simp_all add: sample_frame_def)

end
