(* ===== verification/Wal_Reader.thy ===== *)
theory Wal_Reader
  imports Wal_Format
begin

text \<open>
  \<^verbatim>\<open>db/wal/reader.go\<close> and \<^verbatim>\<open>db/wal/full_scanner.go\<close>: the reader that parses a log
  header and its frames, checking salts and checksums, and the scanner that returns every frame.
  The reader is exactly a parser of the serialised form of \<open>Wal_Format\<close>: on a file it returns
  the longest sequence of frames whose serialisation the file starts with.
\<close>

section \<open>Reader\<close>

record wal_reader =
  rd_rs :: read_seeker
  rd_frameN :: nat
  rd_magic :: u32
  rd_bo :: "byte_order option"
  rd_pageSize :: u32
  rd_seq :: u32
  rd_salt1 :: u32
  rd_salt2 :: u32
  rd_chksum1 :: u32
  rd_chksum2 :: u32

definition NewReader :: "read_seeker \<Rightarrow> wal_reader" where
  "NewReader rs = \<lparr>rd_rs = rs, rd_frameN = 0, rd_magic = 0, rd_bo = None, rd_pageSize = 0,
     rd_seq = 0, rd_salt1 = 0, rd_salt2 = 0, rd_chksum1 = 0, rd_chksum2 = 0\<rparr>"

definition Offset :: "wal_reader \<Rightarrow> nat" where
  "Offset r = (if rd_frameN r = 0 then 0
     else WALHeaderSize + (rd_frameN r - 1) * (WALFrameHeaderSize + unat (rd_pageSize r)))"

definition ReadHeader :: "wal_reader \<Rightarrow> wal_err option \<times> wal_reader" where
  "ReadHeader r =
     (case read_full WALHeaderSize (rd_rs r) of
        (Inl e, rs) \<Rightarrow>
          (Some (if e = ErrUnexpectedEOF then WEOF else WIo e), r\<lparr>rd_rs := rs\<rparr>)
      | (Inr hdr, rs) \<Rightarrow>
          (let r1 = r\<lparr>rd_rs := rs, rd_magic := be_uint32 hdr\<rparr> in
           case magic_order (rd_magic r1) of
             None \<Rightarrow> (Some (WBadMagic (rd_magic r1)), r1)
           | Some bo \<Rightarrow>
               (let r2 = r1\<lparr>rd_bo := Some bo\<rparr>;
                    chksum1 = be_uint32 (drop 24 hdr);
                    chksum2 = be_uint32 (drop 28 hdr);
                    version = be_uint32 (drop 4 hdr)
                in case WALChecksum bo 0 0 (take 24 hdr) of
                     None \<Rightarrow> (Some WPanic, r2)
                   | Some (v0, v1) \<Rightarrow>
                       if v0 \<noteq> chksum1 \<or> v1 \<noteq> chksum2 then (Some WEOF, r2)
                       else if version \<noteq> WALSupportedVersion then (Some (WBadVersion version), r2)
                       else (None, r2\<lparr>rd_pageSize := be_uint32 (drop 8 hdr),
                                      rd_seq := be_uint32 (drop 12 hdr),
                                      rd_salt1 := be_uint32 (drop 16 hdr),
                                      rd_salt2 := be_uint32 (drop 20 hdr),
                                      rd_chksum1 := chksum1, rd_chksum2 := chksum2\<rparr>))))"

text \<open>
  \<^verbatim>\<open>ReadFrame(data)\<close>: \<open>None\<close> is a nil buffer, \<open>Some n\<close> a buffer of length \<open>n\<close>. The
  page read into the buffer is returned as the third component. A checksum computed before any
  header was read dereferences a nil byte order.
\<close>

definition ReadFrame ::
  "nat option \<Rightarrow> wal_reader \<Rightarrow> (wal_err, u32 \<times> u32 \<times> bytes) result \<times> wal_reader" where
  "ReadFrame data r =
     (if data \<noteq> None \<and> the data \<noteq> unat (rd_pageSize r)
      then (Inl (WBufSize (the data) (rd_pageSize r)), r)
      else case read_full WALFrameHeaderSize (rd_rs r) of
        (Inl e, rs) \<Rightarrow>
          (Inl (if e = ErrUnexpectedEOF then WEOF else WIo e), r\<lparr>rd_rs := rs\<rparr>)
      | (Inr hdr, rs) \<Rightarrow>
          (let r1 = r\<lparr>rd_rs := rs\<rparr>;
               salt1 = be_uint32 (drop 8 hdr);
               salt2 = be_uint32 (drop 12 hdr);
               pgno = be_uint32 hdr;
               commit = be_uint32 (drop 4 hdr)
           in if rd_salt1 r \<noteq> salt1 \<or> rd_salt2 r \<noteq> salt2 then (Inl WEOF, r1)
              else case data of
                None \<Rightarrow>
                  (Inr (pgno, commit, []),
                   r1\<lparr>rd_rs := seek_current (unat (rd_pageSize r)) rs,
                      rd_frameN := rd_frameN r + 1\<rparr>)
              | Some n \<Rightarrow>
                  (case read_full n rs of
                     (Inl e, rs') \<Rightarrow>
                       (Inl (if e = ErrUnexpectedEOF then WEOF else WIo e), r1\<lparr>rd_rs := rs'\<rparr>)
                   | (Inr page, rs') \<Rightarrow>
                       (case rd_bo r of
                          None \<Rightarrow> (Inl WPanic, r1\<lparr>rd_rs := rs'\<rparr>)
                        | Some bo \<Rightarrow>
                            (case WALChecksum bo (rd_chksum1 r) (rd_chksum2 r) (take 8 hdr) of
                               None \<Rightarrow> (Inl WPanic, r1\<lparr>rd_rs := rs'\<rparr>)
                             | Some (a, b) \<Rightarrow>
                                 (case WALChecksum bo a b page of
                                    None \<Rightarrow>
                                      (Inl WPanic, r1\<lparr>rd_rs := rs', rd_chksum1 := a, rd_chksum2 := b\<rparr>)
                                  | Some (c, d) \<Rightarrow>
                                      (let r2 = r1\<lparr>rd_rs := rs', rd_chksum1 := c, rd_chksum2 := d\<rparr> in
                                       if c \<noteq> be_uint32 (drop 16 hdr) \<or> d \<noteq> be_uint32 (drop 20 hdr)
                                       then (Inl WEOF, r2)
                                       else (Inr (pgno, commit, page),
                                             r2\<lparr>rd_frameN := rd_frameN r + 1\<rparr>))))))))"

section \<open>Full scanner\<close>

record full_scanner =
  fs_reader :: wal_reader
  fs_header :: WALHeader

definition reader_header :: "wal_reader \<Rightarrow> WALHeader" where
  "reader_header wr = \<lparr>Magic = rd_magic wr, Version = WALSupportedVersion,
     PageSize = rd_pageSize wr, Seq = rd_seq wr, Salt1 = rd_salt1 wr, Salt2 = rd_salt2 wr,
     Checksum1 = rd_chksum1 wr, Checksum2 = rd_chksum2 wr\<rparr>"

definition NewFullScanner :: "read_seeker \<Rightarrow> (wal_err, full_scanner) result" where
  "NewFullScanner rs =
     (case ReadHeader (NewReader rs) of
        (Some e, _) \<Rightarrow> Inl e
      | (None, wr) \<Rightarrow> Inr \<lparr>fs_reader = wr, fs_header = reader_header wr\<rparr>)"

definition fs_Next :: "full_scanner \<Rightarrow> (wal_err, Frame) result \<times> full_scanner" where
  "fs_Next f =
     (case ReadFrame (Some (unat (rd_pageSize (fs_reader f)))) (fs_reader f) of
        (Inl e, r) \<Rightarrow> (Inl e, f\<lparr>fs_reader := r\<rparr>)
      | (Inr (pgno, commit, page), r) \<Rightarrow>
          (Inr \<lparr>Pgno = pgno, Commit = commit, Data = page\<rparr>, f\<lparr>fs_reader := r\<rparr>))"

section \<open>What one read does\<close>

text \<open>A reader that has accepted the header \<open>h\<close> and whose running checksum is \<open>c\<close>.\<close>

definition reader_on :: "WALHeader \<Rightarrow> u32 \<times> u32 \<Rightarrow> wal_reader \<Rightarrow> bool" where
  "reader_on h c r \<longleftrightarrow>
     rd_bo r = Some (header_order h) \<and> rd_pageSize r = PageSize h \<and>
     rd_salt1 r = Salt1 h \<and> rd_salt2 r = Salt2 h \<and> (rd_chksum1 r, rd_chksum2 r) = c"

lemma enc_header_reader_header:
  assumes "length hdr = 32" and "be_uint32 (drop 4 hdr) = WALSupportedVersion"
    and "rd_magic r = be_uint32 hdr" and "rd_pageSize r = be_uint32 (drop 8 hdr)"
    and "rd_seq r = be_uint32 (drop 12 hdr)" and "rd_salt1 r = be_uint32 (drop 16 hdr)"
    and "rd_salt2 r = be_uint32 (drop 20 hdr)" and "rd_chksum1 r = be_uint32 (drop 24 hdr)"
    and "rd_chksum2 r = be_uint32 (drop 28 hdr)"
  shows "enc_header (reader_header r) = hdr" and "enc_header24 (reader_header r) = take 24 hdr"
proof -
  have seg: "take n hdr @ take 4 (drop n hdr) = take (n + 4) hdr" for n
    by (simp add: take_add)
  show e24: "enc_header24 (reader_header r) = take 24 hdr"
    using assms seg [of 4] seg [of 8] seg [of 12] seg [of 16] seg [of 20]
    by (simp add: enc_header24_def reader_header_def be_put32_uint32 flip: append_assoc assms(2))
  show "enc_header (reader_header r) = hdr"
    unfolding enc_header_def e24
    using assms(1,8,9) seg [of 24] seg [of 28]
    by (simp add: reader_header_def be_put32_uint32 flip: append_assoc)
qed

lemma ReadHeader_ok:
  assumes "valid_header h" and "rs_bad rs = None"
    and "drop (rs_pos rs) (rs_bytes rs) = enc_header h @ rest"
  obtains r' where "ReadHeader (NewReader rs) = (None, r')" and "reader_header r' = h"
    and "reader_on h (Checksum1 h, Checksum2 h) r'" and "rd_frameN r' = 0"
    and "rd_rs r' = rs\<lparr>rs_pos := rs_pos rs + 32\<rparr>"
proof -
  have rd: "read_full 32 rs = (Inr (enc_header h), rs\<lparr>rs_pos := rs_pos rs + 32\<rparr>)"
    using assms(2,3) by (rule read_full_ok) simp
  note magic = valid_header_order [OF assms(1)]
  have sum: "WALChecksum (header_order h) 0 0 (enc_header24 h) = Some (Checksum1 h, Checksum2 h)"
    and ver: "Version h = WALSupportedVersion"
    using assms(1) by (simp_all add: WALChecksum_def valid_header_def)
  have mh: "be_uint32 (enc_header h) = Magic h"
    using enc_header_fields(1) [of h "[]"] by simp
  let ?r = "(NewReader rs)\<lparr>rd_rs := rs\<lparr>rs_pos := rs_pos rs + 32\<rparr>, rd_magic := Magic h,
     rd_bo := Some (header_order h), rd_pageSize := PageSize h, rd_seq := Seq h,
     rd_salt1 := Salt1 h, rd_salt2 := Salt2 h, rd_chksum1 := Checksum1 h,
     rd_chksum2 := Checksum2 h\<rparr>"
  have "ReadHeader (NewReader rs) = (None, ?r)"
    using rd magic sum ver mh
    by (simp add: ReadHeader_def NewReader_def WALHeaderSize_def enc_header_fields Let_def)
  then show ?thesis
    by (rule that) (use ver in \<open>simp_all add: reader_header_def reader_on_def NewReader_def\<close>)
qed

lemma ReadHeader_sound:
  assumes "ReadHeader r = (None, r')"
  shows "valid_header (reader_header r')"
    and "take 32 (drop (rs_pos (rd_rs r)) (rs_bytes (rd_rs r))) = enc_header (reader_header r')"
    and "reader_on (reader_header r') (rd_chksum1 r', rd_chksum2 r') r'"
    and "rd_frameN r' = rd_frameN r"
    and "rd_rs r' = (rd_rs r)\<lparr>rs_pos := rs_pos (rd_rs r) + 32\<rparr>"
proof -
  from assms obtain hdr rs bo where
    rd: "read_full 32 (rd_rs r) = (Inr hdr, rs)"
    and mo: "magic_order (be_uint32 hdr) = Some bo"
    and sum: "WALChecksum bo 0 0 (take 24 hdr) = Some (be_uint32 (drop 24 hdr), be_uint32 (drop 28 hdr))"
    and ver: "be_uint32 (drop 4 hdr) = WALSupportedVersion"
    and r': "r' = r\<lparr>rd_rs := rs, rd_magic := be_uint32 hdr, rd_bo := Some bo,
       rd_pageSize := be_uint32 (drop 8 hdr), rd_seq := be_uint32 (drop 12 hdr),
       rd_salt1 := be_uint32 (drop 16 hdr), rd_salt2 := be_uint32 (drop 20 hdr),
       rd_chksum1 := be_uint32 (drop 24 hdr), rd_chksum2 := be_uint32 (drop 28 hdr)\<rparr>"
    by (auto simp: ReadHeader_def WALHeaderSize_def Let_def
        split: prod.splits sum.splits option.splits if_splits)
  note len = read_full_Inr(1) [OF rd]
  have enc: "enc_header (reader_header r') = hdr" "enc_header24 (reader_header r') = take 24 hdr"
    using enc_header_reader_header [OF len ver, of r'] by (simp_all add: r')
  have bo: "header_order (reader_header r') = bo"
    using mo by (auto simp: header_order_def magic_order_def reader_header_def r' split: if_splits)
  show "valid_header (reader_header r')"
    using mo sum len unfolding valid_header_def enc bo
    by (simp add: reader_header_def r' WALChecksum_def)
  show "take 32 (drop (rs_pos (rd_rs r)) (rs_bytes (rd_rs r))) = enc_header (reader_header r')"
    using read_full_Inr(4) [OF rd] enc by simp
  show "reader_on (reader_header r') (rd_chksum1 r', rd_chksum2 r') r'"
    using bo by (simp add: reader_on_def) (simp add: reader_header_def r')
  show "rd_frameN r' = rd_frameN r" by (simp add: r')
  show "rd_rs r' = (rd_rs r)\<lparr>rs_pos := rs_pos (rd_rs r) + 32\<rparr>"
    using read_full_Inr(2) [OF rd] by (simp add: r')
qed

text \<open>The frame at the reader's position, as the two modes of \<^const>\<open>ReadFrame\<close> see it.\<close>

lemma enc_frame_fields [codec_simps]:
  assumes "hdr = take 24 (enc_frame bo s1 s2 c f)"
  shows "be_uint32 hdr = Pgno f" and "be_uint32 (drop 4 hdr) = Commit f"
    and "be_uint32 (drop 8 hdr) = s1" and "be_uint32 (drop 12 hdr) = s2"
    and "be_uint32 (drop 16 hdr) = fst (frame_sum bo c f)"
    and "be_uint32 (drop 20 hdr) = snd (frame_sum bo c f)"
    and "take 8 hdr = be_put32 (Pgno f) @ be_put32 (Commit f)"
  using assms by (simp_all add: enc_frame_def)

lemma frame_header_rest:
  "enc_frame bo s1 s2 c f = take 24 (enc_frame bo s1 s2 c f) @ Data f"
  by (simp add: enc_frame_def)

lemma ReadFrame_full_ok:
  assumes on: "reader_on h c r" and al: "aligned h" and bad: "rs_bad (rd_rs r) = None"
    and len: "length (Data f) = unat (PageSize h)"
    and at: "drop (rs_pos (rd_rs r)) (rs_bytes (rd_rs r)) =
      enc_frame (header_order h) (Salt1 h) (Salt2 h) c f @ rest"
  obtains r' where
    "ReadFrame (Some (unat (PageSize h))) r = (Inr (Pgno f, Commit f, Data f), r')"
    and "reader_on h (frame_sum (header_order h) c f) r'" and "rd_frameN r' = rd_frameN r + 1"
    and "rd_rs r' = (rd_rs r)\<lparr>rs_pos := rs_pos (rd_rs r) + (24 + unat (PageSize h))\<rparr>"
proof -
  let ?n = "unat (PageSize h)" and ?bo = "header_order h" and ?rs = "rd_rs r"
  define hdr where "hdr = take 24 (enc_frame ?bo (Salt1 h) (Salt2 h) c f)"
  note fields = enc_frame_fields [OF hdr_def]
  have hl: "length hdr = 24" by (simp add: hdr_def)
  have f1: "drop (rs_pos ?rs) (rs_bytes ?rs) = hdr @ Data f @ rest"
    using at frame_header_rest [of ?bo "Salt1 h" "Salt2 h" c f] by (simp add: hdr_def)
  have rd1: "read_full 24 ?rs = (Inr hdr, ?rs\<lparr>rs_pos := rs_pos ?rs + 24\<rparr>)"
    using bad f1 hl by (rule read_full_ok)
  have f2: "drop (rs_pos ?rs + 24) (rs_bytes ?rs) = Data f @ rest"
    using f1 hl by (metis add.commute drop_drop take_drop_cancel_append(2))
  have rd2: "read_full ?n (?rs\<lparr>rs_pos := rs_pos ?rs + 24\<rparr>) =
      (Inr (Data f), ?rs\<lparr>rs_pos := rs_pos ?rs + 24 + ?n\<rparr>)"
    using read_full_ok [of "?rs\<lparr>rs_pos := rs_pos ?rs + 24\<rparr>" "Data f" rest ?n] bad f2 len by simp
  obtain a b where ab: "chksum_loop ?bo (fst c) (snd c) (be_put32 (Pgno f) @ be_put32 (Commit f)) = (a, b)"
    by (cases "chksum_loop ?bo (fst c) (snd c) (be_put32 (Pgno f) @ be_put32 (Commit f))")
  have fsum: "chksum_loop ?bo a b (Data f) = frame_sum ?bo c f"
    using ab by (simp add: frame_sum_def)
  let ?r = "r\<lparr>rd_rs := ?rs\<lparr>rs_pos := rs_pos ?rs + 24 + ?n\<rparr>,
     rd_chksum1 := fst (frame_sum ?bo c f), rd_chksum2 := snd (frame_sum ?bo c f),
     rd_frameN := rd_frameN r + 1\<rparr>"
  have "ReadFrame (Some ?n) r = (Inr (Pgno f, Commit f, Data f), ?r)"
    using on al len rd1 rd2 fields ab fsum
    by (auto simp: ReadFrame_def reader_on_def WALFrameHeaderSize_def WALChecksum_def aligned_def
        Let_def split: prod.splits)
  then show ?thesis
    by (rule that) (use on in \<open>simp_all add: reader_on_def add.assoc\<close>)
qed

lemma ReadFrame_full_sound:
  assumes on: "reader_on h c r"
    and rd: "ReadFrame (Some n) r = (Inr (pgno, commit, page), r')"
  defines "f \<equiv> \<lparr>Pgno = pgno, Commit = commit, Data = page\<rparr>"
  shows "length page = unat (PageSize h)" and "n = unat (PageSize h)"
    and "take (24 + n) (drop (rs_pos (rd_rs r)) (rs_bytes (rd_rs r))) =
      enc_frame (header_order h) (Salt1 h) (Salt2 h) c f"
    and "reader_on h (frame_sum (header_order h) c f) r'" and "rd_frameN r' = rd_frameN r + 1"
    and "rd_rs r' = (rd_rs r)\<lparr>rs_pos := rs_pos (rd_rs r) + (24 + n)\<rparr>"
    and "rs_pos (rd_rs r) + 24 \<le> length (rs_bytes (rd_rs r))"
proof -
  let ?bo = "header_order h" and ?rs = "rd_rs r"
  from on rd obtain hdr rs1 rs2 a b where
    rd1: "read_full 24 ?rs = (Inr hdr, rs1)" and rd2: "read_full n rs1 = (Inr page, rs2)"
    and n: "n = unat (PageSize h)"
    and salts: "be_uint32 (drop 8 hdr) = Salt1 h" "be_uint32 (drop 12 hdr) = Salt2 h"
    and s1: "WALChecksum ?bo (fst c) (snd c) (take 8 hdr) = Some (a, b)"
    and s2: "WALChecksum ?bo a b page = Some (be_uint32 (drop 16 hdr), be_uint32 (drop 20 hdr))"
    and pc: "pgno = be_uint32 hdr" "commit = be_uint32 (drop 4 hdr)"
    and r': "r' = r\<lparr>rd_rs := rs2, rd_chksum1 := be_uint32 (drop 16 hdr),
       rd_chksum2 := be_uint32 (drop 20 hdr), rd_frameN := rd_frameN r + 1\<rparr>"
    by (auto simp: ReadFrame_def WALFrameHeaderSize_def reader_on_def Let_def
        split: prod.splits sum.splits option.splits if_splits)
  note h1 = read_full_Inr [OF rd1] and h2 = read_full_Inr [OF rd2]
  have seg: "take k hdr @ take 4 (drop k hdr) = take (k + 4) hdr" for k
    by (simp add: take_add)
  have put: "be_put32 pgno @ be_put32 commit = take 8 hdr"
    using h1(1) seg [of 4] by (simp add: pc be_put32_uint32)
  have sum: "frame_sum ?bo c f = (be_uint32 (drop 16 hdr), be_uint32 (drop 20 hdr))"
    using s1 s2 put by (simp add: frame_sum_def f_def WALChecksum_def split: if_splits)
  have "enc_frame ?bo (Salt1 h) (Salt2 h) c f =
      take 8 hdr @ take 4 (drop 8 hdr) @ take 4 (drop 12 hdr) @ take 4 (drop 16 hdr) @
      take 4 (drop 20 hdr) @ page"
    using h1(1) put unfolding enc_frame_def sum
    by (simp add: f_def be_put32_uint32 flip: salts append_assoc)
  also have "\<dots> = hdr @ page"
    using h1(1) seg [of 8] seg [of 12] seg [of 16] seg [of 20] by (simp flip: append_assoc)
  finally have enc: "enc_frame ?bo (Salt1 h) (Salt2 h) c f = hdr @ page" .
  show "length page = unat (PageSize h)" and "n = unat (PageSize h)" using h2(1) n by simp_all
  show "take (24 + n) (drop (rs_pos ?rs) (rs_bytes ?rs)) =
      enc_frame ?bo (Salt1 h) (Salt2 h) c f"
    using h1 h2 by (simp add: enc take_add add.commute [of 24 "rs_pos ?rs"])
  show "reader_on h (frame_sum ?bo c f) r'" using on by (simp add: reader_on_def r' sum)
  show "rd_frameN r' = rd_frameN r + 1" by (simp add: r')
  show "rd_rs r' = ?rs\<lparr>rs_pos := rs_pos ?rs + (24 + n)\<rparr>"
    using h1(2) h2(2) by (simp add: r' add.assoc)
  show "rs_pos ?rs + 24 \<le> length (rs_bytes ?rs)" using h1(3) by simp
qed

section \<open>Reading every frame\<close>

lemma ReadFrame_InrE:
  assumes "ReadFrame data r = (Inr x, r')"
  obtains hdr where "read_full 24 (rd_rs r) = (Inr hdr, (rd_rs r)\<lparr>rs_pos := rs_pos (rd_rs r) + 24\<rparr>)"
    and "rd_rs r' = (rd_rs r)\<lparr>rs_pos := rs_pos (rd_rs r) + 24 + unat (rd_pageSize r)\<rparr>"
proof (cases "read_full 24 (rd_rs r)")
  case (Pair res rs1)
  with assms obtain hdr where res: "res = Inr hdr"
    by (cases res) (auto simp: ReadFrame_def WALFrameHeaderSize_def split: if_splits)
  note h1 = read_full_Inr [OF Pair [unfolded res]]
  show ?thesis
  proof (cases data)
    case None
    then have "rd_rs r' = seek_current (unat (rd_pageSize r)) rs1"
      using assms Pair res
      by (auto simp: ReadFrame_def WALFrameHeaderSize_def Let_def split: if_splits)
    with Pair res h1(2) show ?thesis by (intro that) (simp_all add: seek_current_def)
  next
    case (Some n)
    obtain res2 rs2 where rd2: "read_full n rs1 = (res2, rs2)" by (cases "read_full n rs1")
    have n: "n = unat (rd_pageSize r)"
      using assms Some by (auto simp: ReadFrame_def split: if_splits)
    obtain page where res2: "res2 = Inr page"
      using assms Pair res rd2 Some
      by (cases res2) (auto simp: ReadFrame_def WALFrameHeaderSize_def Let_def split: if_splits)
    have "rd_rs r' = rs2"
      using assms Pair res rd2 res2 Some
      by (auto simp: ReadFrame_def WALFrameHeaderSize_def Let_def split: if_splits option.splits prod.splits)
    with Pair res h1(2) read_full_Inr(2) [OF rd2 [unfolded res2]] n show ?thesis
      by (intro that) simp_all
  qed
qed

lemma ReadFrame_progress:
  assumes "ReadFrame data r = (Inr x, r')"
  shows "rs_bytes (rd_rs r') = rs_bytes (rd_rs r)"
    and "length (rs_bytes (rd_rs r)) - rs_pos (rd_rs r') < length (rs_bytes (rd_rs r)) - rs_pos (rd_rs r)"
proof -
  obtain hdr where "read_full 24 (rd_rs r) = (Inr hdr, (rd_rs r)\<lparr>rs_pos := rs_pos (rd_rs r) + 24\<rparr>)"
    and r': "rd_rs r' = (rd_rs r)\<lparr>rs_pos := rs_pos (rd_rs r) + 24 + unat (rd_pageSize r)\<rparr>"
    using assms by (rule ReadFrame_InrE)
  from read_full_Inr(3) [OF this(1)] r'
  show "rs_bytes (rd_rs r') = rs_bytes (rd_rs r)"
    and "length (rs_bytes (rd_rs r)) - rs_pos (rd_rs r') < length (rs_bytes (rd_rs r)) - rs_pos (rd_rs r)"
    by auto
qed

lemma ReadFrame_shrinks:
  "ReadFrame data r = (Inr x, r') \<Longrightarrow>
   length (rs_bytes (rd_rs r')) - rs_pos (rd_rs r') < length (rs_bytes (rd_rs r)) - rs_pos (rd_rs r)"
  using ReadFrame_progress by metis

text \<open>
  What a client sees that calls \<^verbatim>\<open>Next\<close> until it fails: the frames, and the error that ended the
  scan. Each successful call moves the position by at least a frame header, so the scan ends.
\<close>

function fs_frames :: "full_scanner \<Rightarrow> Frame list \<times> wal_err" where
  "fs_frames f =
     (case fs_Next f of
        (Inl e, _) \<Rightarrow> ([], e)
      | (Inr fr, f') \<Rightarrow> (case fs_frames f' of (frs, e) \<Rightarrow> (fr # frs, e)))"
  by pat_completeness auto
termination
proof (relation "measure (\<lambda>f. length (rs_bytes (rd_rs (fs_reader f))) - rs_pos (rd_rs (fs_reader f)))",
    goal_cases)
  case 1
  show ?case by simp
next
  case (2 f x f' fr)
  then have "ReadFrame (Some (unat (rd_pageSize (fs_reader f)))) (fs_reader f) =
      (Inr (Pgno fr, Commit fr, Data fr), fs_reader f')"
    by (auto simp: fs_Next_def split: prod.splits sum.splits)
  from ReadFrame_progress [OF this] show ?case by simp
qed

declare fs_frames.simps [simp del]

text \<open>Whether a byte string starts with a frame the reader would accept.\<close>

definition starts_frame :: "WALHeader \<Rightarrow> u32 \<times> u32 \<Rightarrow> bytes \<Rightarrow> bool" where
  "starts_frame h c bs \<longleftrightarrow> (\<exists>f rest. length (Data f) = unat (PageSize h) \<and>
     bs = enc_frame (header_order h) (Salt1 h) (Salt2 h) c f @ rest)"

definition final_sum :: "WALHeader \<Rightarrow> Frame list \<Rightarrow> u32 \<times> u32" where
  "final_sum h fs = fold (\<lambda>f c. frame_sum (header_order h) c f) fs (Checksum1 h, Checksum2 h)"

lemma read_err_eof:
  assumes "rs_bad s = None" and "read_full n s = (Inl e, s')"
  shows "(if e = ErrUnexpectedEOF then WEOF else WIo e) = WEOF"
  using assms read_full_no_fault [of s n] by (cases e) auto

lemma ReadFrame_no_fault_err:
  assumes on: "reader_on h c r" and al: "aligned h" and bad: "rs_bad (rd_rs r) = None"
    and rd: "ReadFrame (Some (unat (PageSize h))) r = (Inl e, r')"
  shows "e = WEOF"
proof (cases "read_full 24 (rd_rs r)")
  case (Pair res rs1)
  show ?thesis
  proof (cases res)
    case (Inl e1)
    with Pair rd on read_err_eof [OF bad] show ?thesis
      by (simp add: ReadFrame_def WALFrameHeaderSize_def reader_on_def)
  next
    case (Inr hdr)
    have bad1: "rs_bad rs1 = None" using read_full_frame(2) [of 24 "rd_rs r"] Pair bad by simp
    obtain res2 rs2 where rd2: "read_full (unat (PageSize h)) rs1 = (res2, rs2)"
      by (cases "read_full (unat (PageSize h)) rs1")
    show ?thesis
    proof (cases res2)
      case Inl2: (Inl e2)
      with Pair Inr rd on rd2 read_err_eof [OF bad1] show ?thesis
        by (auto simp: ReadFrame_def WALFrameHeaderSize_def reader_on_def Let_def split: if_splits)
    next
      case Inr2: (Inr page)
      have "length hdr = 24" "length page = unat (PageSize h)"
        using read_full_Inr(1) Pair Inr rd2 Inr2 by blast+
      with Pair Inr rd on rd2 Inr2 al show ?thesis
        by (auto simp: ReadFrame_def WALFrameHeaderSize_def reader_on_def WALChecksum_def
            aligned_def Let_def split: if_splits prod.splits)
    qed
  qed
qed

lemma fs_Next_Inr:
  "fs_Next f = (Inr fr, f') \<longleftrightarrow>
     ReadFrame (Some (unat (rd_pageSize (fs_reader f)))) (fs_reader f) =
       (Inr (Pgno fr, Commit fr, Data fr), fs_reader f') \<and> fs_header f' = fs_header f"
  by (cases fr; cases f; cases f') (auto simp: fs_Next_def split: prod.splits sum.splits)

lemma fs_frames_at_end:
  assumes on: "reader_on h c (fs_reader f)" and al: "aligned h"
    and bad: "rs_bad (rd_rs (fs_reader f)) = None"
    and stop: "\<not> starts_frame h c (drop (rs_pos (rd_rs (fs_reader f))) (rs_bytes (rd_rs (fs_reader f))))"
  shows "fs_frames f = ([], WEOF)"
proof (cases "ReadFrame (Some (unat (PageSize h))) (fs_reader f)")
  case (Pair res r')
  show ?thesis
  proof (cases res)
    case (Inl e)
    with Pair ReadFrame_no_fault_err [OF on al bad] on show ?thesis
      by (simp add: fs_frames.simps fs_Next_def reader_on_def)
  next
    case (Inr x)
    obtain pgno commit page where x: "x = (pgno, commit, page)" by (cases x)
    let ?bs = "drop (rs_pos (rd_rs (fs_reader f))) (rs_bytes (rd_rs (fs_reader f)))"
    note snd = ReadFrame_full_sound [OF on Pair [unfolded Inr x]]
    note append_take_drop_id [of "24 + unat (PageSize h)" ?bs, symmetric]
    with snd(1,3) have "starts_frame h c ?bs"
      unfolding starts_frame_def by (metis Frame.select_convs(3))
    with stop show ?thesis by simp
  qed
qed

lemma fs_frames_complete:
  assumes "reader_on h c (fs_reader f)" and "aligned h"
    and "rs_bad (rd_rs (fs_reader f)) = None" and "page_frames h fs"
    and "drop (rs_pos (rd_rs (fs_reader f))) (rs_bytes (rd_rs (fs_reader f))) =
      enc_frames (header_order h) (Salt1 h) (Salt2 h) c fs @ rest"
    and "\<not> starts_frame h (fold (\<lambda>f c. frame_sum (header_order h) c f) fs c) rest"
  shows "fs_frames f = (fs, WEOF)"
  using assms
proof (induction fs arbitrary: f c)
  case Nil
  then show ?case by (intro fs_frames_at_end) simp_all
next
  case (Cons fr fs)
  let ?r = "fs_reader f" and ?n = "unat (PageSize h)"
  have len: "length (Data fr) = ?n" and pf: "page_frames h fs"
    using Cons.prems(4) by (simp_all add: page_frames_def)
  obtain r' where rd: "ReadFrame (Some ?n) ?r = (Inr (Pgno fr, Commit fr, Data fr), r')"
    and on': "reader_on h (frame_sum (header_order h) c fr) r'"
    and rs': "rd_rs r' = (rd_rs ?r)\<lparr>rs_pos := rs_pos (rd_rs ?r) + (24 + ?n)\<rparr>"
    using ReadFrame_full_ok [OF Cons.prems(1,2,3) len] Cons.prems(5) by (metis append_assoc enc_frames.simps(2))
  let ?f' = "f\<lparr>fs_reader := r'\<rparr>"
  have nx: "fs_Next f = (Inr fr, ?f')"
    using rd Cons.prems(1) by (simp add: fs_Next_Inr reader_on_def)
  have "drop (rs_pos (rd_rs r')) (rs_bytes (rd_rs r')) =
      drop (24 + ?n) (drop (rs_pos (rd_rs ?r)) (rs_bytes (rd_rs ?r)))"
    by (simp add: rs' add.commute)
  also have "\<dots> = enc_frames (header_order h) (Salt1 h) (Salt2 h) (frame_sum (header_order h) c fr) fs @ rest"
    unfolding Cons.prems(5) by (simp add: len)
  finally have "fs_frames ?f' = (fs, WEOF)"
    using Cons.prems(2,3,6) on' rs' pf by (intro Cons.IH) simp_all
  with nx show ?case by (simp add: fs_frames.simps [of f])
qed

lemma fs_frames_sound:
  assumes "reader_on h c (fs_reader f)" and "fs_frames f = (fs, e)"
  shows "page_frames h fs \<and> (\<exists>rest. drop (rs_pos (rd_rs (fs_reader f))) (rs_bytes (rd_rs (fs_reader f))) =
      enc_frames (header_order h) (Salt1 h) (Salt2 h) c fs @ rest)"
  using assms
proof (induction fs arbitrary: f c)
  case Nil
  then show ?case by (simp add: page_frames_def)
next
  case (Cons fr fs)
  let ?r = "fs_reader f" and ?n = "unat (PageSize h)" and ?bo = "header_order h"
  let ?bs = "drop (rs_pos (rd_rs ?r)) (rs_bytes (rd_rs ?r))"
  obtain f' where nx: "fs_Next f = (Inr fr, f')" and fs: "fs_frames f' = (fs, e)"
    using Cons.prems(2) by (subst (asm) fs_frames.simps) (auto split: prod.splits sum.splits)
  have rd: "ReadFrame (Some ?n) ?r = (Inr (Pgno fr, Commit fr, Data fr), fs_reader f')"
    using nx Cons.prems(1) by (simp add: fs_Next_Inr reader_on_def)
  note snd = ReadFrame_full_sound [OF Cons.prems(1) rd]
  have fr: "\<lparr>Pgno = Pgno fr, Commit = Commit fr, Data = Data fr\<rparr> = fr" by simp
  obtain rest where pf: "page_frames h fs" and
    rest: "drop (rs_pos (rd_rs (fs_reader f'))) (rs_bytes (rd_rs (fs_reader f'))) =
      enc_frames ?bo (Salt1 h) (Salt2 h) (frame_sum ?bo c fr) fs @ rest"
    using Cons.IH [OF snd(4) [unfolded fr] fs] by blast
  have "drop (24 + ?n) ?bs = drop (rs_pos (rd_rs (fs_reader f'))) (rs_bytes (rd_rs (fs_reader f')))"
    by (simp add: snd(6) add.commute)
  then have "?bs = enc_frames ?bo (Salt1 h) (Salt2 h) c (fr # fs) @ rest"
    using append_take_drop_id [of "24 + ?n" ?bs] snd(3) rest by (simp add: fr)
  with snd(1) pf show ?case by (auto simp: page_frames_def)
qed

lemma fs_open_complete:
  assumes "valid_header h" and "aligned h" and "page_frames h fs"
    and "\<not> starts_frame h (final_sum h fs) rest"
  shows "\<exists>sc. NewFullScanner (open_file (wal_image h fs @ rest)) = Inr sc \<and>
    fs_header sc = h \<and> fs_frames sc = (fs, WEOF)"
proof -
  let ?rs = "open_file (wal_image h fs @ rest)"
  let ?body = "enc_frames (header_order h) (Salt1 h) (Salt2 h) (Checksum1 h, Checksum2 h) fs @ rest"
  have bad: "rs_bad ?rs = None" by (simp add: open_file_def)
  have "drop (rs_pos ?rs) (rs_bytes ?rs) = enc_header h @ ?body"
    by (simp add: open_file_def wal_image_def)
  then obtain r' where rh: "ReadHeader (NewReader ?rs) = (None, r')" and h: "reader_header r' = h"
    and on: "reader_on h (Checksum1 h, Checksum2 h) r'"
    and rs': "rd_rs r' = ?rs\<lparr>rs_pos := rs_pos ?rs + 32\<rparr>"
    using ReadHeader_ok [OF assms(1) bad] by blast
  let ?sc = "\<lparr>fs_reader = r', fs_header = h\<rparr>"
  have "fs_frames ?sc = (fs, WEOF)"
    by (rule fs_frames_complete [OF _ assms(2) _ assms(3), where c = "(Checksum1 h, Checksum2 h)" and rest = rest])
      (use on assms(4) in \<open>simp_all add: rs' open_file_def wal_image_def final_sum_def\<close>)
  with rh h show ?thesis by (intro exI [of _ ?sc]) (simp add: NewFullScanner_def)
qed

text \<open>C14: the reader and full scanner are complete for the log format. On a file that holds a
  valid header, correctly chained frames and then anything that is not one more frame of the
  chain (nothing, a torn frame, or stale frames of an earlier log with other salts or
  checksums), the scanner opens, reports the header, returns exactly the frames in order and
  then ends with \<^verbatim>\<open>io.EOF\<close>.\<close>

theorem full_scan_complete:
  assumes "valid_header h" and "aligned h" and "page_frames h fs"
    and "\<not> starts_frame h (final_sum h fs) rest"
  shows "\<exists>sc. NewFullScanner (open_file (wal_image h fs @ rest)) = Inr sc \<and>
    fs_header sc = h \<and> fs_frames sc = (fs, WEOF)"
  using assms by (rule fs_open_complete)

theorem full_scan_complete_witness:
  "\<exists>sc. NewFullScanner (open_file (wal_image sample_header [sample_frame 1 0 5, sample_frame 2 2 6] @ [])) = Inr sc \<and>
    fs_header sc = sample_header \<and> fs_frames sc = ([sample_frame 1 0 5, sample_frame 2 2 6], WEOF)"
proof -
  have "page_frames sample_header [sample_frame 1 0 5, sample_frame 2 2 6]"
    by (simp add: page_frames_def)
  then show ?thesis by (intro full_scan_complete) (simp_all add: starts_frame_def enc_frame_def)
qed

text \<open>C13: the reader is sound. Whatever the file holds, if the scanner opens then its header is
  valid and the file starts with the serialisation of that header and of exactly the frames the
  scanner returns: no corrupted or stale frame is ever returned.\<close>

theorem full_scan_sound:
  assumes "NewFullScanner (open_file bs) = Inr sc" and "fs_frames sc = (fs, e)"
  shows "valid_header (fs_header sc) \<and> page_frames (fs_header sc) fs \<and>
    (\<exists>rest. bs = wal_image (fs_header sc) fs @ rest)"
proof -
  obtain r' where rh: "ReadHeader (NewReader (open_file bs)) = (None, r')"
    and sc: "sc = \<lparr>fs_reader = r', fs_header = reader_header r'\<rparr>"
    using assms(1) by (auto simp: NewFullScanner_def split: prod.splits option.splits)
  let ?h = "reader_header r'"
  note hd = ReadHeader_sound [OF rh]
  have c: "(rd_chksum1 r', rd_chksum2 r') = (Checksum1 ?h, Checksum2 ?h)"
    by (simp add: reader_header_def)
  from fs_frames_sound [of ?h _ sc fs e] assms(2) hd(3)
  obtain rest where pf: "page_frames ?h fs" and
    rest: "drop 32 bs = enc_frames (header_order ?h) (Salt1 ?h) (Salt2 ?h) (Checksum1 ?h, Checksum2 ?h) fs @ rest"
    by (auto simp: sc c hd(5) NewReader_def open_file_def)
  have "bs = take 32 bs @ drop 32 bs" by simp
  also have "take 32 bs = enc_header ?h" using hd(2) by (simp add: NewReader_def open_file_def)
  finally have "bs = wal_image ?h fs @ rest" by (simp add: rest wal_image_def)
  with hd(1) pf show ?thesis by (auto simp: sc)
qed

theorem full_scan_sound_witness:
  "\<exists>sc fs e. NewFullScanner (open_file (wal_image sample_header [sample_frame 1 1 5])) = Inr sc \<and>
    fs_frames sc = (fs, e) \<and> valid_header (fs_header sc) \<and> page_frames (fs_header sc) fs \<and>
    (\<exists>rest. wal_image sample_header [sample_frame 1 1 5] = wal_image (fs_header sc) fs @ rest)"
proof -
  let ?fs = "[sample_frame 1 1 5]"
  obtain r' where r': "ReadHeader (NewReader (open_file (wal_image sample_header ?fs))) = (None, r')"
  proof (rule ReadHeader_ok [of sample_header])
    show "drop (rs_pos (open_file (wal_image sample_header ?fs))) (rs_bytes (open_file (wal_image sample_header ?fs))) =
      enc_header sample_header @ enc_frames (header_order sample_header) (Salt1 sample_header)
        (Salt2 sample_header) (Checksum1 sample_header, Checksum2 sample_header) ?fs"
      by (simp add: open_file_def wal_image_def)
  qed (simp_all add: open_file_def)
  let ?sc = "\<lparr>fs_reader = r', fs_header = reader_header r'\<rparr>"
  have sc: "NewFullScanner (open_file (wal_image sample_header ?fs)) = Inr ?sc"
    by (simp add: NewFullScanner_def r')
  obtain fs e where "fs_frames ?sc = (fs, e)" by (cases "fs_frames ?sc")
  with full_scan_sound [OF sc this] sc show ?thesis by blast
qed

end
