(* ===== verification/Wal_Writer.thy ===== *)
theory Wal_Writer
  imports Wal_Reader
begin

text \<open>
  \<^verbatim>\<open>db/wal/writer.go\<close>: the writer that serialises the frames of an iterator. The Go interface
  \<^verbatim>\<open>WALIterator\<close> is the locale \<open>wal_iterator\<close>: an iterator is described by the frames it has
  still to return and the error that ends it. What the writer produces is proved once, in the
  locale, and then for each iterator by interpretation.
\<close>

section \<open>Writer\<close>

record 'it wal_writer =
  ww_r :: 'it
  ww_rHeader :: WALHeader
  ww_chksum1 :: u32
  ww_chksum2 :: u32
  ww_bo :: byte_order

definition NewWriter ::
  "('it \<Rightarrow> (wal_err, WALHeader) result) \<Rightarrow> 'it \<Rightarrow> (wal_err, 'it wal_writer) result" where
  "NewWriter header it =
     (case header it of
        Inl e \<Rightarrow> Inl e
      | Inr rh \<Rightarrow>
          (case magic_order (Magic rh) of
             None \<Rightarrow> Inl (WBadMagic (Magic rh))
           | Some bo \<Rightarrow> Inr \<lparr>ww_r = it, ww_rHeader = rh, ww_chksum1 = Checksum1 rh,
               ww_chksum2 = Checksum2 rh, ww_bo = bo\<rparr>))"

text \<open>
  The write functions return the byte count, the error if any, the writer and the sink. The
  header buffers filled by \<^verbatim>\<open>PutUint32\<close> at offsets 0, 4, 8 and so on are written as the
  concatenation of their fields.
\<close>

type_synonym 'it wrote = "(nat \<times> wal_err option) \<times> 'it wal_writer \<times> sink"

definition writeWALHeader :: "'it wal_writer \<Rightarrow> sink \<Rightarrow> 'it wrote" where
  "writeWALHeader w s =
     (let h = ww_rHeader w;
          w1 = w\<lparr>ww_chksum1 := Checksum1 h, ww_chksum2 := Checksum2 h\<rparr>;
          wHeader = be_put32 (Magic h) @ be_put32 (Version h) @ be_put32 (PageSize h) @
            be_put32 (Seq h) @ be_put32 (Salt1 h) @ be_put32 (Salt2 h) @
            be_put32 (ww_chksum1 w1) @ be_put32 (ww_chksum2 w1)
      in case sink_write wHeader s of
           (nn, ok, s') \<Rightarrow> ((nn, if ok then None else Some WShortWrite), w1, s'))"

definition writeFrame :: "'it wal_writer \<Rightarrow> sink \<Rightarrow> Frame \<Rightarrow> 'it wrote" where
  "writeFrame w s f =
     (let h = ww_rHeader w;
          pre = be_put32 (Pgno f) @ be_put32 (Commit f)
      in case WALChecksum (ww_bo w) (ww_chksum1 w) (ww_chksum2 w) pre of
           None \<Rightarrow> ((0, Some WPanic), w, s)
         | Some (a, b) \<Rightarrow>
             (case WALChecksum (ww_bo w) a b (Data f) of
                None \<Rightarrow> ((0, Some WPanic), w\<lparr>ww_chksum1 := a, ww_chksum2 := b\<rparr>, s)
              | Some (c, d) \<Rightarrow>
                  (let w1 = w\<lparr>ww_chksum1 := c, ww_chksum2 := d\<rparr>;
                       frmHdr = pre @ be_put32 (Salt1 h) @ be_put32 (Salt2 h) @ be_put32 c @ be_put32 d
                   in case sink_write frmHdr s of
                        (nn, ok, s1) \<Rightarrow>
                          if \<not> ok then ((nn, Some WShortWrite), w1, s1)
                          else (case sink_write (Data f) s1 of
                                  (nn2, ok2, s2) \<Rightarrow>
                                    ((nn + nn2, if ok2 then None else Some WShortWrite), w1, s2)))))"

partial_function (option) write_loop ::
  "('it \<Rightarrow> (wal_err, Frame) result \<times> 'it) \<Rightarrow> nat \<Rightarrow> 'it wal_writer \<Rightarrow> sink \<Rightarrow> 'it wrote option" where
  "write_loop next n w s =
     (case next (ww_r w) of
        (Inl e, it) \<Rightarrow> Some ((n, if e = WEOF then None else Some e), w\<lparr>ww_r := it\<rparr>, s)
      | (Inr f, it) \<Rightarrow>
          (case writeFrame (w\<lparr>ww_r := it\<rparr>) s f of
             ((nn, Some e), w', s') \<Rightarrow> Some ((n + nn, Some e), w', s')
           | ((nn, None), w', s') \<Rightarrow> write_loop next (n + nn) w' s'))"

definition WriteTo ::
  "('it \<Rightarrow> (wal_err, Frame) result \<times> 'it) \<Rightarrow> 'it wal_writer \<Rightarrow> sink \<Rightarrow> 'it wrote option" where
  "WriteTo next w s =
     (case writeWALHeader w s of
        ((nn, Some e), w', s') \<Rightarrow> Some ((nn, Some e), w', s')
      | ((nn, None), w', s') \<Rightarrow> write_loop next nn w' s')"

section \<open>What one write does\<close>

text \<open>
  A write of \<open>img\<close> that stopped after \<open>n\<close> bytes: the sink holds the first \<open>n\<close> bytes of the
  image, and all of it unless the write failed.
\<close>

definition wrote_prefix :: "bytes \<Rightarrow> sink \<Rightarrow> nat \<Rightarrow> sink \<Rightarrow> bool" where
  "wrote_prefix img s n s' \<longleftrightarrow>
     out s' = out s @ take n img \<and> n \<le> length img \<and> cap s' = cap s"

lemma wrote_prefix_refl [simp]: "wrote_prefix img s 0 s"
  by (simp add: wrote_prefix_def)

lemma wrote_prefix_extend:
  "wrote_prefix xs s n s' \<Longrightarrow> wrote_prefix (xs @ ys) s n s'"
  by (auto simp: wrote_prefix_def)

lemma wrote_prefix_trans:
  assumes "wrote_prefix xs s (length xs) s1" and "wrote_prefix ys s1 n s2"
  shows "wrote_prefix (xs @ ys) s (length xs + n) s2"
  using assms by (simp add: wrote_prefix_def)

lemma sink_write_prefix:
  assumes "sink_write bs s = (n, ok, s')"
  shows "wrote_prefix bs s n s'" and "ok \<Longrightarrow> n = length bs" and "cap s = None \<Longrightarrow> ok"
  using assms by (auto simp: sink_write_def wrote_prefix_def Let_def split: option.splits if_splits)

lemma writeWALHeader_spec:
  assumes "writeWALHeader w s = ((n, err), w', s')"
  shows "wrote_prefix (enc_header (ww_rHeader w)) s n s'"
    and "err = None \<Longrightarrow> n = 32" and "cap s = None \<Longrightarrow> err = None"
    and "w' = w\<lparr>ww_chksum1 := Checksum1 (ww_rHeader w), ww_chksum2 := Checksum2 (ww_rHeader w)\<rparr>"
proof -
  obtain ok where sw: "sink_write (enc_header (ww_rHeader w)) s = (n, ok, s')"
    and err: "err = (if ok then None else Some WShortWrite)"
    and w': "w' = w\<lparr>ww_chksum1 := Checksum1 (ww_rHeader w), ww_chksum2 := Checksum2 (ww_rHeader w)\<rparr>"
    using assms by (auto simp: writeWALHeader_def enc_header_def enc_header24_def Let_def split: prod.splits)
  note p = sink_write_prefix [OF sw]
  show "wrote_prefix (enc_header (ww_rHeader w)) s n s'" by (rule p(1))
  show "n = 32" if "err = None" using that p(2) by (simp add: err split: if_splits)
  show "err = None" if "cap s = None" using p(3) [OF that] by (simp add: err)
  show "w' = w\<lparr>ww_chksum1 := Checksum1 (ww_rHeader w), ww_chksum2 := Checksum2 (ww_rHeader w)\<rparr>"
    by (rule w')
qed

definition writer_sum :: "'it wal_writer \<Rightarrow> u32 \<times> u32" where
  "writer_sum w = (ww_chksum1 w, ww_chksum2 w)"

abbreviation frame_bytes :: "'it wal_writer \<Rightarrow> Frame \<Rightarrow> bytes" where
  "frame_bytes w f \<equiv>
     enc_frame (ww_bo w) (Salt1 (ww_rHeader w)) (Salt2 (ww_rHeader w)) (writer_sum w) f"

lemma writeFrame_spec:
  assumes "writeFrame w s f = ((n, err), w', s')"
  shows "wrote_prefix (frame_bytes w f) s n s'"
    and "err = None \<Longrightarrow> n = length (frame_bytes w f)"
    and "cap s = None \<Longrightarrow> length (Data f) mod 8 = 0 \<Longrightarrow> err = None"
    and "ww_r w' = ww_r w" and "ww_rHeader w' = ww_rHeader w" and "ww_bo w' = ww_bo w"
    and "err = None \<Longrightarrow> writer_sum w' = frame_sum (ww_bo w) (writer_sum w) f"
    and "err \<noteq> Some WEOF"
proof -
  let ?pre = "be_put32 (Pgno f) @ be_put32 (Commit f)" and ?h = "ww_rHeader w"
  obtain a b where ab: "chksum_loop (ww_bo w) (ww_chksum1 w) (ww_chksum2 w) ?pre = (a, b)"
    by (cases "chksum_loop (ww_bo w) (ww_chksum1 w) (ww_chksum2 w) ?pre")
  obtain c d where cd: "chksum_loop (ww_bo w) a b (Data f) = (c, d)"
    by (cases "chksum_loop (ww_bo w) a b (Data f)")
  have sum: "frame_sum (ww_bo w) (writer_sum w) f = (c, d)"
    using ab cd by (simp add: frame_sum_def writer_sum_def)
  define hdr where "hdr = ?pre @ be_put32 (Salt1 ?h) @ be_put32 (Salt2 ?h) @ be_put32 c @ be_put32 d"
  have enc: "frame_bytes w f = hdr @ Data f" by (simp add: enc_frame_def sum hdr_def)
  obtain n1 ok1 s1 where s1: "sink_write hdr s = (n1, ok1, s1)" by (cases "sink_write hdr s")
  obtain n2 ok2 s2 where s2: "sink_write (Data f) s1 = (n2, ok2, s2)" by (cases "sink_write (Data f) s1")
  note p1 = sink_write_prefix [OF s1] and p2 = sink_write_prefix [OF s2]
  have cap1: "cap s1 = cap s" using p1(1) by (simp add: wrote_prefix_def)
  have pre8: "WALChecksum (ww_bo w) (ww_chksum1 w) (ww_chksum2 w) ?pre = Some (a, b)"
    using ab by (simp add: WALChecksum_def)
  consider (panic) "length (Data f) mod 8 \<noteq> 0" "n = 0" "err = Some WPanic" "s' = s"
      "w' = w\<lparr>ww_chksum1 := a, ww_chksum2 := b\<rparr>"
    | (short) "\<not> ok1" "n = n1" "err = Some WShortWrite" "s' = s1" "w' = w\<lparr>ww_chksum1 := c, ww_chksum2 := d\<rparr>"
    | (data) "ok1" "n = n1 + n2" "err = (if ok2 then None else Some WShortWrite)" "s' = s2"
      "w' = w\<lparr>ww_chksum1 := c, ww_chksum2 := d\<rparr>"
    using assms pre8 cd s1 s2
    by (cases "length (Data f) mod 8 = 0"; cases ok1)
      (auto simp: writeFrame_def WALChecksum_def hdr_def Let_def)
  note outcome = this
  from outcome show "wrote_prefix (frame_bytes w f) s n s'"
  proof cases
    case short
    then show ?thesis using p1(1) by (simp add: enc wrote_prefix_extend)
  next
    case data
    then show ?thesis
      using wrote_prefix_trans [of hdr s s1 "Data f" n2 s2] p1 p2(1) by (simp add: enc)
  qed simp
  from outcome show "err = None \<Longrightarrow> n = length (frame_bytes w f)"
    using p1(2) p2(2) by cases (auto simp: enc split: if_splits)
  from outcome show "cap s = None \<Longrightarrow> length (Data f) mod 8 = 0 \<Longrightarrow> err = None"
    using p1(3) p2(3) cap1 by cases auto
  from outcome show "ww_r w' = ww_r w" and "ww_rHeader w' = ww_rHeader w" and "ww_bo w' = ww_bo w"
    by (cases; simp)+
  from outcome show "err = None \<Longrightarrow> writer_sum w' = frame_sum (ww_bo w) (writer_sum w) f"
    unfolding sum by cases (simp_all add: writer_sum_def)
  from outcome show "err \<noteq> Some WEOF" by cases auto
qed

section \<open>The iterator interface\<close>

text \<open>
  The contract of \<^verbatim>\<open>WALIterator\<close>. \<open>frames_of\<close> are the frames still to come and \<open>end_of\<close>
  the error \<^verbatim>\<open>Next\<close> returns after them; each call returns the first of the frames and leaves
  the others.
\<close>

locale wal_iterator =
  fixes "next" :: "'it \<Rightarrow> (wal_err, Frame) result \<times> 'it"
    and frames_of :: "'it \<Rightarrow> Frame list"
    and end_of :: "'it \<Rightarrow> wal_err"
  assumes next_frame: "frames_of it = f # fs \<Longrightarrow>
      \<exists>it'. next it = (Inr f, it') \<and> frames_of it' = fs \<and> end_of it' = end_of it"
    and next_end: "frames_of it = [] \<Longrightarrow> \<exists>it'. next it = (Inl (end_of it), it')"
begin

lemma write_loop_spec:
  assumes "frames_of (ww_r w) = fs"
  shows "\<exists>n' err w' s'. write_loop next n w s = Some ((n + n', err), w', s') \<and>
    wrote_prefix (enc_frames (ww_bo w) (Salt1 (ww_rHeader w)) (Salt2 (ww_rHeader w)) (writer_sum w) fs)
      s n' s' \<and>
    (err = None \<longrightarrow> end_of (ww_r w) = WEOF \<and>
      n' = length (enc_frames (ww_bo w) (Salt1 (ww_rHeader w)) (Salt2 (ww_rHeader w)) (writer_sum w) fs)) \<and>
    (cap s = None \<longrightarrow> list_all (\<lambda>f. length (Data f) mod 8 = 0) fs \<longrightarrow>
      err = (if end_of (ww_r w) = WEOF then None else Some (end_of (ww_r w))))"
  using assms
proof (induction fs arbitrary: n w s)
  case Nil
  then obtain it' where nx: "next (ww_r w) = (Inl (end_of (ww_r w)), it')"
    using next_end by blast
  show ?case
    by (subst write_loop.simps) (auto simp: nx intro!: exI [of _ 0])
next
  case (Cons f fs)
  from next_frame [OF Cons.prems] obtain it' where nx: "next (ww_r w) = (Inr f, it')"
    and fr': "frames_of it' = fs" and en': "end_of it' = end_of (ww_r w)" by blast
  let ?w = "w\<lparr>ww_r := it'\<rparr>"
  obtain nn err1 w1 s1 where wf: "writeFrame ?w s f = ((nn, err1), w1, s1)"
    by (metis prod.collapse)
  note ws = writeFrame_spec [OF wf]
  have sum: "writer_sum ?w = writer_sum w" by (simp add: writer_sum_def)
  show ?case
  proof (cases err1)
    case (Some e)
    then have "write_loop next n w s = Some ((n + nn, Some e), w1, s1)"
      by (subst write_loop.simps) (simp add: nx wf)
    moreover have "wrote_prefix (enc_frames (ww_bo w) (Salt1 (ww_rHeader w)) (Salt2 (ww_rHeader w))
        (writer_sum w) (f # fs)) s nn s1"
      using ws(1) by (simp add: sum wrote_prefix_extend)
    moreover have "\<not> (cap s = None \<and> length (Data f) mod 8 = 0)" using ws(3) Some by (cases "cap s") auto
    ultimately show ?thesis by auto
  next
    case None
    have w1: "ww_r w1 = it'" "ww_rHeader w1 = ww_rHeader w" "ww_bo w1 = ww_bo w"
      "writer_sum w1 = frame_sum (ww_bo w) (writer_sum w) f"
      using ws(4,5,6,7) None by (simp_all add: sum)
    have nn: "nn = length (frame_bytes w f)" using ws(2) None by (simp add: sum)
    have cap1: "cap s1 = cap s" using ws(1) by (simp add: wrote_prefix_def)
    have step: "write_loop next n w s = write_loop next (n + nn) w1 s1"
      by (subst write_loop.simps) (simp add: nx wf None)
    from Cons.IH [of w1 "n + nn" s1, unfolded w1, OF fr']
    obtain n' err w' s' where
      wl: "write_loop next (n + nn) w1 s1 = Some ((n + nn + n', err), w', s')"
      and pre: "wrote_prefix (enc_frames (ww_bo w) (Salt1 (ww_rHeader w)) (Salt2 (ww_rHeader w))
        (frame_sum (ww_bo w) (writer_sum w) f) fs) s1 n' s'"
      and ok: "err = None \<longrightarrow> end_of it' = WEOF \<and> n' = length (enc_frames (ww_bo w)
        (Salt1 (ww_rHeader w)) (Salt2 (ww_rHeader w)) (frame_sum (ww_bo w) (writer_sum w) f) fs)"
      and unb: "cap s1 = None \<longrightarrow> list_all (\<lambda>f. length (Data f) mod 8 = 0) fs \<longrightarrow>
        err = (if end_of it' = WEOF then None else Some (end_of it'))"
      by (elim exE conjE) (rule that)
    have "wrote_prefix (enc_frames (ww_bo w) (Salt1 (ww_rHeader w)) (Salt2 (ww_rHeader w))
        (writer_sum w) (f # fs)) s (nn + n') s'"
      using wrote_prefix_trans [of "frame_bytes w f" s s1] ws(1) pre nn by (simp add: sum)
    note whole = this
    show ?thesis
    proof (intro exI [of _ "nn + n'"] exI [of _ err] exI [of _ w'] exI [of _ s'] conjI impI)
      show "write_loop next n w s = Some ((n + (nn + n'), err), w', s')"
        using step wl by (simp add: add.assoc)
      assume "err = None"
      with ok en' show "end_of (ww_r w) = WEOF" by simp
    next
      assume "err = None"
      with ok nn show "nn + n' = length (enc_frames (ww_bo w) (Salt1 (ww_rHeader w))
          (Salt2 (ww_rHeader w)) (writer_sum w) (f # fs))" by simp
    next
      assume "cap s = None" and "list_all (\<lambda>f. length (Data f) mod 8 = 0) (f # fs)"
      with unb cap1 en' show "err = (if end_of (ww_r w) = WEOF then None else Some (end_of (ww_r w)))"
        by (simp only: list.pred_inject simp_thms)
    qed (rule whole)
  qed
qed

text \<open>\<^const>\<open>WriteTo\<close> returns, and has written the image of the iterator's log or a prefix of it.\<close>

lemma WriteTo_spec:
  assumes "ww_bo w = header_order (ww_rHeader w)"
  shows "\<exists>n err w' s'. WriteTo next w s = Some ((n, err), w', s') \<and>
    wrote_prefix (wal_image (ww_rHeader w) (frames_of (ww_r w))) s n s' \<and>
    (err = None \<longrightarrow> end_of (ww_r w) = WEOF \<and>
      n = length (wal_image (ww_rHeader w) (frames_of (ww_r w)))) \<and>
    (cap s = None \<longrightarrow> list_all (\<lambda>f. length (Data f) mod 8 = 0) (frames_of (ww_r w)) \<longrightarrow>
      err = (if end_of (ww_r w) = WEOF then None else Some (end_of (ww_r w))))"
proof -
  obtain nn err1 w1 s1 where wh: "writeWALHeader w s = ((nn, err1), w1, s1)"
    by (metis prod.collapse)
  note ws = writeWALHeader_spec [OF wh]
  show ?thesis
  proof (cases err1)
    case (Some e)
    with wh ws(1,3) show ?thesis
      by (auto simp: WriteTo_def wal_image_def wrote_prefix_extend)
  next
    case None
    have nn: "nn = length (enc_header (ww_rHeader w))" using ws(2) None by simp
    have cap1: "cap s1 = cap s" using ws(1) by (simp add: wrote_prefix_def)
    have w1: "ww_r w1 = ww_r w" "ww_rHeader w1 = ww_rHeader w" "ww_bo w1 = ww_bo w"
      "writer_sum w1 = (Checksum1 (ww_rHeader w), Checksum2 (ww_rHeader w))"
      by (simp_all add: ws(4) writer_sum_def)
    from write_loop_spec [of w1 "frames_of (ww_r w)" nn s1, unfolded w1 assms, OF refl]
    obtain n' err w' s' where
      wl: "write_loop next nn w1 s1 = Some ((nn + n', err), w', s')"
      and pre: "wrote_prefix (enc_frames (header_order (ww_rHeader w)) (Salt1 (ww_rHeader w))
        (Salt2 (ww_rHeader w)) (Checksum1 (ww_rHeader w), Checksum2 (ww_rHeader w))
        (frames_of (ww_r w))) s1 n' s'"
      and ok: "err = None \<longrightarrow> end_of (ww_r w) = WEOF \<and> n' = length (enc_frames
        (header_order (ww_rHeader w)) (Salt1 (ww_rHeader w)) (Salt2 (ww_rHeader w))
        (Checksum1 (ww_rHeader w), Checksum2 (ww_rHeader w)) (frames_of (ww_r w)))"
      and unb: "cap s1 = None \<longrightarrow> list_all (\<lambda>f. length (Data f) mod 8 = 0) (frames_of (ww_r w)) \<longrightarrow>
        err = (if end_of (ww_r w) = WEOF then None else Some (end_of (ww_r w)))"
      by (elim exE conjE) (rule that)
    have "WriteTo next w s = Some ((nn + n', err), w', s')"
      using wh None wl by (simp add: WriteTo_def)
    moreover have "wrote_prefix (wal_image (ww_rHeader w) (frames_of (ww_r w))) s (nn + n') s'"
      using wrote_prefix_trans [of "enc_header (ww_rHeader w)" s s1] ws(1) pre nn
      by (simp add: wal_image_def)
    moreover have "err = None \<longrightarrow> end_of (ww_r w) = WEOF \<and>
        nn + n' = length (wal_image (ww_rHeader w) (frames_of (ww_r w)))"
      using ok nn by (simp add: wal_image_def)
    moreover note unb [unfolded cap1]
    ultimately show ?thesis by (intro exI conjI)
  qed
qed

end

interpretation full_it: wal_iterator fs_Next "\<lambda>f. fst (fs_frames f)" "\<lambda>f. snd (fs_frames f)"
proof (unfold_locales, goal_cases)
  case (1 it f fs)
  then show ?case
    using fs_frames.simps [of it] by (auto split: prod.splits sum.splits)
next
  case (2 it)
  then show ?case
    using fs_frames.simps [of it] by (auto split: prod.splits sum.splits)
qed

end
