(* ===== verification/Wal_Compact.thy ===== *)
theory Wal_Compact
  imports Wal_Writer
begin

text \<open>
  \<^verbatim>\<open>db/wal/compacting_scanner.go\<close>: the scanner that keeps, for every database page, the last
  committed frame of a log. The Go maps \<^verbatim>\<open>txFrames\<close> and \<^verbatim>\<open>frames\<close> are association lists;
  Go walks a map in an unspecified order, and the final sort by file offset makes the result
  independent of it (\<open>sort_last_entries\<close>).
\<close>

section \<open>Scanner\<close>

record cFrame =
  cf_Pgno :: u32
  cf_Commit :: u32
  cf_Offset :: nat

type_synonym frame_map = "(u32 \<times> cFrame) list"

record compacting_scanner =
  cs_walReader :: wal_reader
  cs_header :: WALHeader
  cs_fullScan :: bool
  cs_cIdx :: nat
  cs_frames :: "cFrame list"

text \<open>The loop of \<^verbatim>\<open>scan\<close>; \<open>buf\<close> is nil unless the scan is a full one.\<close>

function scan_loop ::
  "nat option \<Rightarrow> wal_reader \<Rightarrow> frame_map \<Rightarrow> frame_map \<Rightarrow> bool \<Rightarrow>
   (wal_err, frame_map \<times> bool) result \<times> wal_reader" where
  "scan_loop buf r txFrames frames waitingForCommit =
     (case ReadFrame buf r of
        (Inl e, r') \<Rightarrow> (if e = WEOF then Inr (frames, waitingForCommit) else Inl e, r')
      | (Inr (pgno, commit, page), r') \<Rightarrow>
          (let frame = \<lparr>cf_Pgno = pgno, cf_Commit = commit, cf_Offset = Offset r'\<rparr>;
               tx = AList.update pgno frame txFrames
           in if commit = 0 then scan_loop buf r' tx frames True
              else scan_loop buf r' [] (copy_map tx frames) False))"
  by pat_completeness auto
termination
proof (relation "measure (\<lambda>(buf, r, tx, frames, w). length (rs_bytes (rd_rs r)) - rs_pos (rd_rs r))",
    goal_cases)
  case 1
  show ?case by simp
qed (auto dest!: ReadFrame_shrinks [OF sym])

declare scan_loop.simps [simp del]

definition scan :: "compacting_scanner \<Rightarrow> wal_err option \<times> compacting_scanner" where
  "scan c =
     (let buf = (if cs_fullScan c then Some (unat (PageSize (cs_header c))) else None)
      in case scan_loop buf (cs_walReader c) [] [] False of
           (Inl e, r) \<Rightarrow> (Some e, c\<lparr>cs_walReader := r\<rparr>)
         | (Inr (frames, waitingForCommit), r) \<Rightarrow>
             if waitingForCommit then (Some WErrOpenTransaction, c\<lparr>cs_walReader := r\<rparr>)
             else (None, c\<lparr>cs_walReader := r, cs_frames := sort_key cf_Offset (map snd frames)\<rparr>))"

definition NewCompactingScanner :: "read_seeker \<Rightarrow> bool \<Rightarrow> (wal_err, compacting_scanner) result" where
  "NewCompactingScanner rs fullScan =
     (case ReadHeader (NewReader rs) of
        (Some e, _) \<Rightarrow> Inl e
      | (None, walReader) \<Rightarrow>
          (case scan \<lparr>cs_walReader = walReader, cs_header = reader_header walReader,
                      cs_fullScan = fullScan, cs_cIdx = 0, cs_frames = []\<rparr> of
             (Some e, _) \<Rightarrow> Inl e
           | (None, s) \<Rightarrow> Inr s))"

definition NewFastCompactingScanner :: "read_seeker \<Rightarrow> (wal_err, compacting_scanner) result" where
  "NewFastCompactingScanner rs = NewCompactingScanner rs False"

text \<open>The scanner and its reader share one \<^verbatim>\<open>io.ReadSeeker\<close>, so both move its position.\<close>

definition cs_seek_read ::
  "compacting_scanner \<Rightarrow> cFrame \<Rightarrow> (io_err, bytes) result \<times> read_seeker" where
  "cs_seek_read c cf =
     read_full (unat (PageSize (cs_header c)))
       (seek_start (cf_Offset cf + WALFrameHeaderSize) (rd_rs (cs_walReader c)))"

definition cs_Next :: "compacting_scanner \<Rightarrow> (wal_err, Frame) result \<times> compacting_scanner" where
  "cs_Next c =
     (if cs_cIdx c \<ge> length (cs_frames c) then (Inl WEOF, c)
      else let cf = cs_frames c ! cs_cIdx c in
        case cs_seek_read c cf of
          (Inl e, rs) \<Rightarrow> (Inl (WIo e), c\<lparr>cs_walReader := (cs_walReader c)\<lparr>rd_rs := rs\<rparr>\<rparr>)
        | (Inr page, rs) \<Rightarrow>
            (Inr \<lparr>Pgno = cf_Pgno cf, Commit = cf_Commit cf, Data = page\<rparr>,
             c\<lparr>cs_walReader := (cs_walReader c)\<lparr>rd_rs := rs\<rparr>, cs_cIdx := cs_cIdx c + 1\<rparr>))"

section \<open>The compacted log as one buffer\<close>

definition header_Copy :: "WALHeader \<Rightarrow> bytes \<Rightarrow> bytes option" where
  "header_Copy h b =
     (if length b < WALHeaderSize then None
      else Some
        (blit 28 (be_put32 (Checksum2 h)) (blit 24 (be_put32 (Checksum1 h))
        (blit 20 (be_put32 (Salt2 h)) (blit 16 (be_put32 (Salt1 h))
        (blit 12 (be_put32 (Seq h)) (blit 8 (be_put32 (PageSize h))
        (blit 4 (be_put32 (Version h)) (blit 0 (be_put32 (Magic h)) b)))))))))"

fun bytes_loop ::
  "byte_order \<Rightarrow> compacting_scanner \<Rightarrow> nat \<Rightarrow> u32 \<Rightarrow> u32 \<Rightarrow> bytes \<Rightarrow> cFrame list \<Rightarrow>
   (wal_err, bytes) result \<times> compacting_scanner" where
  "bytes_loop bo c frmHdr chksum1 chksum2 buf [] = (Inr buf, c)"
| "bytes_loop bo c frmHdr chksum1 chksum2 buf (frame # frames) =
     (let pageSz = unat (PageSize (cs_header c));
          frmData = frmHdr + WALFrameHeaderSize;
          buf1 = blit (frmHdr + 12) (be_put32 (Salt2 (cs_header c)))
            (blit (frmHdr + 8) (be_put32 (Salt1 (cs_header c)))
            (blit (frmHdr + 4) (be_put32 (cf_Commit frame))
            (blit frmHdr (be_put32 (cf_Pgno frame)) buf)))
      in case WALChecksum bo chksum1 chksum2 (take 8 (drop frmHdr buf1)) of
           None \<Rightarrow> (Inl WPanic, c)
         | Some (a, b) \<Rightarrow>
             (case cs_seek_read c frame of
                (Inl e, rs) \<Rightarrow> (Inl (WIo e), c\<lparr>cs_walReader := (cs_walReader c)\<lparr>rd_rs := rs\<rparr>\<rparr>)
              | (Inr page, rs) \<Rightarrow>
                  (let c' = c\<lparr>cs_walReader := (cs_walReader c)\<lparr>rd_rs := rs\<rparr>\<rparr>;
                       buf2 = blit frmData page buf1
                   in case WALChecksum bo a b (take pageSz (drop frmData buf2)) of
                        None \<Rightarrow> (Inl WPanic, c')
                      | Some (s0, s1) \<Rightarrow>
                          bytes_loop bo c' (frmHdr + WALFrameHeaderSize + pageSz) s0 s1
                            (blit (frmHdr + 20) (be_put32 s1) (blit (frmHdr + 16) (be_put32 s0) buf2))
                            frames)))"

definition cs_Bytes :: "compacting_scanner \<Rightarrow> (wal_err, bytes) result \<times> compacting_scanner" where
  "cs_Bytes c =
     (let h = cs_header c; pageSz = unat (PageSize h); n = length (cs_frames c);
          buf = replicate (WALHeaderSize + n * WALFrameHeaderSize + n * pageSz) 0
      in case header_Copy h buf of
           None \<Rightarrow> (Inl WPanic, c)
         | Some buf1 \<Rightarrow>
             (case magic_order (Magic h) of
                None \<Rightarrow> (Inl (WBadMagic (Magic h)), c)
              | Some bo \<Rightarrow>
                  bytes_loop bo c WALHeaderSize (Checksum1 h) (Checksum2 h) buf1 (cs_frames c)))"

end
