(* ===== verification/Wal_Compaction.thy ===== *)
theory Wal_Compaction
  imports Wal_Compact
begin

text \<open>
  Correctness of log compaction. The specification is on frame lists: \<open>last_per_page\<close> keeps
  the last frame of every page, \<open>replay\<close> is what applying a log to a database does. The scanner
  returns exactly \<open>last_per_page\<close> of a committed log, both of its serialisations are the
  image of that list, and replaying the compacted log gives the database the full log gives.
\<close>

section \<open>Specification\<close>

fun keep_last :: "('a \<Rightarrow> 'k) \<Rightarrow> 'a list \<Rightarrow> 'a list" where
  "keep_last key [] = []"
| "keep_last key (x # xs) =
     (if key x \<in> key ` set xs then keep_last key xs else x # keep_last key xs)"

definition last_per_page :: "Frame list \<Rightarrow> Frame list" where
  "last_per_page = keep_last Pgno"

text \<open>A log whose last frame commits; an empty log has no open transaction either.\<close>

definition committed :: "Frame list \<Rightarrow> bool" where
  "committed fs \<longleftrightarrow> (fs \<noteq> [] \<longrightarrow> Commit (last fs) \<noteq> 0)"

text \<open>
  Replaying a log: pages of a transaction take effect when its commit frame is reached, which
  also sets the size of the database in pages.
\<close>

record database =
  db_pages :: "u32 \<rightharpoonup> bytes"
  db_size :: u32

primrec replay_tx :: "(u32 \<rightharpoonup> bytes) \<Rightarrow> database \<Rightarrow> Frame list \<Rightarrow> database" where
  "replay_tx tx db [] = db"
| "replay_tx tx db (f # fs) =
     (let tx' = tx(Pgno f \<mapsto> Data f)
      in if Commit f = 0 then replay_tx tx' db fs
         else replay_tx Map.empty (db\<lparr>db_pages := db_pages db ++ tx', db_size := Commit f\<rparr>) fs)"

definition replay :: "database \<Rightarrow> Frame list \<Rightarrow> database" where
  "replay db fs = replay_tx Map.empty db fs"

section \<open>Keeping the last element per key\<close>

lemma keep_last_keys [simp]: "key ` set (keep_last key xs) = key ` set xs"
  by (induction xs) auto

lemma keep_last_subset: "set (keep_last key xs) \<subseteq> set xs"
  by (induction xs) auto

lemma distinct_keep_last: "distinct (map key (keep_last key xs))"
proof (induction xs)
  case (Cons x xs)
  then show ?case using keep_last_keys [of key xs] by (auto simp del: keep_last_keys)
qed simp

lemma keep_last_idem [simp]: "keep_last key (keep_last key xs) = keep_last key xs"
  by (induction xs) auto

lemma keep_last_map: "keep_last key (map g xs) = map g (keep_last (key \<circ> g) xs)"
  by (induction xs) (auto simp: image_comp [symmetric])

lemma last_keep_last: "xs \<noteq> [] \<Longrightarrow> keep_last key xs \<noteq> [] \<and> last (keep_last key xs) = last xs"
  by (induction xs) (auto split: if_splits)

lemma sorted_keep_last: "sorted_wrt R xs \<Longrightarrow> sorted_wrt R (keep_last key xs)"
  by (induction xs) (auto dest: subsetD [OF keep_last_subset])

lemma list_all_keep_last: "list_all P xs \<Longrightarrow> list_all P (keep_last key xs)"
  using keep_last_subset [of key xs] by (auto simp: list_all_iff)

text \<open>The map a list builds when each element overwrites the one before with the same key.\<close>

definition upd_all :: "('a \<Rightarrow> 'k) \<Rightarrow> ('a \<Rightarrow> 'v) \<Rightarrow> 'a list \<Rightarrow> ('k \<rightharpoonup> 'v) \<Rightarrow> ('k \<rightharpoonup> 'v)" where
  "upd_all key val xs m = fold (\<lambda>x m. m(key x \<mapsto> val x)) xs m"

lemma upd_all_simps [simp]:
  "upd_all key val [] m = m"
  "upd_all key val (x # xs) m = upd_all key val xs (m(key x \<mapsto> val x))"
  "upd_all key val (xs @ ys) m = upd_all key val ys (upd_all key val xs m)"
  by (simp_all add: upd_all_def)

lemma upd_all_add: "m ++ upd_all key val xs m' = upd_all key val xs (m ++ m')"
  by (induction xs arbitrary: m') simp_all

lemma upd_all_other: "k \<notin> key ` set xs \<Longrightarrow> upd_all key val xs m k = m k"
  by (induction xs arbitrary: m) auto

lemma upd_all_overwrite:
  "key x \<in> key ` set xs \<Longrightarrow> upd_all key val xs (m(key x \<mapsto> v)) = upd_all key val xs m"
proof (induction xs arbitrary: m)
  case (Cons y ys)
  show ?case
  proof (cases "key x = key y")
    case False
    with Cons have "key x \<in> key ` set ys" by auto
    from Cons.IH [OF this, of "m(key y \<mapsto> val y)"] show ?thesis
      by (simp add: fun_upd_twist [OF False] del: fun_upd_apply)
  qed (simp del: fun_upd_apply)
qed simp

lemma upd_all_keep_last: "upd_all key val (keep_last key xs) m = upd_all key val xs m"
proof (induction xs arbitrary: m)
  case (Cons x xs)
  then show ?case by (cases "key x \<in> key ` set xs") (simp_all add: upd_all_overwrite del: fun_upd_apply)
qed simp

lemma ran_upd_all: "ran (upd_all key (\<lambda>x. x) xs Map.empty) = set (keep_last key xs)"
proof -
  have "upd_all key (\<lambda>x. x) xs Map.empty = upd_all key (\<lambda>x. x) (keep_last key xs) Map.empty"
    by (simp add: upd_all_keep_last)
  moreover have "ran (upd_all key (\<lambda>x. x) ys m) = set ys \<union> ran m"
    if "distinct (map key ys)" and "\<forall>y \<in> set ys. m (key y) = None" for ys m
    using that
  proof (induction ys arbitrary: m)
    case (Cons y ys)
    then have "\<forall>z \<in> set ys. (m(key y \<mapsto> y)) (key z) = None" by (auto simp: rev_image_eqI)
    with Cons show ?case by auto
  qed simp
  ultimately show ?thesis by (simp add: distinct_keep_last)
qed

lemma upd_all_key:
  assumes "\<And>q x. m q = Some x \<Longrightarrow> q = key x" and "upd_all key (\<lambda>e. e) es m p = Some e"
  shows "p = key e"
  using assms
proof (induction es arbitrary: m)
  case (Cons a es)
  have "upd_all key (\<lambda>e. e) es (m(key a \<mapsto> a)) p = Some e"
    using Cons.prems(2) by (simp del: fun_upd_apply)
  then show ?case
    by (rule Cons.IH [rotated]) (use Cons.prems(1) in \<open>auto split: if_splits\<close>)
qed simp

section \<open>Replay\<close>

lemma replay_tx_committed:
  assumes "committed fs" and "fs \<noteq> []"
  shows "replay_tx tx db fs =
    db\<lparr>db_pages := upd_all Pgno Data fs (db_pages db ++ tx), db_size := Commit (last fs)\<rparr>"
  using assms
proof (induction fs arbitrary: tx db)
  case (Cons f fs)
  show ?case
  proof (cases "fs = []")
    case True
    with Cons.prems show ?thesis by (simp add: committed_def del: fun_upd_apply)
  next
    case False
    with Cons.prems have c: "committed fs" by (simp add: committed_def)
    show ?thesis
      using Cons.IH [OF c False] False
      by (simp add: Let_def del: fun_upd_apply)
  qed
qed simp

lemma committed_last_per_page [simp]: "committed (last_per_page fs) = committed fs"
  by (cases "fs = []") (auto simp: committed_def last_per_page_def dest: last_keep_last [of fs Pgno])

lemma replay_last_per_page:
  assumes "committed fs"
  shows "replay db (last_per_page fs) = replay db fs"
proof (cases "fs = []")
  case False
  have c': "committed (last_per_page fs)" using assms by simp
  from last_keep_last [OF False, of Pgno]
  have ne: "last_per_page fs \<noteq> []" and la: "last (last_per_page fs) = last fs"
    by (simp_all add: last_per_page_def)
  show ?thesis
    unfolding replay_def replay_tx_committed [OF assms False] replay_tx_committed [OF c' ne] la
    by (simp add: last_per_page_def upd_all_keep_last)
qed (simp add: last_per_page_def)

section \<open>The scan\<close>

text \<open>The scanner's record of the frame with index \<open>i\<close> in the log.\<close>

definition entry :: "nat \<Rightarrow> nat \<Rightarrow> Frame \<Rightarrow> cFrame" where
  "entry ps i f = \<lparr>cf_Pgno = Pgno f, cf_Commit = Commit f, cf_Offset = 32 + i * (24 + ps)\<rparr>"

definition entries :: "nat \<Rightarrow> nat \<Rightarrow> Frame list \<Rightarrow> cFrame list" where
  "entries ps k fs = map (\<lambda>(i, f). entry ps i f) (enumerate k fs)"

lemma entry_simps [simp]:
  "cf_Pgno (entry ps i f) = Pgno f" "cf_Commit (entry ps i f) = Commit f"
  "cf_Offset (entry ps i f) = 32 + i * (24 + ps)"
  by (simp_all add: entry_def)

lemma entries_simps [simp]:
  "entries ps k [] = []" "entries ps k (f # fs) = entry ps k f # entries ps (Suc k) fs"
  by (simp_all add: entries_def)

text \<open>
  A reader in either mode of \<^const>\<open>ReadFrame\<close>: with a buffer it also follows the checksums.
\<close>

definition mode_on :: "nat option \<Rightarrow> WALHeader \<Rightarrow> u32 \<times> u32 \<Rightarrow> wal_reader \<Rightarrow> bool" where
  "mode_on buf h c r \<longleftrightarrow>
     rd_pageSize r = PageSize h \<and> rd_salt1 r = Salt1 h \<and> rd_salt2 r = Salt2 h \<and>
     rs_bad (rd_rs r) = None \<and>
     (buf = None \<or> buf = Some (unat (PageSize h)) \<and> reader_on h c r)"

text \<open>Whether a byte string starts with a frame header that carries the log's salts.\<close>

definition salted :: "WALHeader \<Rightarrow> bytes \<Rightarrow> bool" where
  "salted h bs \<longleftrightarrow>
     24 \<le> length bs \<and> be_uint32 (drop 8 bs) = Salt1 h \<and> be_uint32 (drop 12 bs) = Salt2 h"

lemma starts_frame_salted: "starts_frame h c bs \<Longrightarrow> salted h bs"
  by (auto simp: starts_frame_def salted_def enc_frame_def)

lemma ReadFrame_step:
  assumes on: "mode_on buf h c r" and al: "aligned h" and len: "length (Data f) = unat (PageSize h)"
    and at: "drop (rs_pos (rd_rs r)) (rs_bytes (rd_rs r)) =
      enc_frame (header_order h) (Salt1 h) (Salt2 h) c f @ rest"
  obtains page r' where "ReadFrame buf r = (Inr (Pgno f, Commit f, page), r')"
    and "mode_on buf h (frame_sum (header_order h) c f) r'" and "rd_frameN r' = rd_frameN r + 1"
    and "rd_rs r' = (rd_rs r)\<lparr>rs_pos := rs_pos (rd_rs r) + (24 + unat (PageSize h))\<rparr>"
proof (cases buf)
  case (Some n)
  with on have n: "n = unat (PageSize h)" and ron: "reader_on h c r" and bad: "rs_bad (rd_rs r) = None"
    by (simp_all add: mode_on_def)
  obtain r' where "ReadFrame (Some (unat (PageSize h))) r = (Inr (Pgno f, Commit f, Data f), r')"
    and "reader_on h (frame_sum (header_order h) c f) r'" and "rd_frameN r' = rd_frameN r + 1"
    and "rd_rs r' = (rd_rs r)\<lparr>rs_pos := rs_pos (rd_rs r) + (24 + unat (PageSize h))\<rparr>"
    using ReadFrame_full_ok [OF ron al bad len at] .
  then show ?thesis
    by (intro that [of "Data f" r']) (use Some n bad in \<open>simp_all add: mode_on_def reader_on_def\<close>)
next
  case None
  let ?rs = "rd_rs r" and ?e = "enc_frame (header_order h) (Salt1 h) (Salt2 h) c f"
  have "drop (rs_pos ?rs) (rs_bytes ?rs) = take 24 ?e @ Data f @ rest"
    using at frame_header_rest [of "header_order h" "Salt1 h" "Salt2 h" c f] by simp
  then have rd: "read_full 24 ?rs = (Inr (take 24 ?e), ?rs\<lparr>rs_pos := rs_pos ?rs + 24\<rparr>)"
    using on by (intro read_full_ok) (simp_all add: mode_on_def)
  note fields = enc_frame_fields [OF refl, of "header_order h" "Salt1 h" "Salt2 h" c f]
  let ?r = "r\<lparr>rd_rs := ?rs\<lparr>rs_pos := rs_pos ?rs + (24 + unat (PageSize h))\<rparr>, rd_frameN := rd_frameN r + 1\<rparr>"
  have "ReadFrame buf r = (Inr (Pgno f, Commit f, []), ?r)"
    using None rd fields on
    by (simp add: ReadFrame_def WALFrameHeaderSize_def mode_on_def seek_current_def Let_def add.assoc)
  then show ?thesis
    by (rule that) (use None on in \<open>simp_all add: mode_on_def\<close>)
qed

lemma ReadFrame_stop:
  assumes on: "mode_on buf h c r" and al: "aligned h"
    and stop: "\<not> salted h (drop (rs_pos (rd_rs r)) (rs_bytes (rd_rs r)))"
  obtains r' where "ReadFrame buf r = (Inl WEOF, r')" and "rd_rs r' = snd (read_full 24 (rd_rs r))"
proof (cases "read_full 24 (rd_rs r)")
  case (Pair res rs1)
  have bad: "rs_bad (rd_rs r) = None" and buf: "buf = None \<or> buf = Some (unat (rd_pageSize r))"
    using on by (auto simp: mode_on_def)
  show ?thesis
  proof (cases res)
    case (Inl e)
    then show ?thesis
      using Pair buf read_err_eof [OF bad, of 24 e rs1]
      by (intro that [of "r\<lparr>rd_rs := rs1\<rparr>"]) (auto simp: ReadFrame_def WALFrameHeaderSize_def)
  next
    case (Inr hdr)
    note h = read_full_Inr [OF Pair [unfolded Inr]]
    let ?bs = "drop (rs_pos (rd_rs r)) (rs_bytes (rd_rs r))"
    have len: "24 \<le> length ?bs" using h(3) by simp
    then have "be_uint32 (drop 8 hdr) = be_uint32 (drop 8 ?bs)"
      "be_uint32 (drop 12 hdr) = be_uint32 (drop 12 ?bs)"
      using h(4) be_uint32_drop_take [of 8 24 ?bs] be_uint32_drop_take [of 12 24 ?bs] by simp_all
    with stop len on have "rd_salt1 r \<noteq> be_uint32 (drop 8 hdr) \<or> rd_salt2 r \<noteq> be_uint32 (drop 12 hdr)"
      by (auto simp: salted_def mode_on_def)
    then show ?thesis
      using Pair Inr buf
      by (intro that [of "r\<lparr>rd_rs := rs1\<rparr>"]) (auto simp: ReadFrame_def WALFrameHeaderSize_def Let_def)
  qed
qed

abbreviation last_entries :: "cFrame list \<Rightarrow> u32 \<rightharpoonup> cFrame" where
  "last_entries es \<equiv> upd_all cf_Pgno (\<lambda>e. e) es Map.empty"

lemma Offset_entry:
  assumes "rd_frameN r = k + 1" and "rd_pageSize r = PageSize h"
  shows "\<lparr>cf_Pgno = Pgno f, cf_Commit = Commit f, cf_Offset = Offset r\<rparr> = entry (unat (PageSize h)) k f"
  using assms by (simp add: Offset_def entry_def WALHeaderSize_def WALFrameHeaderSize_def)

text \<open>
  The loop's invariant: the transaction map holds the last entries \<open>et\<close> of the open transaction,
  the main map those of the committed part \<open>ec\<close>.
\<close>

lemma scan_loop_spec:
  assumes "mode_on buf h c r" and "aligned h" and "page_frames h fs" and "rd_frameN r = k"
    and "drop (rs_pos (rd_rs r)) (rs_bytes (rd_rs r)) =
      enc_frames (header_order h) (Salt1 h) (Salt2 h) c fs @ rest" and "\<not> salted h rest"
    and "distinct (map fst tx)" and "distinct (map fst frames)"
    and "map_of tx = last_entries et" and "map_of frames = last_entries ec"
    and "waiting = (et \<noteq> [])"
  shows "\<exists>frames' r'. scan_loop buf r tx frames waiting =
      (Inr (frames', if fs = [] then waiting else Commit (last fs) = 0), r') \<and>
    distinct (map fst frames') \<and> rs_bytes (rd_rs r') = rs_bytes (rd_rs r) \<and> rs_bad (rd_rs r') = None \<and>
    ((if fs = [] then \<not> waiting else Commit (last fs) \<noteq> 0) \<longrightarrow>
      map_of frames' = last_entries (ec @ et @ entries (unat (PageSize h)) k fs))"
  using assms
proof (induction fs arbitrary: c r k tx frames et ec waiting)
  case Nil
  then have "\<not> salted h (drop (rs_pos (rd_rs r)) (rs_bytes (rd_rs r)))" by simp
  from ReadFrame_stop [OF Nil.prems(1,2) this] obtain r' where
    "ReadFrame buf r = (Inl WEOF, r')" and "rd_rs r' = snd (read_full 24 (rd_rs r))" .
  then show ?case
    using Nil.prems by (subst scan_loop.simps) (simp add: mode_on_def)
next
  case (Cons f fs)
  let ?ps = "unat (PageSize h)" and ?e = "entry (unat (PageSize h)) k f"
  let ?tx = "AList.update (Pgno f) ?e tx"
  have len: "length (Data f) = ?ps" and pf: "page_frames h fs"
    using Cons.prems(3) by (simp_all add: page_frames_def)
  have at: "drop (rs_pos (rd_rs r)) (rs_bytes (rd_rs r)) =
      enc_frame (header_order h) (Salt1 h) (Salt2 h) c f @
      (enc_frames (header_order h) (Salt1 h) (Salt2 h) (frame_sum (header_order h) c f) fs @ rest)"
    using Cons.prems(5) by simp
  obtain page r1 where rd: "ReadFrame buf r = (Inr (Pgno f, Commit f, page), r1)"
    and on1: "mode_on buf h (frame_sum (header_order h) c f) r1" and fN: "rd_frameN r1 = k + 1"
    and rs1: "rd_rs r1 = (rd_rs r)\<lparr>rs_pos := rs_pos (rd_rs r) + (24 + ?ps)\<rparr>"
    using ReadFrame_step [OF Cons.prems(1,2) len at] Cons.prems(4) by metis
  have e: "\<lparr>cf_Pgno = Pgno f, cf_Commit = Commit f, cf_Offset = Offset r1\<rparr> = ?e"
    using fN on1 by (intro Offset_entry) (simp_all add: mode_on_def)
  have "drop (rs_pos (rd_rs r1)) (rs_bytes (rd_rs r1)) =
      drop (24 + ?ps) (drop (rs_pos (rd_rs r)) (rs_bytes (rd_rs r)))"
    by (simp add: rs1 add.commute)
  also have "\<dots> = enc_frames (header_order h) (Salt1 h) (Salt2 h) (frame_sum (header_order h) c f) fs @ rest"
    unfolding at by (simp add: len)
  finally have at1: "drop (rs_pos (rd_rs r1)) (rs_bytes (rd_rs r1)) =
      enc_frames (header_order h) (Salt1 h) (Salt2 h) (frame_sum (header_order h) c f) fs @ rest" .
  have dtx: "distinct (map fst ?tx)" using Cons.prems(7) by simp
  have mtx: "map_of ?tx = last_entries (et @ [?e])"
    by (simp add: map_of_update Cons.prems(9))
  note IH = Cons.IH [OF on1 Cons.prems(2) pf, where k = "k + 1", OF fN at1 Cons.prems(6)]
  show ?case
  proof (cases "Commit f = 0")
    case True
    have step: "scan_loop buf r tx frames waiting = scan_loop buf r1 ?tx frames True"
      by (subst scan_loop.simps) (simp add: rd e [unfolded True] True Let_def)
    show ?thesis
      using IH [of ?tx frames "et @ [?e]" ec True] dtx mtx Cons.prems(8,10) True
      by (auto simp: step rs1)
  next
    case False
    let ?fr = "copy_map ?tx frames"
    have step: "scan_loop buf r tx frames waiting = scan_loop buf r1 [] ?fr False"
      by (subst scan_loop.simps) (simp add: rd e False Let_def)
    have mfr: "map_of ?fr = last_entries (ec @ et @ [?e])"
      unfolding map_of_copy_map [OF dtx] mtx Cons.prems(10)
      by (simp add: upd_all_add del: upd_all_simps(1,2))
    show ?thesis
      using IH [of "[]" ?fr "[]" "ec @ et @ [?e]" False] distinct_copy_map [OF Cons.prems(8), of ?tx] mfr False
      by (auto simp: step rs1 simp del: fun_upd_apply)
  qed
qed

lemma entries_ge: "e \<in> set (entries ps k fs) \<Longrightarrow> 32 + k * (24 + ps) \<le> cf_Offset e"
proof (induction fs arbitrary: k)
  case (Cons f fs)
  show ?case
  proof (cases "e = entry ps k f")
    case False
    with Cons.prems have "32 + Suc k * (24 + ps) \<le> cf_Offset e" by (intro Cons.IH) simp
    then show ?thesis by simp
  qed simp
qed simp

lemma entries_sorted: "sorted_wrt (\<lambda>a b. cf_Offset a < cf_Offset b) (entries ps k fs)"
proof (induction fs arbitrary: k)
  case (Cons f fs)
  have "cf_Offset (entry ps k f) < cf_Offset b" if "b \<in> set (entries ps (Suc k) fs)" for b
    using entries_ge [OF that] by simp
  then show ?case
    unfolding entries_simps sorted_wrt.simps by (intro conjI ballI Cons.IH)
qed (simp only: entries_simps sorted_wrt.simps)

text \<open>
  Whatever order the map is walked in, sorting its values by offset gives the last entries of
  the log in file order.
\<close>

lemma sort_last_entries:
  assumes "distinct (map fst frames)" and "map_of frames = last_entries (entries ps k fs)"
  shows "sort_key cf_Offset (map snd frames) = keep_last cf_Pgno (entries ps k fs)"
proof -
  let ?es = "entries ps k fs" and ?ks = "keep_last cf_Pgno (entries ps k fs)"
  have key: "p = cf_Pgno e" if "last_entries es p = Some e" for es p e
    by (rule upd_all_key [of Map.empty cf_Pgno es, OF _ that]) simp
  have "sorted_wrt (\<lambda>a b. cf_Offset a < cf_Offset b) ?ks"
    using entries_sorted by (rule sorted_keep_last)
  then have st: "sorted_wrt (<) (map cf_Offset ?ks)" by (simp only: sorted_wrt_map)
  have inj: "inj_on cf_Offset (set ?ks)" and dks: "distinct ?ks" and so: "sorted (map cf_Offset ?ks)"
    using st unfolding strict_sorted_iff distinct_map by blast+
  have "set (map snd frames) = ran (map_of frames)"
    using assms(1) by (simp add: ran_distinct)
  also have "\<dots> = set ?ks" using assms(2) by (simp add: ran_upd_all)
  finally have set_eq: "set (map snd frames) = set ?ks" .
  have "inj_on snd (set frames)"
  proof (rule inj_onI)
    fix x y assume "x \<in> set frames" "y \<in> set frames" "snd x = snd y"
    then have "map_of frames (fst x) = Some (snd x)" "map_of frames (fst y) = Some (snd y)"
      using map_of_is_SomeI [OF assms(1)] by (metis prod.collapse)+
    with key assms(2) \<open>snd x = snd y\<close> have "fst x = fst y" by metis
    with \<open>snd x = snd y\<close> show "x = y" by (simp add: prod_eq_iff)
  qed
  moreover have "distinct frames" using assms(1) by (simp add: distinct_map)
  ultimately have "distinct (map snd frames)" by (simp add: distinct_map)
  with dks set_eq have "mset (map snd frames) = mset ?ks"
    using set_eq_iff_mset_eq_distinct [of "map snd frames" ?ks] by blast
  then have "sort_key cf_Offset (map snd frames) = sort_key cf_Offset ?ks"
    using inj set_eq by (intro sort_key_perm_eq) simp_all
  also have "\<dots> = ?ks" using so by (rule sort_key_id_if_sorted)
  finally show ?thesis .
qed

section \<open>The scanner's frames\<close>

text \<open>
  The frames a scanner has still to return, and the error that ends it: the pages at the
  recorded offsets, up to the first that cannot be read.
\<close>

fun read_entries :: "nat \<Rightarrow> read_seeker \<Rightarrow> cFrame list \<Rightarrow> Frame list \<times> wal_err" where
  "read_entries ps rs [] = ([], WEOF)"
| "read_entries ps rs (cf # cfs) =
     (case fst (read_full ps (seek_start (cf_Offset cf + 24) rs)) of
        Inl e \<Rightarrow> ([], WIo e)
      | Inr page \<Rightarrow>
          (case read_entries ps rs cfs of
             (frs, e) \<Rightarrow> (\<lparr>Pgno = cf_Pgno cf, Commit = cf_Commit cf, Data = page\<rparr> # frs, e)))"

definition cs_remaining :: "compacting_scanner \<Rightarrow> Frame list \<times> wal_err" where
  "cs_remaining c =
     read_entries (unat (PageSize (cs_header c))) (rd_rs (cs_walReader c)) (drop (cs_cIdx c) (cs_frames c))"

lemma seek_start_pos [simp]: "seek_start off (rs\<lparr>rs_pos := p\<rparr>) = seek_start off rs"
  by (simp add: seek_start_def)

lemma read_entries_pos [simp]: "read_entries ps (rs\<lparr>rs_pos := p\<rparr>) cfs = read_entries ps rs cfs"
  by (induction cfs) (auto split: sum.split)

lemma cs_Next_step:
  assumes "cs_remaining c = (f # fs, e)"
  shows "\<exists>c'. cs_Next c = (Inr f, c') \<and> cs_remaining c' = (fs, e)"
proof -
  let ?rs = "rd_rs (cs_walReader c)" and ?ps = "unat (PageSize (cs_header c))"
  obtain cf cfs where d: "drop (cs_cIdx c) (cs_frames c) = cf # cfs"
    using assms by (cases "drop (cs_cIdx c) (cs_frames c)") (auto simp: cs_remaining_def)
  then have idx: "cs_cIdx c < length (cs_frames c)" "cs_frames c ! cs_cIdx c = cf"
    and d': "drop (Suc (cs_cIdx c)) (cs_frames c) = cfs"
    by (metis drop_all list.discI not_less, rule nth_via_drop, simp add: drop_Suc flip: tl_drop)
  obtain page rs' where rd: "read_full ?ps (seek_start (cf_Offset cf + 24) ?rs) = (Inr page, rs')"
    and f: "f = \<lparr>Pgno = cf_Pgno cf, Commit = cf_Commit cf, Data = page\<rparr>"
    and fs: "read_entries ?ps ?rs cfs = (fs, e)"
    using assms by (cases "read_full ?ps (seek_start (cf_Offset cf + 24) ?rs)")
      (auto simp: cs_remaining_def d split: sum.splits prod.splits)
  from read_full_Inr(2) [OF rd] have "rs' = ?rs\<lparr>rs_pos := rs_pos rs'\<rparr>"
    by (simp add: seek_start_def)
  then have "read_entries ?ps rs' cfs = (fs, e)" using fs by (metis read_entries_pos)
  with rd idx d' f show ?thesis
    by (simp add: cs_Next_def cs_seek_read_def cs_remaining_def WALFrameHeaderSize_def)
qed

lemma cs_Next_end:
  assumes "cs_remaining c = ([], e)"
  shows "\<exists>c'. cs_Next c = (Inl e, c')"
proof (cases "cs_cIdx c < length (cs_frames c)")
  case True
  then have "drop (cs_cIdx c) (cs_frames c) = cs_frames c ! cs_cIdx c # drop (Suc (cs_cIdx c)) (cs_frames c)"
    by (rule Cons_nth_drop_Suc [symmetric])
  with assms True show ?thesis
    by (auto simp: cs_remaining_def cs_Next_def cs_seek_read_def WALFrameHeaderSize_def
        Let_def split: sum.splits prod.splits)
next
  case False
  with assms show ?thesis by (auto simp: cs_remaining_def cs_Next_def)
qed

interpretation compact_it: wal_iterator cs_Next "\<lambda>c. fst (cs_remaining c)" "\<lambda>c. snd (cs_remaining c)"
proof (unfold_locales, goal_cases)
  case (1 it f fs)
  then have "cs_remaining it = (f # fs, snd (cs_remaining it))" by (simp add: prod_eq_iff)
  from cs_Next_step [OF this] show ?case by auto
next
  case (2 it)
  then have "cs_remaining it = ([], snd (cs_remaining it))" by (simp add: prod_eq_iff)
  then show ?case by (rule cs_Next_end)
qed

lemma read_entries_image:
  assumes "page_frames h fs" and "rs_bad rs = None" and "rs_bytes rs = pre @ rest"
    and "length pre = 32 + k * (24 + unat (PageSize h))"
    and "rest = enc_frames bo s1 s2 c fs @ rest'"
    and "set sub \<subseteq> set (zip (entries (unat (PageSize h)) k fs) fs)"
  shows "read_entries (unat (PageSize h)) rs (map fst sub) = (map snd sub, WEOF)"
proof -
  let ?ps = "unat (PageSize h)"
  have one: "fst (read_full ?ps (seek_start (cf_Offset e + 24) rs)) = Inr (Data f) \<and>
      \<lparr>Pgno = cf_Pgno e, Commit = cf_Commit e, Data = Data f\<rparr> = f"
    if "(e, f) \<in> set (zip (entries ?ps k fs) fs)" for e f
    using that assms(1,3,4,5)
  proof (induction fs arbitrary: k pre rest c)
    case (Cons g gs)
    have lg: "length (Data g) = ?ps" and pf: "page_frames h gs"
      using Cons.prems(2) by (simp_all add: page_frames_def)
    show ?case
    proof (cases "(e, f) = (entry ?ps k g, g)")
      case True
      let ?hd = "take 24 (enc_frame bo s1 s2 c g)"
      have "rs_bytes rs = (pre @ ?hd) @ Data g @ (enc_frames bo s1 s2 (frame_sum bo c g) gs @ rest')"
        using Cons.prems(3,5) frame_header_rest [of bo s1 s2 c g] by simp
      then have "drop (cf_Offset e + 24) (rs_bytes rs) =
          Data g @ (enc_frames bo s1 s2 (frame_sum bo c g) gs @ rest')"
        using True Cons.prems(4) by simp
      then have "read_full ?ps (seek_start (cf_Offset e + 24) rs) =
          (Inr (Data g), (seek_start (cf_Offset e + 24) rs)\<lparr>rs_pos := cf_Offset e + 24 + ?ps\<rparr>)"
        using read_full_ok [of "seek_start (cf_Offset e + 24) rs" "Data g"] assms(2) lg by simp
      with True show ?thesis by simp
    next
      case False
      with Cons.prems(1) have "(e, f) \<in> set (zip (entries ?ps (Suc k) gs) gs)" by auto
      then show ?thesis
        by (rule Cons.IH [OF _ pf, where pre = "pre @ enc_frame bo s1 s2 c g" and c = "frame_sum bo c g"])
          (use Cons.prems lg in simp_all)
    qed
  qed simp
  from assms(6) show ?thesis
  proof (induction sub)
    case (Cons ef sub)
    obtain e f where ef: "ef = (e, f)" by (cases ef)
    with Cons.prems one [of e f] Cons.IH show ?case by simp
  qed simp
qed

lemma length_entries [simp]: "length (entries ps k fs) = length fs"
  by (simp add: entries_def)

lemma keep_last_entries:
  "map fst (keep_last (cf_Pgno \<circ> fst) (zip (entries ps k fs) fs)) = keep_last cf_Pgno (entries ps k fs)"
  "map snd (keep_last (cf_Pgno \<circ> fst) (zip (entries ps k fs) fs)) = last_per_page fs"
proof -
  let ?z = "zip (entries ps k fs) fs"
  show "map fst (keep_last (cf_Pgno \<circ> fst) ?z) = keep_last cf_Pgno (entries ps k fs)"
    using keep_last_map [of cf_Pgno fst ?z] by simp
  have "keep_last (cf_Pgno \<circ> fst) ?z = keep_last (Pgno \<circ> snd) ?z"
  proof (induction fs arbitrary: k)
    case (Cons f fs)
    have "(cf_Pgno \<circ> fst) ` set (zip (entries ps (Suc k) fs) fs) = (Pgno \<circ> snd) ` set (zip (entries ps (Suc k) fs) fs)"
      by (induction fs arbitrary: k) auto
    with Cons show ?case by simp
  qed simp
  then show "map snd (keep_last (cf_Pgno \<circ> fst) ?z) = last_per_page fs"
    using keep_last_map [of Pgno snd ?z] by (simp add: last_per_page_def)
qed

text \<open>Opening a scanner on a log: what the constructor returns, in both scan modes.\<close>

lemma NewCompactingScanner_open:
  assumes "valid_header h" and "aligned h" and "page_frames h fs" and "\<not> salted h rest"
    and rs: "rs = open_file (wal_image h fs @ rest)"
  obtains (ok) c where "committed fs" and "NewCompactingScanner rs full = Inr c" and "cs_header c = h"
      and "cs_cIdx c = 0" and "cs_frames c = keep_last cf_Pgno (entries (unat (PageSize h)) 0 fs)"
      and "rs_bytes (rd_rs (cs_walReader c)) = wal_image h fs @ rest"
      and "rs_bad (rd_rs (cs_walReader c)) = None"
  | (open_tx) "\<not> committed fs" and "NewCompactingScanner rs full = Inl WErrOpenTransaction"
proof -
  let ?ps = "unat (PageSize h)" and ?c = "(Checksum1 h, Checksum2 h)"
  let ?buf = "if full then Some ?ps else None"
  have bad: "rs_bad rs = None" by (simp add: rs open_file_def)
  have "drop (rs_pos rs) (rs_bytes rs) = enc_header h @
      (enc_frames (header_order h) (Salt1 h) (Salt2 h) ?c fs @ rest)"
    by (simp add: rs open_file_def wal_image_def)
  then obtain r where rh: "ReadHeader (NewReader rs) = (None, r)" and h: "reader_header r = h"
    and on: "reader_on h ?c r" and fN: "rd_frameN r = 0" and rs': "rd_rs r = rs\<lparr>rs_pos := rs_pos rs + 32\<rparr>"
    using ReadHeader_ok [OF assms(1) bad] by blast
  have mode: "mode_on ?buf h ?c r"
    using on bad by (simp add: mode_on_def reader_on_def rs')
  have at: "drop (rs_pos (rd_rs r)) (rs_bytes (rd_rs r)) =
      enc_frames (header_order h) (Salt1 h) (Salt2 h) ?c fs @ rest"
    by (simp add: rs' rs open_file_def wal_image_def)
  from scan_loop_spec [OF mode assms(2,3) fN at assms(4), of "[]" "[]" "[]" "[]" False]
  obtain frames r' where
    sl: "scan_loop ?buf r [] [] False = (Inr (frames, fs \<noteq> [] \<and> Commit (last fs) = 0), r')"
    and d: "distinct (map fst frames)" and bs: "rs_bytes (rd_rs r') = rs_bytes (rd_rs r)"
    and bad': "rs_bad (rd_rs r') = None"
    and m: "committed fs \<longrightarrow> map_of frames = last_entries (entries ?ps 0 fs)"
    by (auto simp: committed_def split: if_splits)
  show ?thesis
  proof (cases "committed fs")
    case True
    then have nw: "(fs \<noteq> [] \<and> Commit (last fs) = 0) = False" by (auto simp: committed_def)
    let ?s = "\<lparr>cs_walReader = r', cs_header = h, cs_fullScan = full, cs_cIdx = 0,
      cs_frames = sort_key cf_Offset (map snd frames)\<rparr>"
    have "NewCompactingScanner rs full = Inr ?s"
      using rh sl unfolding nw by (cases full) (simp_all add: NewCompactingScanner_def scan_def h)
    then show ?thesis
      using True sort_last_entries [OF d m [rule_format, OF True]] bs bad'
      by (intro ok [of ?s]) (simp_all add: rs' rs open_file_def)
  next
    case False
    then have nw: "(fs \<noteq> [] \<and> Commit (last fs) = 0) = True" by (auto simp: committed_def)
    have "NewCompactingScanner rs full = Inl WErrOpenTransaction"
      using rh sl unfolding nw by (cases full) (simp_all add: NewCompactingScanner_def scan_def h)
    with False show ?thesis by (rule open_tx)
  qed
qed

lemma cs_remaining_open:
  assumes "page_frames h fs" and "cs_header c = h" and "cs_cIdx c = 0"
    and "cs_frames c = keep_last cf_Pgno (entries (unat (PageSize h)) 0 fs)"
    and "rs_bytes (rd_rs (cs_walReader c)) = wal_image h fs @ rest"
    and "rs_bad (rd_rs (cs_walReader c)) = None"
  shows "cs_remaining c = (last_per_page fs, WEOF)"
proof -
  let ?ps = "unat (PageSize h)" and ?z = "zip (entries (unat (PageSize h)) 0 fs) fs"
  let ?sub = "keep_last (cf_Pgno \<circ> fst) ?z"
  have "read_entries ?ps (rd_rs (cs_walReader c)) (map fst ?sub) = (map snd ?sub, WEOF)"
    by (rule read_entries_image [OF assms(1,6), where pre = "enc_header h" and k = 0 and rest' = rest])
      (use assms(5) keep_last_subset in \<open>simp_all add: wal_image_def\<close>)
  then show ?thesis
    by (simp add: cs_remaining_def assms(2,3,4) keep_last_entries)
qed

section \<open>Serialising the compacted log into one buffer\<close>

lemma header_Copy_append:
  assumes "length x = 32"
  shows "header_Copy h (x @ ys) = Some (enc_header h @ ys)"
proof -
  have split: "\<exists>a b. zs = a @ b \<and> length a = 4 \<and> length b = n" if "length zs = 4 + n"
    for zs :: bytes and n using that by (metis append_take_drop_id length_append length_take
      add_left_cancel le_add1 min.absorb2)
  obtain x0 r0 where 0: "x = x0 @ r0" "length x0 = 4" "length r0 = 28" using split [of x 28] assms by auto
  obtain x1 r1 where 1: "r0 = x1 @ r1" "length x1 = 4" "length r1 = 24" using split [of r0 24] 0 by auto
  obtain x2 r2 where 2: "r1 = x2 @ r2" "length x2 = 4" "length r2 = 20" using split [of r1 20] 1 by auto
  obtain x3 r3 where 3: "r2 = x3 @ r3" "length x3 = 4" "length r3 = 16" using split [of r2 16] 2 by auto
  obtain x4 r4 where 4: "r3 = x4 @ r4" "length x4 = 4" "length r4 = 12" using split [of r3 12] 3 by auto
  obtain x5 r5 where 5: "r4 = x5 @ r5" "length x5 = 4" "length r5 = 8" using split [of r4 8] 4 by auto
  obtain x6 x7 where 6: "r5 = x6 @ x7" "length x6 = 4" "length x7 = 4" using split [of r5 4] 5 by auto
  show ?thesis
    using 0 1 2 3 4 5 6
    by (simp add: header_Copy_def WALHeaderSize_def enc_header_def enc_header24_def blit_skip blit_0)
qed

lemma bytes_loop_spec:
  assumes "read_entries (unat (PageSize (cs_header c))) (rd_rs (cs_walReader c)) cfs = (fs, WEOF)"
    and "aligned (cs_header c)" and "length pre = frmHdr"
    and "length post = length cfs * (24 + unat (PageSize (cs_header c)))" and "length fs = length cfs"
  shows "\<exists>c'. bytes_loop bo c frmHdr s0 s1 (pre @ post) cfs =
    (Inr (pre @ enc_frames bo (Salt1 (cs_header c)) (Salt2 (cs_header c)) (s0, s1) fs), c')"
  using assms
proof (induction cfs arbitrary: c frmHdr s0 s1 pre post fs)
  case Nil
  then show ?case by simp
next
  case (Cons cf cfs)
  let ?h = "cs_header c" and ?ps = "unat (PageSize (cs_header c))" and ?rs = "rd_rs (cs_walReader c)"
  obtain page rs' where rd: "read_full ?ps (seek_start (cf_Offset cf + 24) ?rs) = (Inr page, rs')"
    by (cases "read_full ?ps (seek_start (cf_Offset cf + 24) ?rs)")
      (use Cons.prems(1,5) in \<open>auto split: sum.splits\<close>)
  define f where "f = \<lparr>Pgno = cf_Pgno cf, Commit = cf_Commit cf, Data = page\<rparr>"
  obtain gs where fs: "fs = f # gs" and gs: "read_entries ?ps ?rs cfs = (gs, WEOF)"
    using Cons.prems(1) rd by (auto simp: f_def split: prod.splits)
  note len = read_full_Inr(1) [OF rd]
  let ?c = "c\<lparr>cs_walReader := (cs_walReader c)\<lparr>rd_rs := rs'\<rparr>\<rparr>"
  from read_full_Inr(2) [OF rd] have "rs' = ?rs\<lparr>rs_pos := rs_pos rs'\<rparr>" by (simp add: seek_start_def)
  then have gs': "read_entries ?ps rs' cfs = (gs, WEOF)" using gs by (metis read_entries_pos)
  obtain x0 x1 x2 x3 x4 x5 pg post' where post: "post = x0 @ x1 @ x2 @ x3 @ x4 @ x5 @ pg @ post'"
    and ls: "length x0 = 4" "length x1 = 4" "length x2 = 4" "length x3 = 4" "length x4 = 4" "length x5 = 4"
      "length pg = ?ps" and lp: "length post' = length cfs * (24 + ?ps)"
  proof
    let ?seg = "\<lambda>i n. take n (drop i post)"
    show "post = ?seg 0 4 @ ?seg 4 4 @ ?seg 8 4 @ ?seg 12 4 @ ?seg 16 4 @ ?seg 20 4 @ ?seg 24 ?ps @ drop (24 + ?ps) post"
      by (simp add: take_add [symmetric] flip: append_assoc)
  qed (use Cons.prems(4) in simp_all)
  let ?pre8 = "be_put32 (cf_Pgno cf) @ be_put32 (cf_Commit cf)"
  obtain a b where ab: "chksum_loop bo s0 s1 ?pre8 = (a, b)" by (cases "chksum_loop bo s0 s1 ?pre8")
  obtain s0' s1' where s: "chksum_loop bo a b page = (s0', s1')" by (cases "chksum_loop bo a b page")
  have sum: "frame_sum bo (s0, s1) f = (s0', s1')" using ab s by (simp add: frame_sum_def f_def)
  let ?fb = "enc_frame bo (Salt1 ?h) (Salt2 ?h) (s0, s1) f"
  have "bytes_loop bo c frmHdr s0 s1 (pre @ post) (cf # cfs) =
      bytes_loop bo ?c (frmHdr + (24 + ?ps)) s0' s1' ((pre @ ?fb) @ post') cfs"
    using Cons.prems(2,3) rd ls len ab s
    by (simp add: post cs_seek_read_def WALFrameHeaderSize_def WALChecksum_def aligned_def Let_def
        blit_skip blit_0 enc_frame_def sum add.assoc) (simp add: f_def)
  moreover have "\<exists>c'. bytes_loop bo ?c (frmHdr + (24 + ?ps)) s0' s1' ((pre @ ?fb) @ post') cfs =
      (Inr ((pre @ ?fb) @ enc_frames bo (Salt1 ?h) (Salt2 ?h) (s0', s1') gs), c')"
    using Cons.IH [of ?c gs "pre @ ?fb" "frmHdr + (24 + ?ps)" post' s0' s1'] gs' Cons.prems(2,3,5) lp len fs
    by (simp add: f_def)
  ultimately show ?case by (simp add: fs sum)
qed

lemma cs_Bytes_spec:
  assumes "cs_remaining c = (fs, WEOF)" and "cs_cIdx c = 0" and "aligned (cs_header c)"
    and "valid_header (cs_header c)" and "length fs = length (cs_frames c)"
  shows "fst (cs_Bytes c) = Inr (wal_image (cs_header c) fs)"
proof -
  let ?h = "cs_header c" and ?ps = "unat (PageSize (cs_header c))" and ?n = "length (cs_frames c)"
  let ?post = "replicate (?n * 24 + ?n * ?ps) 0"
  have rep: "replicate (32 + ?n * 24 + ?n * ?ps) (0 :: u8) = replicate 32 0 @ ?post"
    by (simp add: replicate_add add.assoc)
  have hc: "header_Copy ?h (replicate (32 + ?n * 24 + ?n * ?ps) 0) = Some (enc_header ?h @ ?post)"
    unfolding rep by (rule header_Copy_append) simp
  have "\<exists>c'. bytes_loop (header_order ?h) c 32 (Checksum1 ?h) (Checksum2 ?h) (enc_header ?h @ ?post) (cs_frames c) =
      (Inr (enc_header ?h @ enc_frames (header_order ?h) (Salt1 ?h) (Salt2 ?h) (Checksum1 ?h, Checksum2 ?h) fs), c')"
    using assms(1,2,3,5) by (intro bytes_loop_spec) (simp_all add: cs_remaining_def algebra_simps)
  with hc valid_header_order [OF assms(4)] show ?thesis
    by (auto simp: cs_Bytes_def WALHeaderSize_def WALFrameHeaderSize_def Let_def wal_image_def)
qed

end
