(* ===== verification/Wal_Properties.thy ===== *)
theory Wal_Properties
  imports Wal_Compaction
begin

text \<open>
  The properties of the write-ahead-log component that span its parts: copying a log through the
  full scanner, compacting it, and what a sink that fails receives.
\<close>

abbreviation fs_Header :: "full_scanner \<Rightarrow> (wal_err, WALHeader) result" where
  "fs_Header f \<equiv> Inr (fs_header f)"

abbreviation cs_Header :: "compacting_scanner \<Rightarrow> (wal_err, WALHeader) result" where
  "cs_Header c \<equiv> Inr (cs_header c)"

lemma NewWriter_ok:
  assumes "valid_header h" and "header it = Inr h"
  obtains w where "NewWriter header it = Inr w" and "ww_r w = it" and "ww_rHeader w = h"
    and "ww_bo w = header_order h"
  using assms by (simp add: NewWriter_def valid_header_order)

lemma page_frames_aligned:
  "page_frames h fs \<Longrightarrow> aligned h \<Longrightarrow> list_all (\<lambda>f. length (Data f) mod 8 = 0) fs"
  by (auto simp: page_frames_def aligned_def list_all_iff)

lemma wrote_all:
  assumes "wrote_prefix img (sink_of None) n s'" and "n = length img"
  shows "s' = \<lparr>out = img, cap = None\<rparr>"
  using assms by (simp add: wrote_prefix_def sink_of_def)

text \<open>Writing a valid log's frames from either scanner to an unbounded sink.\<close>

lemma write_image:
  fixes "next" :: "'it \<Rightarrow> (wal_err, Frame) result \<times> 'it"
  assumes "wal_iterator next frames_of end_of" and "valid_header h" and "aligned h"
    and "page_frames h fs" and "header it = Inr h" and "frames_of it = fs" and "end_of it = WEOF"
  shows "\<exists>w w'. NewWriter header it = Inr w \<and> WriteTo next w (sink_of None) =
    Some ((length (wal_image h fs), None), w', \<lparr>out = wal_image h fs, cap = None\<rparr>)"
proof -
  obtain w where nw: "NewWriter header it = Inr w" and w: "ww_r w = it" "ww_rHeader w = h"
    and bo: "ww_bo w = header_order (ww_rHeader w)"
    using NewWriter_ok [of h header it] assms(2,5) by metis
  from wal_iterator.WriteTo_spec [OF assms(1) bo, of "sink_of None"]
  obtain n err w' s' where wt: "WriteTo next w (sink_of None) = Some ((n, err), w', s')"
    and pre: "wrote_prefix (wal_image h fs) (sink_of None) n s'"
    and ok: "err = None \<longrightarrow> n = length (wal_image h fs)"
    and unb: "list_all (\<lambda>f. length (Data f) mod 8 = 0) fs \<longrightarrow> err = None"
    unfolding w assms(6,7) by (auto simp: sink_of_def)
  from unb page_frames_aligned [OF assms(4,3)] have e: "err = None" by blast
  with ok have n: "n = length (wal_image h fs)" by blast
  show ?thesis using nw wt e n wrote_all [OF pre n] by auto
qed

text \<open>C36: copying a log with the full scanner and the writer reproduces the valid part of the log
  byte for byte, whatever trails it in the file.\<close>

theorem wal_copy_roundtrip:
  assumes "valid_header h" and "aligned h" and "page_frames h fs"
    and "\<not> starts_frame h (final_sum h fs) rest"
  shows "\<exists>sc w w'. NewFullScanner (open_file (wal_image h fs @ rest)) = Inr sc \<and>
    NewWriter fs_Header sc = Inr w \<and>
    WriteTo fs_Next w (sink_of None) =
      Some ((length (wal_image h fs), None), w', \<lparr>out = wal_image h fs, cap = None\<rparr>)"
proof -
  let ?rs = "open_file (wal_image h fs @ rest)"
  obtain sc where sc: "NewFullScanner ?rs = Inr sc" "fs_header sc = h" "fs_frames sc = (fs, WEOF)"
    using fs_open_complete [OF assms] by blast
  have "\<exists>w w'. NewWriter fs_Header sc = Inr w \<and> WriteTo fs_Next w (sink_of None) =
      Some ((length (wal_image h fs), None), w', \<lparr>out = wal_image h fs, cap = None\<rparr>)"
    by (rule write_image [OF full_it.wal_iterator_axioms assms(1,2,3)]) (simp_all add: sc)
  with sc(1) show ?thesis by blast
qed

theorem wal_copy_roundtrip_witness:
  "\<exists>sc w w'. NewFullScanner (open_file (wal_image sample_header [sample_frame 3 1 5] @ [1, 2, 3])) = Inr sc \<and>
    NewWriter fs_Header sc = Inr w \<and>
    WriteTo fs_Next w (sink_of None) =
      Some ((length (wal_image sample_header [sample_frame 3 1 5]), None), w',
        \<lparr>out = wal_image sample_header [sample_frame 3 1 5], cap = None\<rparr>)"
proof -
  have "\<not> salted sample_header [1, 2, 3]" by (simp add: salted_def)
  then have "\<not> starts_frame sample_header (final_sum sample_header [sample_frame 3 1 5]) [1, 2, 3]"
    using starts_frame_salted by blast
  then show ?thesis by (intro wal_copy_roundtrip) (simp_all add: page_frames_def)
qed

lemma page_frames_last_per_page: "page_frames h fs \<Longrightarrow> page_frames h (last_per_page fs)"
  by (simp add: page_frames_def last_per_page_def list_all_keep_last)

text \<open>Opening the compacting scanner on a committed log.\<close>

lemma compact_open:
  assumes "valid_header h" and "aligned h" and "page_frames h fs" and "committed fs"
    and "\<not> salted h rest"
  obtains c where "NewCompactingScanner (open_file (wal_image h fs @ rest)) full = Inr c"
    and "cs_header c = h" and "cs_cIdx c = 0" and "cs_remaining c = (last_per_page fs, WEOF)"
    and "length (last_per_page fs) = length (cs_frames c)"
proof -
  from NewCompactingScanner_open [OF assms(1,2,3,5) refl, where full = full] assms(4)
  obtain c where c: "NewCompactingScanner (open_file (wal_image h fs @ rest)) full = Inr c"
    "cs_header c = h" "cs_cIdx c = 0"
    "cs_frames c = keep_last cf_Pgno (entries (unat (PageSize h)) 0 fs)"
    "rs_bytes (rd_rs (cs_walReader c)) = wal_image h fs @ rest"
    "rs_bad (rd_rs (cs_walReader c)) = None"
    by auto
  have "length (last_per_page fs) = length (cs_frames c)"
    unfolding c(4) keep_last_entries [of "unat (PageSize h)" 0 fs, symmetric] by simp
  with c(1,2,3) cs_remaining_open [OF assms(3) c(2-6)] show ?thesis by (rule that)
qed

text \<open>C12: compaction, in the full and in the fast scan mode. On a committed log (followed by
  anything that does not carry the log's salts) the scanner opens; \<^verbatim>\<open>Bytes\<close>, which fills one
  preallocated buffer, and the writer, which streams the frames \<^verbatim>\<open>Next\<close> returns, both produce the
  serialisation of the same header with the last frame of every page in file order.\<close>

theorem compact_bytes_writer_agree:
  assumes "valid_header h" and "aligned h" and "page_frames h fs" and "committed fs"
    and "\<not> salted h rest"
  shows "\<exists>c w w'. NewCompactingScanner (open_file (wal_image h fs @ rest)) full = Inr c \<and>
    fst (cs_Bytes c) = Inr (wal_image h (last_per_page fs)) \<and>
    NewWriter cs_Header c = Inr w \<and>
    WriteTo cs_Next w (sink_of None) =
      Some ((length (wal_image h (last_per_page fs)), None), w',
        \<lparr>out = wal_image h (last_per_page fs), cap = None\<rparr>)"
proof -
  obtain c where c: "NewCompactingScanner (open_file (wal_image h fs @ rest)) full = Inr c"
    "cs_header c = h" "cs_cIdx c = 0" "cs_remaining c = (last_per_page fs, WEOF)"
    "length (last_per_page fs) = length (cs_frames c)"
    using compact_open [OF assms] .
  have b: "fst (cs_Bytes c) = Inr (wal_image h (last_per_page fs))"
    using cs_Bytes_spec [OF c(4,3)] assms(1,2) c(2,5) by simp
  have "\<exists>w w'. NewWriter cs_Header c = Inr w \<and> WriteTo cs_Next w (sink_of None) =
      Some ((length (wal_image h (last_per_page fs)), None), w',
        \<lparr>out = wal_image h (last_per_page fs), cap = None\<rparr>)"
    by (rule write_image [OF compact_it.wal_iterator_axioms assms(1,2) page_frames_last_per_page [OF assms(3)]])
      (simp_all add: c)
  with c(1) b show ?thesis by blast
qed

lemma sample_log [simp]:
  "page_frames sample_header [sample_frame 1 0 5, sample_frame 2 2 6, sample_frame 1 3 7]"
  "committed [sample_frame 1 0 5, sample_frame 2 2 6, sample_frame 1 3 7]"
  "\<not> salted sample_header [1, 2, 3]"
  by (simp_all add: page_frames_def committed_def salted_def)

theorem compact_bytes_writer_agree_witness:
  "last_per_page [sample_frame 1 0 5, sample_frame 2 2 6, sample_frame 1 3 7] =
     [sample_frame 2 2 6, sample_frame 1 3 7] \<and>
   (\<exists>c w w'. NewCompactingScanner (open_file (wal_image sample_header
        [sample_frame 1 0 5, sample_frame 2 2 6, sample_frame 1 3 7] @ [1, 2, 3])) False = Inr c \<and>
    fst (cs_Bytes c) = Inr (wal_image sample_header [sample_frame 2 2 6, sample_frame 1 3 7]) \<and>
    NewWriter cs_Header c = Inr w \<and>
    WriteTo cs_Next w (sink_of None) =
      Some ((length (wal_image sample_header [sample_frame 2 2 6, sample_frame 1 3 7]), None), w',
        \<lparr>out = wal_image sample_header [sample_frame 2 2 6, sample_frame 1 3 7], cap = None\<rparr>))"
proof -
  have l: "last_per_page [sample_frame 1 0 5, sample_frame 2 2 6, sample_frame 1 3 7] =
      [sample_frame 2 2 6, sample_frame 1 3 7]"
    by (simp add: last_per_page_def)
  from compact_bytes_writer_agree [OF _ _ sample_log, of False] show ?thesis unfolding l by simp
qed

text \<open>C1: compaction loses nothing. Reading the compacted log back with the checking reader gives
  every page once, and replaying it on any database gives the database that replaying the whole
  log gives; compacting it again changes nothing.\<close>

theorem compact_preserves_database:
  assumes "valid_header h" and "aligned h" and "page_frames h fs" and "committed fs"
    and "\<not> salted h rest"
  shows "\<exists>c bs sc gs c2. NewCompactingScanner (open_file (wal_image h fs @ rest)) full = Inr c \<and>
    fst (cs_Bytes c) = Inr bs \<and> NewFullScanner (open_file bs) = Inr sc \<and>
    fs_frames sc = (gs, WEOF) \<and> distinct (map Pgno gs) \<and>
    (\<forall>db. replay db gs = replay db fs) \<and>
    NewCompactingScanner (open_file bs) full = Inr c2 \<and> fst (cs_Bytes c2) = Inr bs"
proof -
  let ?gs = "last_per_page fs" and ?bs = "wal_image h (last_per_page fs)"
  obtain c where c: "NewCompactingScanner (open_file (wal_image h fs @ rest)) full = Inr c"
    "cs_header c = h" "cs_cIdx c = 0" "cs_remaining c = (?gs, WEOF)" "length ?gs = length (cs_frames c)"
    using compact_open [OF assms] .
  have b: "fst (cs_Bytes c) = Inr ?bs"
    using cs_Bytes_spec [OF c(4,3)] assms(1,2) c(2,5) by simp
  have pf: "page_frames h ?gs" using assms(3) by (rule page_frames_last_per_page)
  have nil: "\<not> salted h []" by (simp add: salted_def)
  then have "\<not> starts_frame h (final_sum h ?gs) []" using starts_frame_salted by blast
  from fs_open_complete [OF assms(1,2) pf this]
  obtain sc where sc: "NewFullScanner (open_file ?bs) = Inr sc" "fs_frames sc = (?gs, WEOF)" by auto
  have idem: "last_per_page ?gs = ?gs" by (simp add: last_per_page_def)
  obtain c2 where c2: "NewCompactingScanner (open_file ?bs) full = Inr c2"
    "cs_header c2 = h" "cs_cIdx c2 = 0" "cs_remaining c2 = (?gs, WEOF)" "length ?gs = length (cs_frames c2)"
    using compact_open [OF assms(1,2) pf _ nil, where full = full] assms(4) idem by auto
  have b2: "fst (cs_Bytes c2) = Inr ?bs"
    using cs_Bytes_spec [OF c2(4,3)] assms(1,2) c2(2,5) by simp
  have "distinct (map Pgno ?gs)" by (simp add: last_per_page_def distinct_keep_last)
  with c(1) b sc c2(1) b2 replay_last_per_page [OF assms(4)] show ?thesis by blast
qed

theorem compact_preserves_database_witness:
  "\<exists>c bs sc gs c2. NewCompactingScanner (open_file (wal_image sample_header
      [sample_frame 1 0 5, sample_frame 2 2 6, sample_frame 1 3 7] @ [1, 2, 3])) True = Inr c \<and>
    fst (cs_Bytes c) = Inr bs \<and> NewFullScanner (open_file bs) = Inr sc \<and>
    fs_frames sc = (gs, WEOF) \<and> distinct (map Pgno gs) \<and>
    (\<forall>db. replay db gs = replay db [sample_frame 1 0 5, sample_frame 2 2 6, sample_frame 1 3 7]) \<and>
    NewCompactingScanner (open_file bs) True = Inr c2 \<and> fst (cs_Bytes c2) = Inr bs"
  by (rule compact_preserves_database) simp_all

text \<open>a log whose last frame does not commit is refused with \<^verbatim>\<open>ErrOpenTransaction\<close>, in both
  scan modes, so no partial transaction reaches a compacted log.\<close>

theorem compact_open_transaction:
  assumes "valid_header h" and "aligned h" and "page_frames h fs" and "\<not> committed fs"
    and "\<not> salted h rest"
  shows "NewCompactingScanner (open_file (wal_image h fs @ rest)) full = Inl WErrOpenTransaction"
  using NewCompactingScanner_open [OF assms(1,2,3,5) refl, where full = full] assms(4) by auto

theorem compact_open_transaction_witness:
  "NewCompactingScanner (open_file (wal_image sample_header [sample_frame 1 1 5, sample_frame 2 0 6] @ []))
     True = Inl WErrOpenTransaction"
  by (rule compact_open_transaction) (simp_all add: page_frames_def committed_def salted_def)

text \<open>a writer never leaves garbage. Whatever the log file holds, and however little the sink
  takes, \<^verbatim>\<open>WriteTo\<close> returns; the count it reports is the number of bytes in the sink, and these
  are a prefix of the serialisation of the frames the scanner accepted: the whole of it when no
  error is reported.\<close>

theorem write_to_prefix:
  assumes "NewFullScanner (open_file bs) = Inr sc" and "NewWriter fs_Header sc = Inr w"
  shows "\<exists>n err w' s'. WriteTo fs_Next w (sink_of room) = Some ((n, err), w', s') \<and>
    out s' = take n (wal_image (fs_header sc) (fst (fs_frames sc))) \<and> length (out s') = n \<and>
    (err = None \<longrightarrow> out s' = wal_image (fs_header sc) (fst (fs_frames sc)))"
proof -
  have bo: "ww_bo w = header_order (ww_rHeader w)" and w: "ww_r w = sc" "ww_rHeader w = fs_header sc"
    using assms(2)
    by (auto simp: NewWriter_def magic_order_def header_order_def split: option.splits if_splits)
  from full_it.WriteTo_spec [OF bo, of "sink_of room"]
  obtain n err w' s' where wt: "WriteTo fs_Next w (sink_of room) = Some ((n, err), w', s')"
    and pre: "wrote_prefix (wal_image (fs_header sc) (fst (fs_frames sc))) (sink_of room) n s'"
    and ok: "err = None \<longrightarrow> n = length (wal_image (fs_header sc) (fst (fs_frames sc)))"
    unfolding w by (elim exE conjE) (rule that, auto)
  from pre ok have "out s' = take n (wal_image (fs_header sc) (fst (fs_frames sc)))" "length (out s') = n"
    "err = None \<longrightarrow> out s' = wal_image (fs_header sc) (fst (fs_frames sc))"
    by (auto simp: wrote_prefix_def sink_of_def)
  with wt show ?thesis by blast
qed

theorem write_to_prefix_witness:
  "\<exists>sc w n err w' s'. NewFullScanner (open_file (wal_image sample_header [sample_frame 1 1 5] @ [])) = Inr sc \<and>
    NewWriter fs_Header sc = Inr w \<and>
    WriteTo fs_Next w (sink_of (Some 40)) = Some ((n, err), w', s') \<and>
    out s' = take n (wal_image (fs_header sc) (fst (fs_frames sc))) \<and> length (out s') = n"
proof -
  have "\<not> salted sample_header []" by (simp add: salted_def)
  then have "\<not> starts_frame sample_header (final_sum sample_header [sample_frame 1 1 5]) []"
    using starts_frame_salted by blast
  then obtain sc where sc: "NewFullScanner (open_file (wal_image sample_header [sample_frame 1 1 5] @ [])) = Inr sc"
    and h: "fs_header sc = sample_header"
    using fs_open_complete [of sample_header "[sample_frame 1 1 5]" "[]"] by (auto simp: page_frames_def)
  obtain w where w: "NewWriter fs_Header sc = Inr w"
    using NewWriter_ok [of sample_header fs_Header sc] h by auto
  from write_to_prefix [OF sc w, of "Some 40"] sc w show ?thesis by blast
qed

end
