(* ===== verification/Store_Snapshot.thy ===== *)
theory Store_Snapshot
  imports Store_Cluster Snapshot_Store Wal_Properties
begin

unbundle bit_operations_syntax

text \<open>
  Snapshots, backups, booting and recovery (\<^verbatim>\<open>store/store.go\<close>, \<^verbatim>\<open>store/fsm.go\<close>,
  \<^verbatim>\<open>store/state.go\<close>). The times of the last maintenance are kept in the Bolt store as eight bytes;
  a snapshot is the database file or the compacted WAL, for which the definitions of the WAL theories
  are used as the code uses them; recovery replays the log with the command processor.
\<close>

section \<open>Times kept in the Bolt store\<close>

definition le_put64 :: "64 word \<Rightarrow> bytes" where
  "le_put64 w = map (\<lambda>i. ucast (drop_bit (8 * i) w)) [0..<8]"

definition le_uint64 :: "bytes \<Rightarrow> 64 word" where
  "le_uint64 bs = foldr (\<lambda>b acc. ucast b OR push_bit 8 acc) (take 8 bs) 0"

definition setKeyTime ::
  "string option \<Rightarrow> string \<Rightarrow> time \<Rightarrow> 'db store \<Rightarrow> (store_err, unit) result \<times> 'db store" where
  "setKeyTime err key t s = (case err of
     Some e \<Rightarrow> (Inl (StoreErr e), s)
   | None \<Rightarrow> (Inr (), s\<lparr>s_bolt := (s_bolt s)(key \<mapsto> le_put64 (word_of_int t))\<rparr>))"

definition getKeyTime :: "string \<Rightarrow> 'db store \<Rightarrow> (store_err, time) result" where
  "getKeyTime key s = (case s_bolt s key of
     None \<Rightarrow> Inl (StoreErr (''failed to get key '' @ key))
   | Some kt \<Rightarrow> if kt = [] then Inl (StoreErr (''key '' @ key @ '' is nil''))
       else if length kt < 8 then Inl (NodePanic ''index out of range'')
       else Inr (sint (le_uint64 kt)))"

definition clearKeyTime :: "string option \<Rightarrow> string \<Rightarrow> 'db store \<Rightarrow> (store_err, unit) result \<times> 'db store" where
  "clearKeyTime err key s = (case err of
     Some e \<Rightarrow> (Inl (StoreErr e), s)
   | None \<Rightarrow> (Inr (), s\<lparr>s_bolt := (s_bolt s)(key \<mapsto> [])\<rparr>))"

definition baseVacuumTimeKey :: string where "baseVacuumTimeKey = ''rqlite_base_vacuum''"
definition lastVacuumTimeKey :: string where "lastVacuumTimeKey = ''rqlite_last_vacuum''"
definition baseOptimizeTimeKey :: string where "baseOptimizeTimeKey = ''rqlite_base_optimize''"
definition lastOptimizeTimeKey :: string where "lastOptimizeTimeKey = ''rqlite_last_optimize''"

definition LastVacuumTime :: "'db store \<Rightarrow> (store_err, time) result" where
  "LastVacuumTime s = getKeyTime lastVacuumTimeKey s"

definition LastOptimizeTime :: "'db store \<Rightarrow> (store_err, time) result" where
  "LastOptimizeTime s = getKeyTime lastOptimizeTimeKey s"

definition init_time ::
  "string option \<Rightarrow> time \<Rightarrow> int \<Rightarrow> string \<Rightarrow> string \<Rightarrow> 'db store \<Rightarrow> (store_err, unit) result \<times> 'db store" where
  "init_time err now interval baseKey lastKey s =
   (if interval = 0 then
      (case clearKeyTime err baseKey s of
         (Inl _, s) \<Rightarrow> (Inl (StoreErr ''failed to clear base vacuum time''), s)
       | (Inr _, s) \<Rightarrow> (case clearKeyTime err lastKey s of
           (Inl _, s) \<Rightarrow> (Inl (StoreErr ''failed to clear last vacuum time''), s)
         | (Inr _, s) \<Rightarrow> (Inr (), s)))
    else case getKeyTime lastKey s of
      Inl (NodePanic p) \<Rightarrow> (Inl (NodePanic p), s)
    | Inl _ \<Rightarrow> setKeyTime err baseKey now s
    | Inr _ \<Rightarrow> (Inr (), s))"

definition initVacuumTime :: "string option \<Rightarrow> time \<Rightarrow> 'db store \<Rightarrow> (store_err, unit) result \<times> 'db store" where
  "initVacuumTime err now s = init_time err now (s_AutoVacInterval s) baseVacuumTimeKey lastVacuumTimeKey s"

definition initOptimizeTime :: "string option \<Rightarrow> time \<Rightarrow> 'db store \<Rightarrow> (store_err, unit) result \<times> 'db store" where
  "initOptimizeTime err now s =
     init_time err now (s_AutoOptimizeInterval s) baseOptimizeTimeKey lastOptimizeTimeKey s"

definition needed_since :: "int \<Rightarrow> string \<Rightarrow> string \<Rightarrow> time \<Rightarrow> 'db store \<Rightarrow> (store_err, bool) result" where
  "needed_since interval baseKey lastKey t s =
   (if interval = 0 then Inr False
    else case getKeyTime lastKey s of
      Inr vt \<Rightarrow> Inr (t - vt > interval)
    | Inl (NodePanic p) \<Rightarrow> Inl (NodePanic p)
    | Inl _ \<Rightarrow> (case getKeyTime baseKey s of
        Inl e \<Rightarrow> Inl e
      | Inr bt \<Rightarrow> Inr (t - bt > interval)))"

definition autoVacNeeded :: "time \<Rightarrow> 'db store \<Rightarrow> (store_err, bool) result" where
  "autoVacNeeded t s = needed_since (s_AutoVacInterval s) baseVacuumTimeKey lastVacuumTimeKey t s"

definition autoOptimizeNeeded :: "time \<Rightarrow> 'db store \<Rightarrow> (store_err, bool) result" where
  "autoOptimizeNeeded t s = needed_since (s_AutoOptimizeInterval s) baseOptimizeTimeKey lastOptimizeTimeKey t s"

definition dbModified :: "'db db_lib \<Rightarrow> 'db store \<Rightarrow> bool" where
  "dbModified L s = (case lib_LastModified L (sdb (s_db s)) of
     Inl _ \<Rightarrow> True
   | Inr lt \<Rightarrow> s_dbModifiedTime s \<noteq> 0 \<and> lt > s_dbModifiedTime s)"

section \<open>The snapshot of the state machine\<close>

text \<open>What a snapshot meets: the clock at each reading, the room in the scratch file, and the errors of
  the file system and the stores. An incremental snapshot names the file with the compacted WAL, or
  nothing when the WAL is empty; here it carries the contents of that file.\<close>

record snap_env =
  sv_now :: time
  sv_vacuumed :: time
  sv_opt_now :: time
  sv_optimized :: time
  sv_set_vac :: "string option"
  sv_set_opt :: "string option"
  sv_nosnaps :: "(string, bool) result"
  sv_setfull :: "string option"
  sv_open :: "string option"
  sv_tmp :: "string option"
  sv_room :: "nat option"
  sv_walsize :: "string option"

datatype fsm_snapshot = FullSnap bytes | IncrSnap "bytes option"

datatype snap_err = SnapStore store_err | SnapWal wal_err | SnapCas cas_err

definition snap_vacuum ::
  "'db db_lib \<Rightarrow> snap_env \<Rightarrow> 'db store \<Rightarrow> (snap_err, unit) result \<times> 'db store" where
  "snap_vacuum L env s = (case autoVacNeeded (sv_now env) s of
     Inl e \<Rightarrow> (Inl (SnapStore e), s)
   | Inr avn \<Rightarrow>
      if \<not> avn then (Inr (), s)
      else (case sd_Vacuum L (s_db s) of
        (Some e, db) \<Rightarrow> (Inl (SnapStore (StoreErr e)), stat ''num_auto_vacuums_failed'' (s\<lparr>s_db := db\<rparr>))
      | (None, db) \<Rightarrow>
         (case setKeyTime (sv_set_vac env) lastVacuumTimeKey (sv_vacuumed env)
                 (stat ''num_auto_vacuums'' (s\<lparr>s_db := db, s_numAutoVacuums := s_numAutoVacuums s + 1\<rparr>)) of
            (Inl e, s) \<Rightarrow> (Inl (SnapStore e), s)
          | (Inr _, s) \<Rightarrow> (Inr (), s))))"

definition snap_optimize ::
  "'db db_lib \<Rightarrow> snap_env \<Rightarrow> 'db store \<Rightarrow> (snap_err, unit) result \<times> 'db store" where
  "snap_optimize L env s = (case autoOptimizeNeeded (sv_opt_now env) s of
     Inl e \<Rightarrow> (Inl (SnapStore e), s)
   | Inr aon \<Rightarrow>
      if \<not> aon then (Inr (), s)
      else (case sd_Optimize L (s_db s) of
        (Some e, db) \<Rightarrow> (Inl (SnapStore (StoreErr e)), stat ''num_auto_optimizes_failed'' (s\<lparr>s_db := db\<rparr>))
      | (None, db) \<Rightarrow>
         (case setKeyTime (sv_set_opt env) lastOptimizeTimeKey (sv_optimized env)
                 (stat ''num_auto_optimizes'' (s\<lparr>s_db := db, s_numAutoOptimizes := s_numAutoOptimizes s + 1\<rparr>)) of
            (Inl e, s) \<Rightarrow> (Inl (SnapStore e), s)
          | (Inr _, s) \<Rightarrow> (Inr (), s))))"

text \<open>\<^verbatim>\<open>snapshotStore.FullNeeded\<close>: the flag, or that the store holds no snapshot.\<close>

definition full_needed :: "snap_env \<Rightarrow> 'db store \<Rightarrow> (snap_err, bool) result" where
  "full_needed env s = (if s_fullNeeded s then Inr True
     else case sv_nosnaps env of Inl e \<Rightarrow> Inl (SnapStore (StoreErr e)) | Inr none \<Rightarrow> Inr none)"

definition snap_full ::
  "'db db_lib \<Rightarrow> snap_env \<Rightarrow> 'db store \<Rightarrow> (snap_err, fsm_snapshot) result \<times> 'db store" where
  "snap_full L env s = (case sd_Checkpoint L (s_db s) of
     (Some e, db) \<Rightarrow> (Inl (SnapStore (StoreErr e)), stat ''num_full_checkpoint_failed'' (s\<lparr>s_db := db\<rparr>))
   | (None, db) \<Rightarrow>
      let s = s\<lparr>s_db := db\<rparr> in
      (case sv_open env of
         Some e \<Rightarrow> (Inl (SnapStore (StoreErr e)), s)
       | None \<Rightarrow> (Inr (FullSnap (lib_file L (sdb (s_db s)))),
           stat ''num_snapshots_full'' (s\<lparr>s_numFullSnapshots := s_numFullSnapshots s + 1\<rparr>))))"

text \<open>Compacting the WAL into a scratch file with room for \<^verbatim>\<open>sv_room\<close> bytes. \<^verbatim>\<open>WriteTo\<close> always
  returns (\<open>compact_wal_returns\<close>); its not returning is kept apart as a panic.\<close>

definition compact_wal :: "snap_env \<Rightarrow> bytes \<Rightarrow> (snap_err, bytes) result" where
  "compact_wal env wal = (case NewFastCompactingScanner (open_file wal) of
     Inl e \<Rightarrow> Inl (SnapWal e)
   | Inr scanner \<Rightarrow> (case sv_tmp env of
       Some e \<Rightarrow> Inl (SnapStore (StoreErr e))
     | None \<Rightarrow> (case NewWriter cs_Header scanner of
         Inl e \<Rightarrow> Inl (SnapWal e)
       | Inr walWriter \<Rightarrow> (case WriteTo cs_Next walWriter (sink_of (sv_room env)) of
           None \<Rightarrow> Inl (SnapStore (NodePanic ''no return''))
         | Some ((_, Some e), _, _) \<Rightarrow> Inl (SnapWal e)
         | Some ((_, None), _, f) \<Rightarrow> Inr (out f)))))"

definition snap_incremental ::
  "'db db_lib \<Rightarrow> snap_env \<Rightarrow> 'db store \<Rightarrow> (snap_err, fsm_snapshot) result \<times> 'db store" where
  "snap_incremental L env s =
   (let ok = (\<lambda>wal s. (Inr (IncrSnap wal), stat ''num_snapshots_incremental'' s)) in
    case lib_walfile L (sdb (s_db s)) of
      None \<Rightarrow> ok None s
    | Some wal \<Rightarrow>
       if wal = [] then ok None s
       else (case sv_open env of
         Some e \<Rightarrow> (Inl (SnapStore (StoreErr e)), s)
       | None \<Rightarrow> (case compact_wal env wal of
           Inl e \<Rightarrow> (Inl e, s)
         | Inr compacted \<Rightarrow> (case sv_walsize env of
             Some e \<Rightarrow> (Inl (SnapStore (StoreErr e)), s)
           | None \<Rightarrow> (case sd_Checkpoint L (s_db s) of
               (Some e, db) \<Rightarrow>
                 (Inl (SnapStore (StoreErr (''snapshot can't complete due to WAL checkpoint failure (will retry): '' @ e))),
                  stat ''num_wal_checkpoint_truncate_failed'' (s\<lparr>s_db := db\<rparr>))
             | (None, db) \<Rightarrow> ok (Some compacted) (s\<lparr>s_db := db\<rparr>))))))"

text \<open>The body of \<^verbatim>\<open>fsmSnapshot\<close> once the lock is held.\<close>

definition snap_body ::
  "'db db_lib \<Rightarrow> snap_env \<Rightarrow> 'db store \<Rightarrow> (snap_err, fsm_snapshot) result \<times> 'db store" where
  "snap_body L env s = (case snap_vacuum L env s of
     (Inl e, s) \<Rightarrow> (Inl e, s)
   | (Inr _, s) \<Rightarrow> (case snap_optimize L env s of
       (Inl e, s) \<Rightarrow> (Inl e, s)
     | (Inr _, s) \<Rightarrow> (case full_needed env s of
         Inl e \<Rightarrow> (Inl e, s)
       | Inr fullNeeded \<Rightarrow>
          let fullNeeded = (fullNeeded \<or> dbModified L s) in
          (case (if fullNeeded then snap_full L env s else snap_incremental L env s) of
             (Inl e, s) \<Rightarrow> (Inl e, s\<lparr>s_numSnapshots := s_numSnapshots s + 1\<rparr>)
           | (Inr snap, s) \<Rightarrow>
               (Inr snap, stat ''num_snapshots'' (s\<lparr>s_numSnapshots := s_numSnapshots s + 1\<rparr>))))))"

definition fsmSnapshot ::
  "'db db_lib \<Rightarrow> snap_env \<Rightarrow> 'db store \<Rightarrow> (snap_err, fsm_snapshot) result \<times> 'db store" where
  "fsmSnapshot L env s =
   (if \<not> s_open s then (Inl (SnapStore ErrNotOpen), s)
    else case cas_Begin (sv_now env) ''snapshot'' (s_snapshotCAS s) of
      (Inl e, _) \<Rightarrow> (Inl (SnapCas e), s)
    | (Inr _, c) \<Rightarrow>
       (case snap_body L env (s\<lparr>s_snapshotCAS := c\<rparr>) of (r, s) \<Rightarrow>
          let s = (case r of Inl _ \<Rightarrow> stat ''num_snapshots_failed'' s | Inr _ \<Rightarrow> s);
              s = (case lib_LastModified L (sdb (s_db s)) of
                     Inl _ \<Rightarrow> (if sv_setfull env = None then s\<lparr>s_fullNeeded := True\<rparr> else s)
                   | Inr lt \<Rightarrow> s\<lparr>s_dbModifiedTime := lt\<rparr>) in
          (r, s\<lparr>s_snapshotCAS := cas_End (s_snapshotCAS s)\<rparr>)))"

text \<open>\<^verbatim>\<open>FSMSnapshot\<close>: \<^verbatim>\<open>Persist\<close> with the error of copying into the sink and of the optional
  finalizer; \<^verbatim>\<open>Release\<close> with the error of setting the flag, which ends the process.\<close>

record persisting =
  fs_snap :: fsm_snapshot
  persistSucceeded :: bool

definition snap_Persist ::
  "string option \<Rightarrow> string option option \<Rightarrow> persisting \<Rightarrow> 'db store \<Rightarrow>
   (store_err, unit) result \<times> persisting \<times> 'db store" where
  "snap_Persist copyErr finalizer f s = (case copyErr of
     Some e \<Rightarrow> (Inl (StoreErr e), f, stat ''num_snapshot_persists_failed'' s)
   | None \<Rightarrow> (case finalizer of
       Some (Some e) \<Rightarrow> (Inl (StoreErr e), f, stat ''num_snapshot_persists_failed'' s)
     | _ \<Rightarrow> (Inr (), f\<lparr>persistSucceeded := True\<rparr>, stat ''num_snapshot_persists'' s)))"

definition snap_Release ::
  "string option \<Rightarrow> persisting \<Rightarrow> 'db store \<Rightarrow> (string, unit) result \<times> 'db store" where
  "snap_Release setErr f s =
   (if \<not> persistSucceeded f then
      (case setErr of
         Some e \<Rightarrow> (Inl (''failed to set full snapshot needed: '' @ e), s)
       | None \<Rightarrow> (Inr (), s\<lparr>s_fullNeeded := True\<rparr>))
    else (Inr (), s))"


section \<open>Snapshots on request\<close>

text \<open>\<^verbatim>\<open>raft.Snapshot\<close> takes the number of trailing logs in force; it runs the state machine's
  snapshot and persists it, and answers an error or not. Reloading the configuration may fail.\<close>

type_synonym ('db, 'r) raft_snapshot = "nat \<Rightarrow> ('db, 'r) node \<Rightarrow> raft_err option \<times> ('db, 'r) node"

record snap_conf =
  sc_trailing :: nat
  sc_numTrailingLogs :: nat

fun raft_err_msg :: "raft_err \<Rightarrow> string" where
  "raft_err_msg (RErr m) = m"
| "raft_err_msg RErrNotLeader = ''node is not the leader''"
| "raft_err_msg RErrLeadershipLost = ''leadership lost while committing log''"
| "raft_err_msg RErrNothingNewToSnapshot = ''nothing new to snapshot''"

definition st_Snapshot ::
  "('db, 'r) raft_snapshot \<Rightarrow> string option \<Rightarrow> string option \<Rightarrow> nat \<Rightarrow> snap_conf \<Rightarrow> ('db, 'r) node \<Rightarrow>
   (store_err, unit) result \<times> snap_conf \<times> ('db, 'r) node" where
  "st_Snapshot rsnap reload reload2 k c n =
   (let failed = (\<lambda>e n. if e = ErrNothingNewToSnapshot then n else upd_store (stat ''num_user_snapshots_failed'') n);
        run = (\<lambda>c n. (case rsnap (sc_trailing c) n of
          (None, n) \<Rightarrow> (Inr (), upd_store (stat ''num_user_snapshots'') n)
        | (Some e, n) \<Rightarrow>
           let e' = (if contains_sub ''load in progress'' (raft_err_msg e) then ErrLoadInProgress
                     else if e = RErrNothingNewToSnapshot then ErrNothingNewToSnapshot else RaftErr e)
           in (Inl e', failed e' n)));
        reset = (\<lambda>c. if reload2 = None then c\<lparr>sc_trailing := sc_numTrailingLogs c\<rparr> else c) in
    if 0 < k then
      (case reload of
         Some e \<Rightarrow> let e' = StoreErr (''failed to reload Raft config: '' @ e) in (Inl e', reset c, failed e' n)
       | None \<Rightarrow> (case run (c\<lparr>sc_trailing := k\<rparr>) n of (r, n) \<Rightarrow> (r, reset (c\<lparr>sc_trailing := k\<rparr>), n)))
    else (case run c n of (r, n) \<Rightarrow> (r, c, n)))"

text \<open>One tick of \<^verbatim>\<open>runWALSnapshotting\<close>: the size of the WAL file or the error of finding it.\<close>

definition wal_tick ::
  "('db, 'r) raft_snapshot \<Rightarrow> nat \<Rightarrow> (string, nat) result \<Rightarrow> snap_conf \<Rightarrow> ('db, 'r) node \<Rightarrow> snap_conf \<times> ('db, 'r) node" where
  "wal_tick rsnap threshold sz c n = (case sz of
     Inl _ \<Rightarrow> (c, n)
   | Inr sz \<Rightarrow>
      if threshold \<le> sz then
        (case st_Snapshot rsnap None None 0 c n of
           (Inl _, c, n) \<Rightarrow> (c, upd_store (stat ''num_wal_snapshots'') (upd_store (stat ''num_wal_snapshots_failed'') n))
         | (Inr _, c, n) \<Rightarrow> (c, upd_store (stat ''num_wal_snapshots'') n))
      else (c, n))"

section \<open>Backups\<close>

text \<open>What a backup meets: whether the destination is a file, the clock, the size of the WAL, and the
  errors of the scratch file and of opening the database file. The result is what the destination
  receives.\<close>

record backup_env =
  bk_isfile :: bool
  bk_now :: time
  bk_walsize :: "(string, nat) result"
  bk_tmp :: "string option"
  bk_open :: "string option"

definition backup_copy :: "gzip_lib \<Rightarrow> bool \<Rightarrow> bytes \<Rightarrow> (store_err, bytes) result" where
  "backup_copy g compress b = (if compress
     then (case gz_write g b of Inl e \<Rightarrow> Inl (StoreErr e) | Inr z \<Rightarrow> Inr z) else Inr b)"

text \<open>The snapshot before a backup of the database file, and the errors of it that are let pass.\<close>

definition pre_backup ::
  "('db, 'r) raft_snapshot \<Rightarrow> backup_env \<Rightarrow> snap_conf \<Rightarrow> ('db, 'r) node \<Rightarrow>
   (store_err, unit) result \<times> snap_conf \<times> ('db, 'r) node" where
  "pre_backup rsnap env c n = (case bk_walsize env of
     Inl e \<Rightarrow> (Inl (StoreErr e), c, n)
   | Inr sz \<Rightarrow>
      if 0 < sz then
        (case st_Snapshot rsnap None None 0 c n of
           (Inr _, c, n) \<Rightarrow> (Inr (), c, n)
         | (Inl e, c, n) \<Rightarrow>
            if e \<noteq> RaftErr RErrNothingNewToSnapshot \<and>
               \<not> (case e of RaftErr (RErr m) \<Rightarrow> contains_sub ''wait until the configuration entry at'' m | _ \<Rightarrow> False)
            then (Inl (StoreErr ''pre-backup snapshot failed''), c, n)
            else (Inr (), c, n))
      else (Inr (), c, n))"

definition st_Backup ::
  "gzip_lib \<Rightarrow> 'db db_lib \<Rightarrow> 'r raft_ops \<Rightarrow> ('db, 'r) raft_snapshot \<Rightarrow> backup_env \<Rightarrow> BackupRequest \<Rightarrow> snap_conf \<Rightarrow>
   ('db, 'r) node \<Rightarrow> (store_err, bytes) result \<times> snap_conf \<times> ('db, 'r) node" where
  "st_Backup g L R rsnap env br c n =
   (let counted = (\<lambda>(r, c, n). (r, c, case r of Inr _ \<Rightarrow> upd_store (stat ''num_backups'') n | Inl _ \<Rightarrow> n)) in
    if \<not> s_open (nst n) then (Inl ErrNotOpen, c, n)
    else if br_Vacuum br \<and> br_Format br \<noteq> FORMAT_BINARY then (Inl ErrInvalidBackupFormat, c, n)
    else if br_Leader br \<and> r_State R (nra n) \<noteq> RLeader then (Inl ErrNotLeader, c, n)
    else case br_Format br of
      FORMAT_BINARY \<Rightarrow> counted
        (if br_Vacuum br then
           (if \<not> br_Compress br \<and> bk_isfile env then
              (case lib_VacuumInto L (sdb (s_db (nst n))) of
                 Inl e \<Rightarrow> (Inl (StoreErr e), c, n) | Inr b \<Rightarrow> (Inr b, c, n))
            else case bk_tmp env of
              Some e \<Rightarrow> (Inl (StoreErr e), c, n)
            | None \<Rightarrow> (case lib_VacuumInto L (sdb (s_db (nst n))) of
                Inl e \<Rightarrow> (Inl (StoreErr e), c, n)
              | Inr b \<Rightarrow> (backup_copy g (br_Compress br) b, c, n)))
         else case pre_backup rsnap env c n of
           (Inl e, c, n) \<Rightarrow> (Inl e, c, n)
         | (Inr _, c, n) \<Rightarrow> (case cas_Begin (bk_now env) ''backup'' (s_snapshotCAS (nst n)) of
             (Inl e, _) \<Rightarrow> (Inl (CasErr e), c, n)
           | (Inr _, held) \<Rightarrow>
              let m = upd_store (\<lambda>s. s\<lparr>s_snapshotCAS := cas_End held\<rparr>) n in
              (case bk_open env of
                 Some e \<Rightarrow> (Inl (StoreErr (''failed to open database file: '' @ e)), c, m)
               | None \<Rightarrow> (backup_copy g (br_Compress br) (lib_file L (sdb (s_db (nst n)))), c, m))))
    | FORMAT_SQL \<Rightarrow> counted
        (case lib_Dump L (sdb (s_db (nst n))) of
           Inl e \<Rightarrow> (Inl (StoreErr e), c, n)
         | Inr b \<Rightarrow> (backup_copy g (br_Compress br) b, c, n))
    | FORMAT_NONE \<Rightarrow> (Inl ErrInvalidBackupFormat, c, n))"

section \<open>Booting from a file\<close>

record boot_env =
  bt_tmp :: "string option"
  bt_data :: bytes
  bt_copy :: "string option"
  bt_swap :: swap_env
  bt_setfull :: "string option"

definition st_ReadFrom ::
  "codecs \<Rightarrow> 'db db_lib \<Rightarrow> 'r raft_ops \<Rightarrow> ('db, 'r) raft_snapshot \<Rightarrow> boot_env \<Rightarrow> snap_conf \<Rightarrow> ('db, 'r) node \<Rightarrow>
   (nat \<times> (store_err, unit) result) \<times> snap_conf \<times> ('db, 'r) node" where
  "st_ReadFrom C L R rsnap env c n =
   (if r_State R (nra n) \<noteq> RLeader then ((0, Inl ErrNotLeader), c, n)
    else case Nodes R n of
      Inl e \<Rightarrow> ((0, Inl e), c, n)
    | Inr nodes \<Rightarrow>
       if length nodes \<noteq> 1 then ((0, Inl ErrNotSingleNode), c, n)
       else (case bt_tmp env of
         Some e \<Rightarrow> ((0, Inl (StoreErr e)), c, n)
       | None \<Rightarrow>
          let k = length (bt_data env) in
          (case bt_copy env of
             Some e \<Rightarrow> ((k, Inl (StoreErr e)), c, n)
           | None \<Rightarrow>
              if \<not> IsValidSQLiteFile (Some (bt_data env)) then ((k, Inl (StoreErr ''invalid SQLite data'')), c, n)
              else (case st_Noop C L R ''boot'' n of
                (Inl e, n) \<Rightarrow> ((k, Inl e), c, n)
              | (Inr _, n) \<Rightarrow>
                 (case Swap L (bt_swap env) (Some (bt_data env)) (s_FKConstraints (nst n)) True (s_db (nst n)) of
                    (Some e, db) \<Rightarrow> ((k, Inl (StoreErr (''error swapping database file: '' @ e))), c,
                       upd_store (\<lambda>s. s\<lparr>s_db := db\<rparr>) n)
                  | (None, db) \<Rightarrow>
                     let n = upd_store (\<lambda>s. s\<lparr>s_db := db\<rparr>) n in
                     (case bt_setfull env of
                        Some e \<Rightarrow> ((k, Inl (NodePanic (''failed to set full snapshot needed: '' @ e))), c, n)
                      | None \<Rightarrow>
                         (case st_Snapshot rsnap None None 1 c (upd_store (\<lambda>s. s\<lparr>s_fullNeeded := True\<rparr>) n) of
                            (Inl e, c, n) \<Rightarrow> ((k, Inl e), c, n)
                          | (Inr _, c, n) \<Rightarrow> ((k, Inr ()), c, upd_store (stat ''num_boots'') n))))))))"


section \<open>Recovery\<close>

datatype log_type = LogCommand | LogOther

record rlog_entry =
  rl_log :: raft_log
  rl_type :: log_type

text \<open>What recovery meets: the snapshots, newest first, with their contents; a recovery database left by
  an earlier attempt; the log; and the errors of each store.\<close>

record recover_env =
  rc_list :: "(string, (snap_meta \<times> bytes) list) result"
  rc_open :: "string option"
  rc_copy :: "string option"
  rc_left :: "bytes option"
  rc_dm :: tmp_file
  rc_dir :: string
  rc_last :: "(string, nat) result"
  rc_log :: "nat \<Rightarrow> (string, rlog_entry) result"
  rc_proc :: proc_env
  rc_reopen :: "string option"
  rc_create :: "string option"
  rc_persist :: "string option"
  rc_close :: "string option"
  rc_first :: "(string, nat) result"
  rc_delete :: "string option"

record recovered =
  rv_Index :: nat
  rv_Term :: nat
  rv_conf :: "raft_server list"
  rv_data :: bytes
  rv_deleted :: "(nat \<times> nat) option"

fun recover_loop ::
  "codecs \<Rightarrow> 'db db_lib \<Rightarrow> recover_env \<Rightarrow> nat list \<Rightarrow> nat \<times> nat \<Rightarrow> 'db proc_state \<Rightarrow>
   (string, nat \<times> nat) result \<times> 'db proc_state" where
  "recover_loop C L env [] it s = (Inr it, s)"
| "recover_loop C L env (index # rest) it s = (case rc_log env index of
     Inl e \<Rightarrow> (Inl (''failed to get log at index: '' @ e), s)
   | Inr ent \<Rightarrow>
      let it = (l_Index (rl_log ent), l_Term (rl_log ent)) in
      if rl_type ent = LogCommand then
        (case Process C L (rc_proc env) (l_Data (rl_log ent)) s of
           (Inl p, s) \<Rightarrow> (Inl p, s)
         | (Inr _, s) \<Rightarrow> recover_loop C L env rest it s)
      else recover_loop C L env rest it s)"

text \<open>The last part of \<^verbatim>\<open>RecoverNode\<close>: the new snapshot and the emptied log.\<close>

definition recover_finish ::
  "'db db_lib \<Rightarrow> recover_env \<Rightarrow> raft_server list \<Rightarrow> nat \<Rightarrow> nat \<times> nat \<Rightarrow> 'db swappable \<Rightarrow>
   (string, unit) result \<times> recovered option" where
  "recover_finish L env conf lastLogIndex it db = (case sd_Checkpoint L db of
     (Some e, _) \<Rightarrow> (Inl (''failed to checkpoint database: '' @ e), None)
   | (None, db) \<Rightarrow> (case (rc_reopen env, rc_create env, rc_persist env, rc_close env) of
       (Some e, _) \<Rightarrow> (Inl (''failed to open temporary database file: '' @ e), None)
     | (None, Some e, _) \<Rightarrow> (Inl (''failed to create snapshot: '' @ e), None)
     | (None, None, Some e, _) \<Rightarrow> (Inl (''failed to persist snapshot: '' @ e), None)
     | (None, None, None, Some e) \<Rightarrow> (Inl (''failed to finalize snapshot: '' @ e), None)
     | (None, None, None, None) \<Rightarrow>
        let rv = \<lparr>rv_Index = fst it, rv_Term = snd it, rv_conf = conf, rv_data = lib_file L (sdb db), rv_deleted = None\<rparr> in
        (case rc_first env of
           Inl e \<Rightarrow> (Inl (''failed to get first log index: '' @ e), Some rv)
         | Inr firstLogIndex \<Rightarrow> (case rc_delete env of
             Some e \<Rightarrow> (Inl (''log compaction failed: '' @ e), Some rv)
           | None \<Rightarrow> (Inr (), Some (rv\<lparr>rv_deleted := Some (firstLogIndex, lastLogIndex)\<rparr>))))))"

definition RecoverNode ::
  "codecs \<Rightarrow> 'db db_lib \<Rightarrow> recover_env \<Rightarrow> raft_server list \<Rightarrow> (string, unit) result \<times> recovered option" where
  "RecoverNode C L env conf = (case checkRaftConfiguration conf of
     Inl _ \<Rightarrow> (Inl ''invalid configuration'', None)
   | Inr _ \<Rightarrow> (case rc_list env of
       Inl e \<Rightarrow> (Inl (''failed to list snapshots: '' @ e), None)
     | Inr snaps \<Rightarrow>
        (case (case snaps of
                 [] \<Rightarrow> Inr ((0, 0), rc_left env)
               | (m, data) # _ \<Rightarrow> (case rc_open env of
                   Some e \<Rightarrow> Inl (''failed to open snapshot '' @ sm_ID m @ '': '' @ e)
                 | None \<Rightarrow> (case rc_copy env of
                     Some e \<Rightarrow> Inl (''failed to copy snapshot '' @ sm_ID m @ '' to temporary database: '' @ e)
                   | None \<Rightarrow> Inr ((sm_Index m, sm_Term m), Some data)))) of
           Inl e \<Rightarrow> (Inl e, None)
         | Inr (it, file) \<Rightarrow>
            (case OpenSwappable L (case file of None \<Rightarrow> [] | Some b \<Rightarrow> b) False True of
               Inl e \<Rightarrow> (Inl (''failed to open temporary database: '' @ e), None)
             | Inr db \<Rightarrow> (case NewDechunkerManager (rc_dm env) (rc_dir env) of
                 Inl e \<Rightarrow> (Inl (''failed to create dechunker manager: '' @ e), None)
               | Inr dm \<Rightarrow> (case rc_last env of
                   Inl e \<Rightarrow> (Inl (''failed to find last log: '' @ e), None)
                 | Inr lastLogIndex \<Rightarrow>
                    (case recover_loop C L env [fst it + 1..<lastLogIndex + 1] it \<lparr>ps_dm = dm, ps_db = db\<rparr> of
                       (Inl e, _) \<Rightarrow> (Inl e, None)
                     | (Inr it, s) \<Rightarrow> recover_finish L env conf lastLogIndex it (ps_db s))))))))"


section \<open>Times survive the Bolt store\<close>

lemma le64_step:
  fixes x :: "64 word"
  shows "take_bit 8 x OR push_bit 8 (take_bit k (drop_bit 8 x)) = take_bit (8 + k) x"
  by (rule bit_word_eqI) (auto simp: bit_simps)

lemma ucast_byte: "ucast (ucast (x :: 64 word) :: 8 word) = take_bit 8 x"
  by (rule bit_word_eqI) (auto simp: bit_simps)

lemma le64_fold:
  fixes w :: "64 word"
  shows "foldr (\<lambda>b acc. ucast b OR push_bit 8 acc) (map (\<lambda>i. ucast (drop_bit (8 * i) w) :: 8 word) [a..<a + n]) 0 =
    take_bit (8 * n) (drop_bit (8 * a) w)"
proof (induction n arbitrary: a)
  case (Suc n)
  have "[a..<a + Suc n] = a # [Suc a..<Suc a + n]" by (simp add: upt_conv_Cons)
  then show ?case using Suc [of "Suc a"] le64_step [of "drop_bit (8 * a) w" "8 * n"]
    by (simp add: ucast_byte drop_bit_drop_bit add.commute)
qed simp

lemma le64_roundtrip: "le_uint64 (le_put64 w) = w"
proof -
  have "le_uint64 (le_put64 w) = take_bit (8 * 8) (drop_bit (8 * 0) w)"
    unfolding le_uint64_def le_put64_def using le64_fold [where a = 0 and n = 8 and w = w] by simp
  also have "\<dots> = w" by (rule bit_word_eqI) (auto simp: bit_simps)
  finally show ?thesis .
qed

lemma length_le_put64: "length (le_put64 w) = 8"
  by (simp add: le_put64_def)

text \<open>C40: A time written to the Bolt store is read back as it was if it is within the 64-bit range of
  nanoseconds, and modulo that range otherwise; what is read is always in the range; other keys keep
  their times; and a cleared key reads as an error, never as a panic.\<close>

theorem key_time_roundtrip:
  assumes "setKeyTime None key t s = (Inr (), s')"
  shows "\<exists>r. getKeyTime key s' = Inr r \<and> - (2 ^ 63) \<le> r \<and> r < 2 ^ 63 \<and> (r - t) mod 2 ^ 64 = 0 \<and>
    (- (2 ^ 63) \<le> t \<and> t < 2 ^ 63 \<longrightarrow> r = t) \<and>
    (\<forall>k. k \<noteq> key \<longrightarrow> getKeyTime k s' = getKeyTime k s) \<and>
    (\<exists>m. getKeyTime key (snd (clearKeyTime None key s')) = Inl (StoreErr m))"
proof -
  let ?w = "word_of_int t :: 64 word"
  have s': "s_bolt s' = (s_bolt s)(key \<mapsto> le_put64 ?w)" using assms by (auto simp: setKeyTime_def)
  have "le_put64 ?w \<noteq> []" using length_le_put64 [of ?w] by auto
  then have r: "getKeyTime key s' = Inr (sint ?w)"
    by (simp add: getKeyTime_def s' le64_roundtrip length_le_put64)
  have range: "- (2 ^ 63) \<le> sint ?w" "sint ?w < 2 ^ 63"
    using sint_ge [of ?w] sint_lt [of ?w] by simp_all
  have st: "sint ?w = signed_take_bit 63 t" by (simp add: sint_sbintrunc')
  have m: "(sint ?w - t) mod 2 ^ 64 = 0"
  proof -
    have "take_bit 64 (sint ?w) = take_bit 64 t" unfolding st by (simp add: take_bit_signed_take_bit)
    then show ?thesis by (simp add: take_bit_eq_mod mod_eq_dvd_iff)
  qed
  have eq: "- (2 ^ 63) \<le> t \<and> t < 2 ^ 63 \<longrightarrow> sint ?w = t"
    unfolding st using signed_take_bit_int_eq_self [of 63 t] by blast
  have other: "\<forall>k. k \<noteq> key \<longrightarrow> getKeyTime k s' = getKeyTime k s"
    by (simp add: getKeyTime_def s')
  have "\<exists>m. getKeyTime key (snd (clearKeyTime None key s')) = Inl (StoreErr m)"
    by (simp add: getKeyTime_def clearKeyTime_def)
  with r range m eq other show ?thesis by (intro exI [of _ "sint ?w"] conjI)
qed

theorem key_time_roundtrip_witness:
  "\<exists>s'. setKeyTime None lastVacuumTimeKey 1700000000000000000 (new_store ''n1'' ([] :: string list)) = (Inr (), s') \<and>
    getKeyTime lastVacuumTimeKey s' = Inr 1700000000000000000"
proof -
  obtain s' where s: "setKeyTime None lastVacuumTimeKey 1700000000000000000 (new_store ''n1'' ([] :: string list)) = (Inr (), s')"
    by (simp add: setKeyTime_def)
  from key_time_roundtrip [OF s] have "getKeyTime lastVacuumTimeKey s' = Inr 1700000000000000000" by auto
  with s show ?thesis by blast
qed


section \<open>What a snapshot captures\<close>

lemma compact_writer:
  assumes "NewWriter cs_Header c = Inr w"
  shows "ww_bo w = header_order (ww_rHeader w)" and "ww_r w = c" and "ww_rHeader w = cs_header c"
  using assms by (auto simp: NewWriter_def magic_order_def header_order_def split: option.splits if_splits)

lemma compact_wal_returns: "compact_wal env wal \<noteq> Inl (SnapStore (NodePanic ''no return''))"
proof
  assume c: "compact_wal env wal = Inl (SnapStore (NodePanic ''no return''))"
  then obtain sc w where w: "NewWriter cs_Header sc = Inr w"
    and none: "WriteTo cs_Next w (sink_of (sv_room env)) = None"
    by (auto simp: compact_wal_def split: sum.splits option.splits prod.splits)
  from compact_it.WriteTo_spec [OF compact_writer(1) [OF w], of "sink_of (sv_room env)"] none
  show False by auto
qed

lemma compact_wal_committed:
  assumes "compact_wal env (wal_image h fs @ rest) = Inr bs" and "valid_header h" and "aligned h"
    and "page_frames h fs" and "committed fs" and "\<not> salted h rest"
  shows "bs = wal_image h (last_per_page fs)"
proof -
  obtain c where c: "NewFastCompactingScanner (open_file (wal_image h fs @ rest)) = Inr c"
    "cs_header c = h" "cs_remaining c = (last_per_page fs, WEOF)"
    unfolding NewFastCompactingScanner_def using compact_open [OF assms(2-)] by blast
  with assms(1) obtain w n w' f where w: "NewWriter cs_Header c = Inr w"
    and wt: "WriteTo cs_Next w (sink_of (sv_room env)) = Some ((n, None), w', f)" and bs: "bs = out f"
    by (auto simp: compact_wal_def split: option.splits sum.splits prod.splits)
  note wr = compact_writer [OF w]
  from compact_it.WriteTo_spec [OF wr(1), of "sink_of (sv_room env)"] wt
  have "wrote_prefix (wal_image h (last_per_page fs)) (sink_of (sv_room env)) n f"
    and "n = length (wal_image h (last_per_page fs))"
    by (auto simp: wr c)
  then show ?thesis by (simp add: bs wrote_prefix_def sink_of_def)
qed


text \<open>The state in which the snapshot is taken: after the maintenance that is due.\<close>

definition maintained :: "'db db_lib \<Rightarrow> snap_env \<Rightarrow> 'db store \<Rightarrow> 'db store \<Rightarrow> bool" where
  "maintained L env s s1 \<longleftrightarrow> (\<exists>sv. snap_vacuum L env s = (Inr (), sv) \<and> snap_optimize L env sv = (Inr (), s1))"

definition takes_full :: "'db db_lib \<Rightarrow> snap_env \<Rightarrow> 'db store \<Rightarrow> bool" where
  "takes_full L env s \<longleftrightarrow> s_fullNeeded s \<or> sv_nosnaps env = Inr True \<or> dbModified L s"

lemma snap_full_ok:
  assumes "snap_full L env s = (Inr snap, s')"
  shows "lib_Checkpoint L (sdb (s_db s)) = (None, sdb (s_db s')) \<and> snap = FullSnap (lib_file L (sdb (s_db s')))"
  using assms by (auto simp: snap_full_def sd_Checkpoint_def Let_def split: prod.splits option.splits)

lemma snap_incremental_ok:
  assumes "snap_incremental L env s = (Inr snap, s')"
  shows "\<exists>x. snap = IncrSnap x \<and> (case x of
      None \<Rightarrow> (lib_walfile L (sdb (s_db s)) = None \<or> lib_walfile L (sdb (s_db s)) = Some []) \<and> s_db s' = s_db s
    | Some bs \<Rightarrow> \<exists>wal. lib_walfile L (sdb (s_db s)) = Some wal \<and> compact_wal env wal = Inr bs \<and>
        lib_Checkpoint L (sdb (s_db s)) = (None, sdb (s_db s')))"
proof (cases "lib_walfile L (sdb (s_db s))")
  case None
  then show ?thesis using assms by (auto simp: snap_incremental_def)
next
  case (Some wal)
  show ?thesis
  proof (cases "wal = []")
    case True
    then show ?thesis using assms Some by (auto simp: snap_incremental_def)
  next
    case False
    obtain e db where ck: "sd_Checkpoint L (s_db s) = (e, db)" by fastforce
    from assms Some False ck obtain bs where bs: "compact_wal env wal = Inr bs" and "e = None"
      and "snap = IncrSnap (Some bs)" and "s_db s' = db"
      by (cases "compact_wal env wal"; cases e; cases "sv_open env"; cases "sv_walsize env")
        (auto simp: snap_incremental_def)
    moreover have "lib_Checkpoint L (sdb (s_db s)) = (e, sdb db)"
      using ck by (cases "lib_Checkpoint L (sdb (s_db s))") (auto simp: sd_Checkpoint_def)
    ultimately show ?thesis using Some by auto
  qed
qed

lemma snap_body_ok:
  assumes "snap_body L env s = (Inr snap, s')"
  shows "\<exists>s1 s2. maintained L env s s1 \<and> s_db s' = s_db s2 \<and>
    (if takes_full L env s1 then snap_full L env s1 = (Inr snap, s2) else snap_incremental L env s1 = (Inr snap, s2))"
proof -
  obtain u sv where v: "snap_vacuum L env s = (u, sv)" by fastforce
  obtain w s1 where o: "snap_optimize L env sv = (w, s1)" by fastforce
  from assms v have u: "u = Inr ()" by (cases u) (auto simp: snap_body_def)
  from assms v o u have w: "w = Inr ()" by (cases w) (auto simp: snap_body_def)
  obtain b where b: "full_needed env s1 = Inr b"
    using assms v o u w by (cases "full_needed env s1") (auto simp: snap_body_def)
  then have tf: "takes_full L env s1 \<longleftrightarrow> b \<or> dbModified L s1"
    by (auto simp: full_needed_def takes_full_def split: if_splits sum.splits)
  obtain r s2 where r: "(if b \<or> dbModified L s1 then snap_full L env s1 else snap_incremental L env s1) = (r, s2)"
    by fastforce
  have "r = Inr snap \<and> s_db s' = s_db s2"
    using assms v o u w b r by (cases r) (auto simp: snap_body_def)
  then show ?thesis using v o u w tf r by (intro exI [of _ s1] exI [of _ s2]) (auto simp: maintained_def)
qed

lemma fsmSnapshot_ok:
  assumes "fsmSnapshot L env s = (Inr snap, s')"
  shows "s_open s \<and> \<not> cas_state (s_snapshotCAS s) \<and> \<not> cas_state (s_snapshotCAS s') \<and>
    (\<exists>c s1. snap_body L env (s\<lparr>s_snapshotCAS := c\<rparr>) = (Inr snap, s1) \<and> s_db s' = s_db s1)"
proof -
  have free: "s_open s" "\<not> cas_state (s_snapshotCAS s)"
    using assms by (auto simp: fsmSnapshot_def cas_Begin_def split: if_splits)
  obtain r s1 where b: "snap_body L env
      (s\<lparr>s_snapshotCAS := \<lparr>cas_state = True, cas_owner = ''snapshot'', cas_startT = sv_now env\<rparr>\<rparr>) = (r, s1)"
    by fastforce
  from assms free b have "r = Inr snap" by (auto simp: fsmSnapshot_def cas_Begin_def Let_def)
  with assms free b show ?thesis
    by (cases "lib_LastModified L (sdb (s_db s1))")
      (auto simp: fsmSnapshot_def cas_Begin_def cas_End_def Let_def intro!: exI)
qed




lemma compact_wal_room:
  assumes "valid_header h" and "aligned h" and "page_frames h fs" and "committed fs" and "\<not> salted h rest"
    and "sv_tmp env = None" and "sv_room env = None"
  shows "compact_wal env (wal_image h fs @ rest) = Inr (wal_image h (last_per_page fs))"
proof -
  obtain c where c: "NewFastCompactingScanner (open_file (wal_image h fs @ rest)) = Inr c"
    "cs_header c = h" "cs_remaining c = (last_per_page fs, WEOF)"
    unfolding NewFastCompactingScanner_def using compact_open [OF assms(1-5)] by blast
  have "\<exists>w w'. NewWriter cs_Header c = Inr w \<and> WriteTo cs_Next w (sink_of None) =
      Some ((length (wal_image h (last_per_page fs)), None), w', \<lparr>out = wal_image h (last_per_page fs), cap = None\<rparr>)"
    by (rule write_image [OF compact_it.wal_iterator_axioms assms(1,2) page_frames_last_per_page [OF assms(3)]])
      (simp_all add: c)
  then show ?thesis using c(1) assms(6,7) by (auto simp: compact_wal_def)
qed

lemma snap_body_quiet:
  assumes "s_AutoVacInterval s = 0" and "s_AutoOptimizeInterval s = 0" and "\<not> s_fullNeeded s"
    and "sv_nosnaps env = Inr False" and "\<not> dbModified L s" and "snap_incremental L env s = (Inr snap, s1)"
  shows "\<exists>s2. snap_body L env s = (Inr snap, s2)"
  using assms by (simp add: snap_body_def snap_vacuum_def snap_optimize_def autoVacNeeded_def
      autoOptimizeNeeded_def needed_since_def full_needed_def)

lemma fsmSnapshot_run:
  assumes "s_open s" and "\<not> cas_state (s_snapshotCAS s)"
    and "snap_body L env (s\<lparr>s_snapshotCAS := \<lparr>cas_state = True, cas_owner = ''snapshot'', cas_startT = sv_now env\<rparr>\<rparr>) = (r, s1)"
  shows "\<exists>s'. fsmSnapshot L env s = (r, s')"
  using assms by (simp add: fsmSnapshot_def cas_Begin_def Let_def)

definition sample_snap_env :: snap_env where
  "sample_snap_env = \<lparr>sv_now = 5, sv_vacuumed = 6, sv_opt_now = 7, sv_optimized = 8, sv_set_vac = None,
     sv_set_opt = None, sv_nosnaps = Inr False, sv_setfull = None, sv_open = None, sv_tmp = None,
     sv_room = None, sv_walsize = None\<rparr>"

definition wal_lib :: "string list db_lib" where
  "wal_lib = sample_lib\<lparr>lib_walfile := (\<lambda>d. Some (wal_image sample_header
     [sample_frame 1 0 5, sample_frame 2 2 6, sample_frame 1 3 7] @ [1, 2, 3]))\<rparr>"



section \<open>After a failed snapshot\<close>

lemma fsmApply_fullNeeded:
  assumes "fsmApply C L a s = (Inr r, s')" and "s_fullNeeded s"
  shows "s_fullNeeded s'"
proof -
  obtain res ps where p: "Process C L (ap_env a) (l_Data (ap_log a)) \<lparr>ps_dm = s_dm s, ps_db = s_db s\<rparr> = (res, ps)"
    by fastforce
  have cdc: "s_dm (case x of None \<Rightarrow> t | Some c \<Rightarrow> t\<lparr>s_cdcStreamer := f c\<rparr>) = s_dm t"
    "s_db (case x of None \<Rightarrow> t | Some c \<Rightarrow> t\<lparr>s_cdcStreamer := f c\<rparr>) = s_db t"
    "s_fullNeeded (case x of None \<Rightarrow> t | Some c \<Rightarrow> t\<lparr>s_cdcStreamer := f c\<rparr>) = s_fullNeeded t"
    for x f and t :: "'a store" by (auto split: option.splits)
  show ?thesis
    using assms p
    by (cases res) (auto simp: fsmApply_def Let_def cdc fsm_deferred_def split: if_splits option.splits)
qed

lemma apply_logs_fullNeeded:
  "apply_logs C L as s = (Inr r, s') \<Longrightarrow> s_fullNeeded s \<Longrightarrow> s_fullNeeded s'"
proof (induction as arbitrary: s r)
  case (Cons a as)
  then obtain r1 s1 r2 where "fsmApply C L a s = (Inr r1, s1)" "apply_logs C L as s1 = (Inr r2, s')"
    by (auto split: prod.splits sum.splits option.splits)
  then show ?case using Cons.IH fsmApply_fullNeeded Cons.prems(2) by blast
qed simp

lemma setKeyTime_fullNeeded: "setKeyTime e k t s = (r, s') \<Longrightarrow> s_fullNeeded s' = s_fullNeeded s"
  by (auto simp: setKeyTime_def split: option.splits)

lemma snap_vacuum_fullNeeded: "snap_vacuum L env s = (r, s') \<Longrightarrow> s_fullNeeded s' = s_fullNeeded s"
  by (auto simp: snap_vacuum_def split: sum.splits if_splits prod.splits option.splits
      dest: setKeyTime_fullNeeded)

lemma snap_optimize_fullNeeded: "snap_optimize L env s = (r, s') \<Longrightarrow> s_fullNeeded s' = s_fullNeeded s"
  by (auto simp: snap_optimize_def split: sum.splits if_splits prod.splits option.splits
      dest: setKeyTime_fullNeeded)

text \<open>C20: A snapshot that could not be persisted is made good by a full one. When persisting failed, or
  was never done, releasing the snapshot sets the flag; whatever entries are applied after that, the
  next snapshot that succeeds is full, so nothing that the lost incremental snapshot held is missing
  from it.\<close>

theorem failed_persist_forces_full:
  assumes "snap_Persist copyErr fin \<lparr>fs_snap = lost, persistSucceeded = False\<rparr> s0 = (r0, f, s)"
    and "copyErr \<noteq> None \<or> (\<exists>e. fin = Some (Some e))"
    and "snap_Release None f s = (Inr u, s1)"
    and "apply_logs C L as s1 = (Inr r, s2)" and "fsmSnapshot L env s2 = (Inr snap, s3)"
  shows "snap = FullSnap (lib_file L (sdb (s_db s3)))"
proof -
  have "\<not> persistSucceeded f" using assms(1,2) by (auto simp: snap_Persist_def split: option.splits)
  then have "s_fullNeeded s1" using assms(3) by (auto simp: snap_Release_def)
  then have full: "s_fullNeeded s2" using apply_logs_fullNeeded [OF assms(4)] by blast
  from fsmSnapshot_ok [OF assms(5)] obtain c t where
    b: "snap_body L env (s2\<lparr>s_snapshotCAS := c\<rparr>) = (Inr snap, t)" and db: "s_db s3 = s_db t" by blast
  from snap_body_ok [OF b] obtain m1 m2 where m: "maintained L env (s2\<lparr>s_snapshotCAS := c\<rparr>) m1" "s_db t = s_db m2"
    and r: "if takes_full L env m1 then snap_full L env m1 = (Inr snap, m2) else snap_incremental L env m1 = (Inr snap, m2)"
    by blast
  have "s_fullNeeded m1" using m(1) full snap_vacuum_fullNeeded snap_optimize_fullNeeded
    by (fastforce simp: maintained_def)
  with r have "snap_full L env m1 = (Inr snap, m2)" by (simp add: takes_full_def)
  from snap_full_ok [OF this] m(2) db show ?thesis by simp
qed

theorem failed_persist_forces_full_witness:
  "\<exists>f s s1 snap s3.
     snap_Persist (Some ''disk full'') None \<lparr>fs_snap = IncrSnap None, persistSucceeded = False\<rparr>
       (new_store ''n1'' [''t'']) = (Inl (StoreErr ''disk full''), f, s) \<and>
     snap_Release None f s = (Inr (), s1) \<and>
     fsmSnapshot sample_lib sample_snap_env s1 = (Inr snap, s3) \<and> (\<exists>b. snap = FullSnap b)"
proof -
  let ?f = "\<lparr>fs_snap = IncrSnap None, persistSucceeded = False\<rparr>"
  let ?s = "stat ''num_snapshot_persists_failed'' (new_store ''n1'' [''t''])"
  let ?s1 = "?s\<lparr>s_fullNeeded := True\<rparr>"
  let ?t = "?s1\<lparr>s_snapshotCAS := \<lparr>cas_state = True, cas_owner = ''snapshot'', cas_startT = sv_now sample_snap_env\<rparr>\<rparr>"
  have p: "snap_Persist (Some ''disk full'') None ?f (new_store ''n1'' [''t'']) = (Inl (StoreErr ''disk full''), ?f, ?s)"
    by (simp add: snap_Persist_def)
  have rel: "snap_Release None ?f ?s = (Inr (), ?s1)" by (simp add: snap_Release_def)
  have "sd_Checkpoint sample_lib d = (None, d)" for d by (simp add: sample_lib_def sd_Checkpoint_def)
  then have "\<exists>b s2. snap_full sample_lib sample_snap_env ?t = (Inr (FullSnap b), s2)"
    by (simp add: snap_full_def sample_snap_env_def)
  then have "\<exists>b s2. snap_body sample_lib sample_snap_env ?t = (Inr (FullSnap b), s2)"
    by (auto simp: snap_body_def snap_vacuum_def snap_optimize_def autoVacNeeded_def autoOptimizeNeeded_def
        needed_since_def full_needed_def new_store_def)
  then obtain b s2 where body: "snap_body sample_lib sample_snap_env ?t = (Inr (FullSnap b), s2)" by blast
  obtain s3 where sn: "fsmSnapshot sample_lib sample_snap_env ?s1 = (Inr (FullSnap b), s3)"
    using fsmSnapshot_run [OF _ _ body] by (auto simp: new_store_def NewCheckAndSet_def)
  have "apply_logs noop_codecs sample_lib [] ?s1 = (Inr None, ?s1)" by simp
  from failed_persist_forces_full [OF p _ rel this sn] p rel sn show ?thesis by blast
qed


text \<open>
  The flag depends on \<^verbatim>\<open>Persist\<close> alone. Raft closes the sink after \<^verbatim>\<open>Persist\<close> has
  succeeded and before it releases the snapshot; if closing fails then, what was captured is
  discarded, the flag stays as it was, and the next snapshot may be incremental.
\<close>

lemma close_failure_not_full:
  assumes "snap_Persist None None f0 s0 = (Inr u, f, s)" and "snap_Release e f s = (r, s1)"
  shows "r = Inr () \<and> s_fullNeeded s1 = s_fullNeeded s0"
  using assms by (auto simp: snap_Persist_def snap_Release_def)

text \<open>
  A change of the database file from outside asks for a full snapshot. If the checkpoint of that
  snapshot fails, the deferred part still stores the new modification time, and the request is gone.
\<close>

lemma failed_checkpoint_forgets_change:
  assumes "s_open s" and "\<not> cas_state (s_snapshotCAS s)" and "s_AutoVacInterval s = 0"
    and "s_AutoOptimizeInterval s = 0" and "\<not> s_fullNeeded s" and "sv_nosnaps env = Inr False"
    and "dbModified L s" and "lib_Checkpoint L (sdb (s_db s)) = (Some e, d)" and "lib_LastModified L d = Inr lt"
  shows "\<exists>s'. fsmSnapshot L env s = (Inl (SnapStore (StoreErr e)), s') \<and>
    \<not> s_fullNeeded s' \<and> \<not> dbModified L s'"
proof -
  let ?s = "s\<lparr>s_snapshotCAS := \<lparr>cas_state = True, cas_owner = ''snapshot'', cas_startT = sv_now env\<rparr>\<rparr>"
  have "dbModified L ?s" using assms(7) by (simp add: dbModified_def split: sum.splits)
  moreover have "snap_full L env ?s = (Inl (SnapStore (StoreErr e)),
      stat ''num_full_checkpoint_failed'' (?s\<lparr>s_db := (s_db s)\<lparr>sdb := d\<rparr>\<rparr>))"
    using assms(8) by (simp add: snap_full_def sd_Checkpoint_def)
  ultimately have "snap_body L env ?s = (Inl (SnapStore (StoreErr e)),
      (stat ''num_full_checkpoint_failed'' (?s\<lparr>s_db := (s_db s)\<lparr>sdb := d\<rparr>\<rparr>))\<lparr>s_numSnapshots := s_numSnapshots s + 1\<rparr>)"
    using assms(3-6) by (simp add: snap_body_def snap_vacuum_def snap_optimize_def autoVacNeeded_def
        autoOptimizeNeeded_def needed_since_def full_needed_def)
  then show ?thesis using assms(1,2,5,9)
    by (simp add: fsmSnapshot_def cas_Begin_def Let_def dbModified_def)
qed

text \<open>
  \<^verbatim>\<open>Snapshot\<close> answers that there is nothing new with the store's own error value, and a backup
  compares with the one of the Raft library, so the case it means to let pass fails the backup.
\<close>

lemma nothing_new_fails_backup:
  assumes "bk_walsize env = Inr k" and "0 < k" and "rsnap (sc_trailing c) n = (Some RErrNothingNewToSnapshot, n')"
  shows "\<exists>c' m. pre_backup rsnap env c n = (Inl (StoreErr ''pre-backup snapshot failed''), c', m)"
proof -
  have "\<not> contains_sub ''load in progress'' ''nothing new to snapshot''" by code_simp
  with assms show ?thesis by (simp add: pre_backup_def st_Snapshot_def Let_def)
qed

section \<open>Recovery replays the log\<close>

text \<open>The command entries of a log as the state machine would be given them.\<close>

definition commands :: "recover_env \<Rightarrow> (nat \<Rightarrow> rlog_entry) \<Rightarrow> nat list \<Rightarrow> applied list" where
  "commands env ent is = map (\<lambda>i. \<lparr>ap_log = rl_log (ent i), ap_now = 0, ap_env = rc_proc env, ap_setfull = None\<rparr>)
     (filter (\<lambda>i. rl_type (ent i) = LogCommand) is)"

lemma recover_loop_apply:
  assumes "\<And>i. i \<in> set is \<Longrightarrow> rc_log env i = Inr (ent i)"
    and "apply_logs C L (commands env ent is) s = (Inr r, s')"
  shows "recover_loop C L env is it \<lparr>ps_dm = s_dm s, ps_db = s_db s\<rparr> =
    (Inr (if is = [] then it else (l_Index (rl_log (ent (last is))), l_Term (rl_log (ent (last is))))),
     \<lparr>ps_dm = s_dm s', ps_db = s_db s'\<rparr>)"
  using assms
proof (induction "is" arbitrary: s it r)
  case (Cons i "is")
  have l: "rc_log env i = Inr (ent i)" using Cons.prems(1) by simp
  show ?case
  proof (cases "rl_type (ent i) = LogCommand")
    case True
    let ?a = "\<lparr>ap_log = rl_log (ent i), ap_now = 0, ap_env = rc_proc env, ap_setfull = None\<rparr>"
    have "commands env ent (i # is) = ?a # commands env ent is" using True by (simp add: commands_def)
    with Cons.prems(2) obtain r1 s1 r2 where a: "fsmApply C L ?a s = (Inr r1, s1)"
      and rest: "apply_logs C L (commands env ent is) s1 = (Inr r2, s')"
      by (auto split: prod.splits sum.splits option.splits)
    obtain cmd m ps where p: "Process C L (rc_proc env) (l_Data (rl_log (ent i))) \<lparr>ps_dm = s_dm s, ps_db = s_db s\<rparr> =
        (Inr (cmd, m, r1), ps)" and ps: "s_db s1 = ps_db ps" "s_dm s1 = ps_dm ps"
      by (rule fsmApply_ok_cases [OF a]) simp
    have "\<lparr>ps_dm = s_dm s1, ps_db = s_db s1\<rparr> = ps" unfolding ps by simp
    with Cons.IH [OF _ rest] Cons.prems(1) l True p show ?thesis by simp
  next
    case False
    then have "commands env ent (i # is) = commands env ent is" by (simp add: commands_def)
    then show ?thesis using Cons.IH [of s r] Cons.prems l False by simp
  qed
qed (simp add: commands_def)

text \<open>C11: Recovery rebuilds the database the state machine would have. With a snapshot to start from and no
  I/O error, \<^verbatim>\<open>RecoverNode\<close> produces a snapshot of exactly the database that a node restored from that
  snapshot has after applying every command entry of the log past it, in order, checkpointed; with the
  index and term of the last entry of the log whatever its type; with the new configuration, which
  must be a usable one; and it empties the log it has replayed.\<close>

theorem recovery_replays_log:
  assumes "checkRaftConfiguration conf = Inr ()" and "rc_list env = Inr ((m, data) # older)"
    and "rc_open env = None" and "rc_copy env = None" and "rc_dm env = Inr tmp"
    and "rc_last env = Inr k" and "sm_Index m \<le> k" and "rc_reopen env = None" and "rc_create env = None" and "rc_persist env = None"
    and "rc_close env = None" and "rc_first env = Inr i0" and "rc_delete env = None"
    and "lib_Open L data False True = Inr d0"
    and "\<And>i. sm_Index m < i \<Longrightarrow> i \<le> k \<Longrightarrow> rc_log env i = Inr (ent i) \<and> l_Index (rl_log (ent i)) = i"
    and "s_db s = \<lparr>sdb = d0, sdb_closed = False\<rparr>" and "s_dm s = \<lparr>dm_dir = rc_dir env, dm_m = []\<rparr>"
    and "apply_logs C L (commands env ent [sm_Index m + 1..<k + 1]) s = (Inr r, s')"
    and "lib_Checkpoint L (sdb (s_db s')) = (None, d1)"
  shows "RecoverNode C L env conf = (Inr (), Some \<lparr>rv_Index = k,
      rv_Term = (if sm_Index m = k then sm_Term m else l_Term (rl_log (ent k))),
      rv_conf = conf, rv_data = lib_file L d1, rv_deleted = Some (i0, k)\<rparr>)"
proof -
  let ?is = "[sm_Index m + 1..<k + 1]"
  have dm: "NewDechunkerManager (rc_dm env) (rc_dir env) = Inr (s_dm s)"
    using assms(5,17) by (simp add: NewDechunkerManager_def)
  have op: "OpenSwappable L data False True = Inr (s_db s)" using assms(14,16) by (simp add: OpenSwappable_def)
  have last: "?is \<noteq> [] \<Longrightarrow> last ?is = k" by (simp only: upt_eq_Nil_conv) (simp add: last_upt del: upt_Suc)
  have get: "rc_log env i = Inr (ent i)" if "i \<in> set ?is" for i using assms(15) [of i] that by (auto simp del: upt_Suc)
  have nil: "?is = [] \<longleftrightarrow> sm_Index m = k" using assms(7) by (simp only: upt_eq_Nil_conv) auto
  have "l_Index (rl_log (ent k)) = k" if "sm_Index m \<noteq> k" using assms(15) [of k] assms(7) that by simp
  with last nil recover_loop_apply [OF get assms(18), where it = "(sm_Index m, sm_Term m)"]
  have "recover_loop C L env ?is (sm_Index m, sm_Term m) \<lparr>ps_dm = s_dm s, ps_db = s_db s\<rparr> =
      (Inr (k, if sm_Index m = k then sm_Term m else l_Term (rl_log (ent k))), \<lparr>ps_dm = s_dm s', ps_db = s_db s'\<rparr>)"
    by (cases "sm_Index m = k") (simp_all only: if_True if_False HOL.simp_thms)
  moreover have "sd_Checkpoint L (s_db s') = (None, (s_db s')\<lparr>sdb := d1\<rparr>)"
    using assms(19) by (simp add: sd_Checkpoint_def)
  ultimately show ?thesis
    using assms(1-4,6,8-13) dm op by (simp add: RecoverNode_def recover_finish_def Let_def)
qed


definition sample_recover_env :: recover_env where
  "sample_recover_env = \<lparr>rc_list = Inr [(\<lparr>sm_ID = ''1-1'', sm_Index = 1, sm_Term = 1, sm_Size = 1\<rparr>, [65])], rc_open = None,
     rc_copy = None, rc_left = None, rc_dm = Inr ''t'', rc_dir = ''/tmp'', rc_last = Inr 3,
     rc_log = (\<lambda>i. Inr \<lparr>rl_log = \<lparr>l_Index = i, l_Term = 2, l_Data = [1], l_AppendedAt = 0\<rparr>, rl_type = LogCommand\<rparr>),
     rc_proc = good_env, rc_reopen = None, rc_create = None, rc_persist = None, rc_close = None,
     rc_first = Inr 2, rc_delete = None\<rparr>"

theorem recovery_replays_log_witness:
  "\<exists>b. RecoverNode noop_codecs sample_lib sample_recover_env
      [\<lparr>rs_ID = ''n1'', rs_Address = ''n1:4002'', rs_Suffrage = Voter\<rparr>] =
    (Inr (), Some \<lparr>rv_Index = 3, rv_Term = 2,
       rv_conf = [\<lparr>rs_ID = ''n1'', rs_Address = ''n1:4002'', rs_Suffrage = Voter\<rparr>],
       rv_data = b, rv_deleted = Some (2, 3)\<rparr>)"
proof -
  let ?conf = "[\<lparr>rs_ID = ''n1'', rs_Address = ''n1:4002'', rs_Suffrage = Voter\<rparr>]"
  let ?m = "\<lparr>sm_ID = ''1-1'', sm_Index = 1, sm_Term = 1, sm_Size = 1\<rparr>"
  let ?ent = "\<lambda>i. \<lparr>rl_log = \<lparr>l_Index = i, l_Term = 2, l_Data = [1], l_AppendedAt = 0\<rparr>, rl_type = LogCommand\<rparr>"
  let ?s = "new_store ''n1'' [''A'']"
  have conf: "checkRaftConfiguration ?conf = Inr ()" by code_simp
  have cmds: "commands sample_recover_env ?ent [sm_Index ?m + 1..<3 + 1] =
      [\<lparr>ap_log = rl_log (?ent 2), ap_now = 0, ap_env = good_env, ap_setfull = None\<rparr>,
       \<lparr>ap_log = rl_log (?ent 3), ap_now = 0, ap_env = good_env, ap_setfull = None\<rparr>]"
    by (simp add: commands_def sample_recover_env_def upt_rec)
  have "\<exists>r s'. apply_logs noop_codecs sample_lib (commands sample_recover_env ?ent [sm_Index ?m + 1..<3 + 1]) ?s = (Inr r, s')"
    unfolding cmds
    by (simp add: fsmApply_def fsm_deferred_def Process_def cmd_Unmarshal_def noop_codecs_def sample_codecs_def
        sample_pb_def Let_def new_store_def)
  then obtain r s' where run: "apply_logs noop_codecs sample_lib
      (commands sample_recover_env ?ent [sm_Index ?m + 1..<3 + 1]) ?s = (Inr r, s')" by blast
  have "char_of (65 :: nat) = CHR ''A''" by code_simp
  then have lib: "lib_Open sample_lib [65] False True = Inr [''A'']"
    "lib_Checkpoint sample_lib (sdb (s_db s')) = (None, sdb (s_db s'))" by (simp_all add: sample_lib_def)
  have st: "s_db ?s = \<lparr>sdb = [''A''], sdb_closed = False\<rparr>"
    "s_dm ?s = \<lparr>dm_dir = rc_dir sample_recover_env, dm_m = []\<rparr>"
    by (simp_all add: new_store_def sample_recover_env_def)
  have log: "rc_log sample_recover_env i = Inr (?ent i) \<and> l_Index (rl_log (?ent i)) = i" for i
    by (simp add: sample_recover_env_def)
  have "RecoverNode noop_codecs sample_lib sample_recover_env ?conf = (Inr (), Some \<lparr>rv_Index = 3,
      rv_Term = (if sm_Index ?m = 3 then sm_Term ?m else l_Term (rl_log (?ent 3))), rv_conf = ?conf,
      rv_data = lib_file sample_lib (sdb (s_db s')), rv_deleted = Some (2, 3)\<rparr>)"
    by (rule recovery_replays_log [OF conf _ _ _ _ _ _ _ _ _ _ _ _ lib(1) log st run lib(2)])
      (simp_all add: sample_recover_env_def)
  then show ?thesis by simp
qed

end
