(* ===== verification/Auth.thy ===== *)
theory Auth
  imports Rq_Prelude
begin

text \<open>
  Credentials and permissions: \<^verbatim>\<open>auth/credential_store.go\<close>. A Go map is an association list;
  the set of permissions of a user is the list of its elements. The JSON file is the sequence of
  objects the decoder delivers, each with the members that are present in it, which is what
  decoding into an existing struct depends on.
\<close>

section \<open>The store\<close>

definition AllUsers :: string where "AllUsers = ''*''"

definition PermAll :: string where "PermAll = ''all''"

definition PermJoin :: string where "PermJoin = ''join''"

definition PermJoinReadOnly :: string where "PermJoinReadOnly = ''join-read-only''"

definition PermRemove :: string where "PermRemove = ''remove''"

definition PermExecute :: string where "PermExecute = ''execute''"

definition PermQuery :: string where "PermQuery = ''query''"

definition PermStatus :: string where "PermStatus = ''status''"

definition PermReady :: string where "PermReady = ''ready''"

definition PermBackup :: string where "PermBackup = ''backup''"

definition PermLoad :: string where "PermLoad = ''load''"

definition PermSnapshot :: string where "PermSnapshot = ''snapshot''"

record Credential =
  Username :: string
  Password :: string
  Perms :: "string list"

record CredentialsStore =
  cs_store :: "(string \<times> string) list"
  cs_perms :: "(string \<times> string list) list"

definition NewCredentialsStore :: CredentialsStore where
  "NewCredentialsStore = \<lparr>cs_store = [], cs_perms = []\<rparr>"

section \<open>Loading\<close>

text \<open>A JSON object of the file: a member that is missing is \<open>None\<close>.\<close>

record cred_json =
  cj_username :: "string option"
  cj_password :: "string option"
  cj_perms :: "string list option"

text \<open>\<^verbatim>\<open>dec.Decode(&cred)\<close>: the members present overwrite the fields of the struct, the others
  keep their values.\<close>

definition decode_into :: "cred_json \<Rightarrow> Credential \<Rightarrow> Credential" where
  "decode_into j c = \<lparr>
     Username = (case cj_username j of None \<Rightarrow> Username c | Some u \<Rightarrow> u),
     Password = (case cj_password j of None \<Rightarrow> Password c | Some p \<Rightarrow> p),
     Perms = (case cj_perms j of None \<Rightarrow> Perms c | Some ps \<Rightarrow> ps)\<rparr>"

definition put_credential :: "Credential \<Rightarrow> CredentialsStore \<Rightarrow> CredentialsStore" where
  "put_credential c s = \<lparr>cs_store = AList.update (Username c) (Password c) (cs_store s),
     cs_perms = AList.update (Username c) (Perms c) (cs_perms s)\<rparr>"

text \<open>The loop: one struct is reused for all objects.\<close>

fun load_loop ::
  "(string, cred_json) result list \<Rightarrow> Credential \<Rightarrow> CredentialsStore \<Rightarrow> string option \<times> CredentialsStore" where
  "load_loop [] cred s = (None, s)"
| "load_loop (Inl e # js) cred s = (Some e, s)"
| "load_loop (Inr j # js) cred s =
   (let cred = decode_into j cred in load_loop js cred (put_credential cred s))"

text \<open>The reader: errors of the opening and closing bracket and the objects between them.\<close>

record cred_file =
  cf_open :: "string option"
  cf_items :: "(string, cred_json) result list"
  cf_close :: "string option"

definition cred_Load :: "cred_file \<Rightarrow> CredentialsStore \<Rightarrow> string option \<times> CredentialsStore" where
  "cred_Load f s = (case cf_open f of
     Some e \<Rightarrow> (Some e, s)
   | None \<Rightarrow> (case load_loop (cf_items f) \<lparr>Username = '''', Password = '''', Perms = []\<rparr> s of
       (Some e, s) \<Rightarrow> (Some e, s)
     | (None, s) \<Rightarrow> (cf_close f, s)))"

definition NewCredentialsStoreFromFile ::
  "(string, cred_file) result \<Rightarrow> CredentialsStore option \<times> string option" where
  "NewCredentialsStoreFromFile f = (case f of
     Inl e \<Rightarrow> (None, Some e)
   | Inr f \<Rightarrow> (case cred_Load f NewCredentialsStore of (err, c) \<Rightarrow> (Some c, err)))"

section \<open>Checks\<close>

definition cred_Check :: "string \<Rightarrow> string \<Rightarrow> CredentialsStore \<Rightarrow> bool" where
  "cred_Check username password c = (case map_of (cs_store c) username of None \<Rightarrow> False | Some pw \<Rightarrow> pw = password)"

definition cred_Password :: "string \<Rightarrow> CredentialsStore \<Rightarrow> string option" where
  "cred_Password username c = map_of (cs_store c) username"

text \<open>\<^verbatim>\<open>BasicAuth()\<close> of a request: user name and password, if it has them.\<close>

definition CheckRequest :: "(string \<times> string) option \<Rightarrow> CredentialsStore \<Rightarrow> bool" where
  "CheckRequest b c = (case b of None \<Rightarrow> False | Some (username, password) \<Rightarrow> cred_Check username password c)"

definition in_perms :: "string \<Rightarrow> string \<Rightarrow> CredentialsStore \<Rightarrow> bool" where
  "in_perms username perm c = (case map_of (cs_perms c) username of None \<Rightarrow> False | Some m \<Rightarrow> perm \<in> set m)"

definition HasPerm :: "string \<Rightarrow> string \<Rightarrow> CredentialsStore \<Rightarrow> bool" where
  "HasPerm username perm c \<longleftrightarrow> in_perms username perm c \<or> in_perms AllUsers perm c"

definition HasAnyPerm :: "string \<Rightarrow> string list \<Rightarrow> CredentialsStore \<Rightarrow> bool" where
  "HasAnyPerm username perms c = list_ex (\<lambda>p. HasPerm username p c) perms"

text \<open>A nil store is \<open>None\<close>.\<close>

definition AA :: "string \<Rightarrow> string \<Rightarrow> string \<Rightarrow> CredentialsStore option \<Rightarrow> bool" where
  "AA username password perm c = (case c of
     None \<Rightarrow> True
   | Some c \<Rightarrow>
      if HasAnyPerm AllUsers [perm, PermAll] c then True
      else if username = '''' then False
      else if \<not> cred_Check username password c then False
      else HasAnyPerm username [perm, PermAll] c)"

definition HasPermRequest :: "(string \<times> string) option \<Rightarrow> string \<Rightarrow> CredentialsStore \<Rightarrow> bool" where
  "HasPermRequest b perm c = (case b of None \<Rightarrow> False | Some (username, _) \<Rightarrow> HasPerm username perm c)"

section \<open>What the file grants\<close>

text \<open>The entry that counts for a name: the last one in the file.\<close>

fun last_entry :: "Credential list \<Rightarrow> string \<Rightarrow> Credential option" where
  "last_entry [] u = None"
| "last_entry (c # cs) u = (case last_entry cs u of
     Some x \<Rightarrow> Some x | None \<Rightarrow> if Username c = u then Some c else None)"

text \<open>Access as the file states it: a permission (or \<^verbatim>\<open>all\<close>) given to everybody, or to a named
  user who shows the password.\<close>

definition grants :: "Credential list \<Rightarrow> string \<Rightarrow> string \<Rightarrow> string \<Rightarrow> bool" where
  "grants es u p perm \<longleftrightarrow>
   (\<exists>e. last_entry es AllUsers = Some e \<and> (perm \<in> set (Perms e) \<or> PermAll \<in> set (Perms e))) \<or>
   (u \<noteq> '''' \<and> (\<exists>e. last_entry es u = Some e \<and> Password e = p \<and>
      (perm \<in> set (Perms e) \<or> PermAll \<in> set (Perms e))))"

definition full_object :: "Credential \<Rightarrow> cred_json" where
  "full_object c = \<lparr>cj_username = Some (Username c), cj_password = Some (Password c), cj_perms = Some (Perms c)\<rparr>"

lemma decode_full [simp]: "decode_into (full_object c) x = c"
  by (simp add: decode_into_def full_object_def)

lemma load_full: "load_loop (map (\<lambda>c. Inr (full_object c)) es) cred s = (None, fold put_credential es s)"
  by (induction es arbitrary: cred s) (simp_all add: Let_def)

lemma fold_put_credential:
  "map_of (cs_store (fold put_credential es s)) u =
     (case last_entry es u of None \<Rightarrow> map_of (cs_store s) u | Some e \<Rightarrow> Some (Password e))"
  "map_of (cs_perms (fold put_credential es s)) u =
     (case last_entry es u of None \<Rightarrow> map_of (cs_perms s) u | Some e \<Rightarrow> Some (Perms e))"
  by (induction es arbitrary: s) (auto simp: put_credential_def update_conv split: option.splits)

lemma AA_iff:
  "AA u p perm (Some c) \<longleftrightarrow> in_perms AllUsers perm c \<or> in_perms AllUsers PermAll c \<or>
   (u \<noteq> '''' \<and> map_of (cs_store c) u = Some p \<and> (in_perms u perm c \<or> in_perms u PermAll c))"
  by (auto simp: AA_def HasAnyPerm_def HasPerm_def cred_Check_def split: option.splits)


text \<open>A file that leaves members out is read differently: the struct keeps the values of the object
  before, so an entry without permissions or password has those of its predecessor.\<close>

lemma omitted_members_carry_over:
  assumes "f = \<lparr>cf_open = None, cf_items = [Inr (full_object \<lparr>Username = ''admin'', Password = ''secret'', Perms = [''all'']\<rparr>),
     Inr \<lparr>cj_username = Some ''guest'', cj_password = Some ''guest'', cj_perms = None\<rparr>,
     Inr \<lparr>cj_username = Some ''other'', cj_password = None, cj_perms = Some [''query'']\<rparr>], cf_close = None\<rparr>"
    and "NewCredentialsStoreFromFile (Inr f) = (Some c, None)"
  shows "AA ''guest'' ''guest'' PermRemove (Some c) \<and> AA ''other'' ''guest'' PermQuery (Some c)"
  using assms
  by (auto simp: NewCredentialsStoreFromFile_def cred_Load_def Let_def put_credential_def NewCredentialsStore_def
      decode_into_def full_object_def AA_iff in_perms_def AllUsers_def PermAll_def PermQuery_def)

section \<open>Guarded handlers\<close>

text \<open>A service answers commands one after the other; the answers are kept with the commands.\<close>

primrec run_session :: "('c \<Rightarrow> 'n \<Rightarrow> 'o \<times> 'n) \<Rightarrow> 'c list \<Rightarrow> 'n \<Rightarrow> ('c \<times> 'o) list \<times> 'n" where
  "run_session handle [] n = ([], n)"
| "run_session handle (c # cs) n = (case handle c n of (r, n1) \<Rightarrow>
     (case run_session handle cs n1 of (rs, n2) \<Rightarrow> ((c, r) # rs, n2)))"

text \<open>
  The contract of a service behind a credential store: a command that is not allowed leaves the
  node as it is and is answered with a refusal. It follows that refused commands do not matter: the
  allowed ones of a session get the answers, and leave the node, as if the others had not been sent.
\<close>

locale guarded_handler =
  fixes handle :: "'c \<Rightarrow> 'n \<Rightarrow> 'o \<times> 'n" and allowed :: "'c \<Rightarrow> bool" and refusal :: "'c \<Rightarrow> 'o \<Rightarrow> bool"
  assumes refused: "\<not> allowed c \<Longrightarrow> snd (handle c n) = n \<and> refusal c (fst (handle c n))"
begin

lemma session_allowed:
  "run_session handle (filter allowed cs) n =
   (filter (\<lambda>(c, _). allowed c) (fst (run_session handle cs n)), snd (run_session handle cs n))"
proof (induction cs arbitrary: n)
  case (Cons c cs)
  then show ?case using refused [of c n] by (cases "allowed c") (auto split: prod.splits)
qed simp

lemma session_refused:
  "(c, r) \<in> set (fst (run_session handle cs n)) \<Longrightarrow> \<not> allowed c \<Longrightarrow> refusal c r"
proof (induction cs arbitrary: n)
  case (Cons d cs)
  show ?case
  proof (cases "(c, r) = (d, fst (handle d n))")
    case True
    then show ?thesis using refused [of d n] Cons.prems(2) by simp
  next
    case False
    then have "(c, r) \<in> set (fst (run_session handle cs (snd (handle d n))))"
      using Cons.prems(1) by (auto split: prod.splits)
    then show ?thesis using Cons.IH Cons.prems(2) by blast
  qed
qed simp

end

end
