(* ===== verification/Cluster_Service.thy ===== *)
theory Cluster_Service
  imports Store_Snapshot Auth
begin

text \<open>
  Node to node: the service that answers commands of other nodes (\<^verbatim>\<open>cluster/service.go\<close>) and
  the client that sends them (\<^verbatim>\<open>cluster/client.go\<close>). The service reaches the store through Go
  interfaces, which are the record \<open>store_ops\<close> of operations on a node state; the store's own
  operations are put into it at the end. Messages between nodes are typed; their framing on the
  connection is byte for byte. The network below the client is a parameter.
\<close>

section \<open>The store as the services see it\<close>

record 'n store_ops =
  op_Execute :: "ExecuteRequest \<Rightarrow> 'n \<Rightarrow> (store_err, ExecuteQueryResponse list \<times> nat) result \<times> 'n"
  op_Query :: "QueryRequest \<Rightarrow> 'n \<Rightarrow> (store_err, QueryRows list \<times> nat) result \<times> 'n"
  op_Request :: "ExecuteQueryRequest \<Rightarrow> 'n \<Rightarrow> (store_err, ExecuteQueryResponse list \<times> nat) result \<times> 'n"
  op_Backup :: "BackupRequest \<Rightarrow> 'n \<Rightarrow> (store_err, bytes) result \<times> 'n"
  op_Load :: "LoadRequest \<Rightarrow> 'n \<Rightarrow> store_err option \<times> 'n"
  op_LeaderAddr :: "'n \<Rightarrow> (store_err, string) result"
  op_CommitIndex :: "'n \<Rightarrow> (store_err, nat) result"
  op_Remove :: "RemoveNodeRequest \<Rightarrow> 'n \<Rightarrow> store_err option \<times> 'n"
  op_Notify :: "NotifyRequest \<Rightarrow> 'n \<Rightarrow> store_err option \<times> 'n"
  op_Join :: "JoinRequest \<Rightarrow> 'n \<Rightarrow> store_err option \<times> 'n"
  op_Ready :: "'n \<Rightarrow> bool"
  op_Committed :: "'n \<Rightarrow> store_err option"
  op_Snapshot :: "nat \<Rightarrow> 'n \<Rightarrow> store_err option \<times> 'n"
  op_ReadFrom :: "bytes \<Rightarrow> 'n \<Rightarrow> store_err option \<times> 'n"
  op_text :: "store_err \<Rightarrow> string"

text \<open>The texts of the store's own errors; those of other packages are \<open>other\<close>.\<close>

definition store_text :: "(store_err \<Rightarrow> string) \<Rightarrow> store_err \<Rightarrow> string" where
  "store_text other e = (case e of
     ErrNotOpen \<Rightarrow> ''store not open''
   | ErrOpen \<Rightarrow> ''store already open''
   | ErrNotReady \<Rightarrow> ''store not ready''
   | ErrNotLeader \<Rightarrow> ''not leader''
   | ErrNotSingleNode \<Rightarrow> ''not single-node''
   | ErrStaleRead \<Rightarrow> ''stale read''
   | ErrOpenTimeout \<Rightarrow> ''timeout waiting for initial logs application''
   | ErrWaitForRemovalTimeout \<Rightarrow> ''timeout waiting for node removal confirmation''
   | ErrWaitForLeaderTimeout \<Rightarrow> ''timeout waiting for leader''
   | ErrWaitForFSMTimeout \<Rightarrow> ''timeout waiting for fsm''
   | ErrInvalidBackupFormat \<Rightarrow> ''invalid backup format''
   | ErrCDCEnabled \<Rightarrow> ''CDC already enabled''
   | ErrInvalidVacuum \<Rightarrow> ''invalid vacuum''
   | ErrLoadInProgress \<Rightarrow> ''load in progress''
   | ErrNothingNewToSnapshot \<Rightarrow> ''nothing new to snapshot''
   | _ \<Rightarrow> other e)"

section \<open>Messages\<close>

datatype cl_type =
    T_UNKNOWN | T_GET_NODE_META | T_EXECUTE | T_QUERY | T_BACKUP | T_LOAD | T_REMOVE_NODE
  | T_NOTIFY | T_JOIN | T_REQUEST | T_LOAD_CHUNK | T_BACKUP_STREAM

datatype cl_request =
    Req_None
  | Req_Execute ExecuteRequest
  | Req_Query QueryRequest
  | Req_Request ExecuteQueryRequest
  | Req_Backup BackupRequest
  | Req_Load LoadRequest
  | Req_Remove RemoveNodeRequest
  | Req_Notify NotifyRequest
  | Req_Join JoinRequest
  | Req_LoadChunk LoadChunkRequest

record cl_command =
  cc_Type :: cl_type
  cc_Request :: cl_request
  cc_Credentials :: "(string \<times> string) option"

text \<open>Replies; a string first is the error field.\<close>

datatype cl_reply =
    Rep_Meta string nat string
  | Rep_Execute string "ExecuteQueryResponse list" nat
  | Rep_Query string "QueryRows list" nat
  | Rep_Request string "ExecuteQueryResponse list" nat
  | Rep_Backup string bytes
  | Rep_Stream bytes
  | Rep_Load string
  | Rep_LoadChunk string
  | Rep_Remove string
  | Rep_Notify string
  | Rep_Join string string

text \<open>What becomes of the connection after a command; a panic in its goroutine ends the process.\<close>

datatype conn_next = Conn_Open | Conn_Closed | Process_Panic

section \<open>The service\<close>

record cl_service =
  sv_credentialStore :: "CredentialsStore option"
  sv_https :: bool
  sv_apiAddr :: string
  sv_version :: string

definition GetNodeAPIURL :: "cl_service \<Rightarrow> string" where
  "GetNodeAPIURL sv = (if sv_https sv then ''https'' else ''http'') @ ''://'' @ sv_apiAddr sv"

text \<open>The generated getters read empty strings from missing credentials.\<close>

definition cred_of :: "cl_command \<Rightarrow> string \<times> string" where
  "cred_of c = (case cc_Credentials c of None \<Rightarrow> ('''', '''') | Some up \<Rightarrow> up)"

definition checkCommandPerm :: "cl_service \<Rightarrow> cl_command \<Rightarrow> string \<Rightarrow> bool" where
  "checkCommandPerm sv c perm = (if sv_credentialStore sv = None then True
     else AA (fst (cred_of c)) (snd (cred_of c)) perm (sv_credentialStore sv))"

definition checkCommandPermAll :: "cl_service \<Rightarrow> cl_command \<Rightarrow> string list \<Rightarrow> bool" where
  "checkCommandPermAll sv c perms = (if sv_credentialStore sv = None then True
     else list_all (\<lambda>perm. AA (fst (cred_of c)) (snd (cred_of c)) perm (sv_credentialStore sv)) perms)"

definition GetExecuteRequest :: "cl_command \<Rightarrow> ExecuteRequest option" where
  "GetExecuteRequest c = (case cc_Request c of Req_Execute r \<Rightarrow> Some r | _ \<Rightarrow> None)"

definition GetQueryRequest :: "cl_command \<Rightarrow> QueryRequest option" where
  "GetQueryRequest c = (case cc_Request c of Req_Query r \<Rightarrow> Some r | _ \<Rightarrow> None)"

definition GetExecuteQueryRequest :: "cl_command \<Rightarrow> ExecuteQueryRequest option" where
  "GetExecuteQueryRequest c = (case cc_Request c of Req_Request r \<Rightarrow> Some r | _ \<Rightarrow> None)"

definition GetBackupRequest :: "cl_command \<Rightarrow> BackupRequest option" where
  "GetBackupRequest c = (case cc_Request c of Req_Backup r \<Rightarrow> Some r | _ \<Rightarrow> None)"

definition GetLoadRequest :: "cl_command \<Rightarrow> LoadRequest option" where
  "GetLoadRequest c = (case cc_Request c of Req_Load r \<Rightarrow> Some r | _ \<Rightarrow> None)"

definition GetRemoveNodeRequest :: "cl_command \<Rightarrow> RemoveNodeRequest option" where
  "GetRemoveNodeRequest c = (case cc_Request c of Req_Remove r \<Rightarrow> Some r | _ \<Rightarrow> None)"

definition GetNotifyRequest :: "cl_command \<Rightarrow> NotifyRequest option" where
  "GetNotifyRequest c = (case cc_Request c of Req_Notify r \<Rightarrow> Some r | _ \<Rightarrow> None)"

definition GetJoinRequest :: "cl_command \<Rightarrow> JoinRequest option" where
  "GetJoinRequest c = (case cc_Request c of Req_Join r \<Rightarrow> Some r | _ \<Rightarrow> None)"

type_synonym 'n cl_out = "(cl_reply list \<times> conn_next) \<times> 'n"

definition reply :: "cl_reply \<Rightarrow> 'n \<Rightarrow> 'n cl_out" where
  "reply r n = (([r], Conn_Open), n)"

definition cmd_execute :: "'n store_ops \<Rightarrow> cl_service \<Rightarrow> cl_command \<Rightarrow> 'n \<Rightarrow> 'n cl_out" where
  "cmd_execute S sv c n = (case GetExecuteRequest c of
     None \<Rightarrow> reply (Rep_Execute ''ExecuteRequest is nil'' [] 0) n
   | Some er \<Rightarrow>
      if \<not> checkCommandPerm sv c PermExecute then reply (Rep_Execute ''unauthorized'' [] 0) n
      else (case op_Execute S er n of
          (Inl e, n) \<Rightarrow> reply (Rep_Execute (op_text S e) [] 0) n
        | (Inr (res, idx), n) \<Rightarrow> reply (Rep_Execute '''' res idx) n))"

definition cmd_query :: "'n store_ops \<Rightarrow> cl_service \<Rightarrow> cl_command \<Rightarrow> 'n \<Rightarrow> 'n cl_out" where
  "cmd_query S sv c n = (case GetQueryRequest c of
     None \<Rightarrow> reply (Rep_Query ''QueryRequest is nil'' [] 0) n
   | Some qr \<Rightarrow>
      if \<not> checkCommandPerm sv c PermQuery then reply (Rep_Query ''unauthorized'' [] 0) n
      else (case op_Query S qr n of
          (Inl e, n) \<Rightarrow> reply (Rep_Query (op_text S e) [] 0) n
        | (Inr (res, idx), n) \<Rightarrow> reply (Rep_Query '''' res idx) n))"

definition cmd_request :: "'n store_ops \<Rightarrow> cl_service \<Rightarrow> cl_command \<Rightarrow> 'n \<Rightarrow> 'n cl_out" where
  "cmd_request S sv c n = (case GetExecuteQueryRequest c of
     None \<Rightarrow> reply (Rep_Request ''RequestRequest is nil'' [] 0) n
   | Some rr \<Rightarrow>
      if \<not> checkCommandPermAll sv c [PermQuery, PermExecute] then reply (Rep_Request ''unauthorized'' [] 0) n
      else (case op_Request S rr n of
          (Inl e, n) \<Rightarrow> reply (Rep_Request (op_text S e) [] 0) n
        | (Inr (res, idx), n) \<Rightarrow> reply (Rep_Request '''' res idx) n))"

definition cmd_backup :: "'n store_ops \<Rightarrow> cl_service \<Rightarrow> cl_command \<Rightarrow> 'n \<Rightarrow> 'n cl_out" where
  "cmd_backup S sv c n = (case GetBackupRequest c of
     None \<Rightarrow> reply (Rep_Backup ''BackupRequest is nil'' []) n
   | Some br \<Rightarrow>
      if \<not> checkCommandPerm sv c PermBackup then reply (Rep_Backup ''unauthorized'' []) n
      else (case op_Backup S br n of
          (Inl e, n) \<Rightarrow> reply (Rep_Backup (op_text S e) []) n
        | (Inr b, n) \<Rightarrow> reply (Rep_Backup '''' b) n))"

text \<open>The stream variant sends its reply first and the backup after it, whatever the reply says; a
  missing request is dereferenced then.\<close>

definition cmd_backup_stream :: "'n store_ops \<Rightarrow> cl_service \<Rightarrow> cl_command \<Rightarrow> 'n \<Rightarrow> 'n cl_out" where
  "cmd_backup_stream S sv c n =
   (let err = (if GetBackupRequest c = None then ''BackupRequest is nil''
               else if \<not> checkCommandPerm sv c PermBackup then ''unauthorized'' else '''') in
    case GetBackupRequest c of
      None \<Rightarrow> (([Rep_Backup err []], Process_Panic), n)
    | Some br \<Rightarrow> (case op_Backup S (br\<lparr>br_Compress := True\<rparr>) n of
        (Inl e, n) \<Rightarrow> (([Rep_Backup err []], Conn_Closed), n)
      | (Inr b, n) \<Rightarrow> (([Rep_Backup err [], Rep_Stream b], Conn_Open), n)))"

definition cmd_load :: "'n store_ops \<Rightarrow> cl_service \<Rightarrow> cl_command \<Rightarrow> 'n \<Rightarrow> 'n cl_out" where
  "cmd_load S sv c n = (case GetLoadRequest c of
     None \<Rightarrow> reply (Rep_Load ''LoadRequest is nil'') n
   | Some lr \<Rightarrow>
      if \<not> checkCommandPerm sv c PermLoad then reply (Rep_Load ''unauthorized'') n
      else (case op_Load S lr n of
          (Some e, n) \<Rightarrow> reply (Rep_Load (''remote node failed to load: '' @ op_text S e)) n
        | (None, n) \<Rightarrow> reply (Rep_Load '''') n))"

definition cmd_remove :: "'n store_ops \<Rightarrow> cl_service \<Rightarrow> cl_command \<Rightarrow> 'n \<Rightarrow> 'n cl_out" where
  "cmd_remove S sv c n = (case GetRemoveNodeRequest c of
     None \<Rightarrow> reply (Rep_Remove ''LoadRequest is nil'') n
   | Some rn \<Rightarrow>
      if \<not> checkCommandPerm sv c PermRemove then reply (Rep_Remove ''unauthorized'') n
      else (case op_Remove S rn n of
          (Some e, n) \<Rightarrow> reply (Rep_Remove (op_text S e)) n
        | (None, n) \<Rightarrow> reply (Rep_Remove '''') n))"

definition cmd_notify :: "'n store_ops \<Rightarrow> cl_service \<Rightarrow> cl_command \<Rightarrow> 'n \<Rightarrow> 'n cl_out" where
  "cmd_notify S sv c n = (case GetNotifyRequest c of
     None \<Rightarrow> reply (Rep_Notify ''NotifyRequest is nil'') n
   | Some nr \<Rightarrow>
      if \<not> checkCommandPerm sv c PermJoin then reply (Rep_Notify ''unauthorized'') n
      else (case op_Notify S nr n of
          (Some e, n) \<Rightarrow> reply (Rep_Notify (op_text S e)) n
        | (None, n) \<Rightarrow> reply (Rep_Notify '''') n))"

definition cmd_join :: "'n store_ops \<Rightarrow> cl_service \<Rightarrow> cl_command \<Rightarrow> 'n \<Rightarrow> 'n cl_out" where
  "cmd_join S sv c n = (case GetJoinRequest c of
     None \<Rightarrow> reply (Rep_Join ''JoinRequest is nil'' '''') n
   | Some jr \<Rightarrow>
      if jr_Voter jr \<and> checkCommandPerm sv c PermJoin \<or> \<not> jr_Voter jr \<and> checkCommandPerm sv c PermJoinReadOnly then
        (case op_Join S jr n of
           (None, n) \<Rightarrow> reply (Rep_Join '''' '''') n
         | (Some e, n) \<Rightarrow>
            if op_text S e = ''not leader'' then
              (case op_LeaderAddr S n of
                 Inl e' \<Rightarrow> reply (Rep_Join (op_text S e') '''') n
               | Inr laddr \<Rightarrow> reply (Rep_Join (op_text S e) laddr) n)
            else reply (Rep_Join (op_text S e) '''') n)
      else reply (Rep_Join ''unauthorized'' '''') n)"

definition handle_command :: "'n store_ops \<Rightarrow> cl_service \<Rightarrow> cl_command \<Rightarrow> 'n \<Rightarrow> 'n cl_out" where
  "handle_command S sv c n = (case cc_Type c of
     T_GET_NODE_META \<Rightarrow> (case op_CommitIndex S n of
         Inl _ \<Rightarrow> (([], Conn_Closed), n)
       | Inr ci \<Rightarrow> reply (Rep_Meta (GetNodeAPIURL sv) ci (sv_version sv)) n)
   | T_EXECUTE \<Rightarrow> cmd_execute S sv c n
   | T_QUERY \<Rightarrow> cmd_query S sv c n
   | T_REQUEST \<Rightarrow> cmd_request S sv c n
   | T_BACKUP \<Rightarrow> cmd_backup S sv c n
   | T_BACKUP_STREAM \<Rightarrow> cmd_backup_stream S sv c n
   | T_LOAD \<Rightarrow> cmd_load S sv c n
   | T_LOAD_CHUNK \<Rightarrow> reply (Rep_LoadChunk ''unsupported'') n
   | T_REMOVE_NODE \<Rightarrow> cmd_remove S sv c n
   | T_NOTIFY \<Rightarrow> cmd_notify S sv c n
   | T_JOIN \<Rightarrow> cmd_join S sv c n
   | T_UNKNOWN \<Rightarrow> (([], Conn_Open), n))"

section \<open>Connections\<close>

definition writeBytesWithLength :: "bytes \<Rightarrow> bytes" where
  "writeBytesWithLength p = le_put64 (of_nat (length p)) @ p"

text \<open>Reading a frame: eight bytes of length, a buffer of that length, the bytes. A length no
  buffer can be made for is a panic.\<close>

datatype frame = Frame_Ended | Frame_Panic | Frame bytes bytes

definition read_frame :: "nat \<Rightarrow> bytes \<Rightarrow> frame" where
  "read_frame mem inp =
   (if length inp < 8 then Frame_Ended
    else
      let sz = unat (le_uint64 inp); p = drop 8 inp in
      if mem < sz then Frame_Panic
      else if length p < sz then Frame_Ended
      else Frame (take sz p) (drop sz p))"

lemma read_frame_shorter: "read_frame mem inp = Frame p rest \<Longrightarrow> length rest < length inp"
  by (auto simp: read_frame_def Let_def split: if_splits)

text \<open>The loop of a connection over the bytes the peer sends. The decoder returns what it could
  decode together with its error; the source then closes the connection but still goes through the
  command, whose reply cannot be sent any more.\<close>

function handleConn ::
  "nat \<Rightarrow> (bytes \<Rightarrow> string option \<times> cl_command) \<Rightarrow> 'n store_ops \<Rightarrow> cl_service \<Rightarrow> bytes \<Rightarrow> 'n \<Rightarrow> 'n cl_out" where
  "handleConn mem dec S sv inp n = (case read_frame mem inp of
     Frame_Ended \<Rightarrow> (([], Conn_Closed), n)
   | Frame_Panic \<Rightarrow> (([], Process_Panic), n)
   | Frame p rest \<Rightarrow> (case dec p of (err, c) \<Rightarrow> (case handle_command S sv c n of ((rs, nx), n) \<Rightarrow>
       if err \<noteq> None then (([], if nx = Process_Panic then Process_Panic else Conn_Closed), n)
       else if nx \<noteq> Conn_Open then ((rs, nx), n)
       else (case handleConn mem dec S sv rest n of ((rs', nx), n) \<Rightarrow> ((rs @ rs', nx), n)))))"
  by pat_completeness auto
termination
  by (relation "measure (\<lambda>(_, _, _, _, inp, _). length inp)") (auto dest: read_frame_shorter)

declare handleConn.simps [simp del]

lemma le_uint64_append: "length bs = 8 \<Longrightarrow> le_uint64 (bs @ cs) = le_uint64 bs"
  by (simp add: le_uint64_def)

lemma read_frame_write:
  assumes "length p \<le> mem" and "length p < 2 ^ 64"
  shows "read_frame mem (writeBytesWithLength p @ rest) = Frame p rest"
  using assms
  by (simp add: read_frame_def writeBytesWithLength_def Let_def length_le_put64 le_uint64_append
      le64_roundtrip unat_of_nat)

text \<open>A well-formed stream of commands is answered command by command, until one ends the
  connection.\<close>

fun answer_all :: "'n store_ops \<Rightarrow> cl_service \<Rightarrow> cl_command list \<Rightarrow> 'n \<Rightarrow> 'n cl_out" where
  "answer_all S sv [] n = (([], Conn_Closed), n)"
| "answer_all S sv (c # cs) n = (case handle_command S sv c n of ((rs, nx), n) \<Rightarrow>
     if nx \<noteq> Conn_Open then ((rs, nx), n)
     else (case answer_all S sv cs n of ((rs', nx), n) \<Rightarrow> ((rs @ rs', nx), n)))"

lemma handleConn_stream:
  assumes "\<And>c. c \<in> set cs \<Longrightarrow> dec (enc c) = (None, c) \<and> length (enc c) \<le> mem \<and> length (enc c) < 2 ^ 64"
  shows "handleConn mem dec S sv (concat (map (\<lambda>c. writeBytesWithLength (enc c)) cs)) n = answer_all S sv cs n"
  using assms
proof (induction cs arbitrary: n)
  case Nil
  then show ?case by (simp add: handleConn.simps read_frame_def)
next
  case (Cons c cs)
  then have "read_frame mem (writeBytesWithLength (enc c) @ concat (map (\<lambda>c. writeBytesWithLength (enc c)) cs)) =
      Frame (enc c) (concat (map (\<lambda>c. writeBytesWithLength (enc c)) cs))"
    by (simp add: read_frame_write)
  with Cons show ?case by (subst handleConn.simps) (simp split: prod.splits)
qed

text \<open>Eight bytes are enough to bring the process down, whoever sends them.\<close>

lemma huge_length_panics:
  "\<lbrakk>8 \<le> length inp; mem < unat (le_uint64 inp)\<rbrakk> \<Longrightarrow> handleConn mem dec S sv inp n = (([], Process_Panic), n)"
  by (subst handleConn.simps) (simp add: read_frame_def Let_def)

section \<open>Who may do what\<close>

text \<open>The permissions a command needs, with a credential store.\<close>

definition needed_perms :: "cl_command \<Rightarrow> string list" where
  "needed_perms c = (case cc_Type c of
     T_EXECUTE \<Rightarrow> [PermExecute]
   | T_QUERY \<Rightarrow> [PermQuery]
   | T_REQUEST \<Rightarrow> [PermQuery, PermExecute]
   | T_BACKUP \<Rightarrow> [PermBackup]
   | T_LOAD \<Rightarrow> [PermLoad]
   | T_REMOVE_NODE \<Rightarrow> [PermRemove]
   | T_NOTIFY \<Rightarrow> [PermJoin]
   | T_JOIN \<Rightarrow> (case GetJoinRequest c of None \<Rightarrow> []
       | Some jr \<Rightarrow> if jr_Voter jr then [PermJoin] else [PermJoinReadOnly])
   | _ \<Rightarrow> [])"

definition cmd_allowed :: "cl_service \<Rightarrow> cl_command \<Rightarrow> bool" where
  "cmd_allowed sv c \<longleftrightarrow> list_all (\<lambda>perm. AA (fst (cred_of c)) (snd (cred_of c)) perm (sv_credentialStore sv)) (needed_perms c)"

definition reply_error :: "cl_reply \<Rightarrow> string" where
  "reply_error r = (case r of
     Rep_Execute e _ _ \<Rightarrow> e | Rep_Query e _ _ \<Rightarrow> e | Rep_Request e _ _ \<Rightarrow> e | Rep_Backup e _ \<Rightarrow> e
   | Rep_Load e \<Rightarrow> e | Rep_LoadChunk e \<Rightarrow> e | Rep_Remove e \<Rightarrow> e | Rep_Notify e \<Rightarrow> e | Rep_Join e _ \<Rightarrow> e | _ \<Rightarrow> '''')"

text \<open>A refusal: one reply with an error, the connection stays.\<close>

definition cmd_refusal :: "cl_command \<Rightarrow> cl_reply list \<times> conn_next \<Rightarrow> bool" where
  "cmd_refusal c ans \<longleftrightarrow> (\<exists>r. ans = ([r], Conn_Open) \<and> reply_error r \<noteq> '''')"

lemma AA_nil [simp]: "AA u p perm None"
  by (simp add: AA_def)

lemma checkCommandPerm_iff:
  "checkCommandPerm sv c perm \<longleftrightarrow> AA (fst (cred_of c)) (snd (cred_of c)) perm (sv_credentialStore sv)"
  by (auto simp: checkCommandPerm_def)

lemma checkCommandPermAll_iff:
  "checkCommandPermAll sv c perms \<longleftrightarrow>
   list_all (\<lambda>perm. AA (fst (cred_of c)) (snd (cred_of c)) perm (sv_credentialStore sv)) perms"
  by (auto simp: checkCommandPermAll_def list_all_iff)

lemmas cmd_defs = cmd_execute_def cmd_query_def cmd_request_def cmd_backup_def cmd_load_def cmd_remove_def
  cmd_notify_def cmd_join_def

lemma handle_command_refused:
  assumes "\<not> cmd_allowed sv c"
  shows "snd (handle_command S sv c n) = n \<and> cmd_refusal c (fst (handle_command S sv c n))"
  using assms
  by (cases "cc_Type c")
    (auto simp: cmd_allowed_def needed_perms_def handle_command_def cmd_defs reply_def cmd_refusal_def reply_error_def
      checkCommandPerm_iff checkCommandPermAll_iff split: option.splits if_splits)

interpretation cluster: guarded_handler "handle_command S sv" "cmd_allowed sv" cmd_refusal for S sv
  by unfold_locales (rule handle_command_refused)

text \<open>The backup stream is the exception: it is sent to anybody who asks, after the reply that says
  they may not have it, and a stream command without its request ends the process.\<close>

lemma unauthorized_backup_streamed:
  assumes "cc_Type c = T_BACKUP_STREAM" and "GetBackupRequest c = Some br" and "\<not> checkCommandPerm sv c PermBackup"
    and "op_Backup S (br\<lparr>br_Compress := True\<rparr>) n = (Inr b, n')"
  shows "handle_command S sv c n = (([Rep_Backup ''unauthorized'' [], Rep_Stream b], Conn_Open), n')"
  using assms by (simp add: handle_command_def cmd_backup_stream_def)

lemma stream_without_request_panics:
  assumes "cc_Type c = T_BACKUP_STREAM" and "GetBackupRequest c = None"
  shows "handle_command S sv c n = (([Rep_Backup ''BackupRequest is nil'' []], Process_Panic), n)"
  using assms by (simp add: handle_command_def cmd_backup_stream_def)


section \<open>The client\<close>

text \<open>The network: one attempt to dial a node, send it a command and read the reply.\<close>

type_synonym 'w transport = "string \<Rightarrow> cl_command \<Rightarrow> 'w \<Rightarrow> (string, cl_reply) result \<times> 'w"

definition defaultMaxRetries :: int where "defaultMaxRetries = 0"

text \<open>Attempts until one succeeds or \<open>maxRetries\<close> is passed.\<close>

function client_retry ::
  "'w transport \<Rightarrow> cl_command \<Rightarrow> string \<Rightarrow> int \<Rightarrow> nat \<Rightarrow> 'w \<Rightarrow> ((string, cl_reply) result \<times> nat) \<times> 'w" where
  "client_retry T cmd addr maxRetries nRetries w = (case T addr cmd w of
     (Inr p, w) \<Rightarrow> ((Inr p, nRetries), w)
   | (Inl e, w) \<Rightarrow>
      let nRetries = nRetries + 1 in
      if maxRetries < int nRetries then ((Inl e, nRetries), w)
      else client_retry T cmd addr maxRetries nRetries w)"
  by pat_completeness auto
termination
  by (relation "measure (\<lambda>(_, _, _, m, k, _). nat (m + 1 - int k))") auto

declare client_retry.simps [simp del]

definition mk_command :: "cl_type \<Rightarrow> cl_request \<Rightarrow> (string \<times> string) option \<Rightarrow> cl_command" where
  "mk_command t r creds = \<lparr>cc_Type = t, cc_Request = r, cc_Credentials = creds\<rparr>"

text \<open>Decoding a reply of another kind fails.\<close>

definition cl_Execute ::
  "'w transport \<Rightarrow> ExecuteRequest \<Rightarrow> string \<Rightarrow> (string \<times> string) option \<Rightarrow> int \<Rightarrow> 'w \<Rightarrow>
   (string, ExecuteQueryResponse list \<times> nat) result \<times> 'w" where
  "cl_Execute T er addr creds retries w =
   (case client_retry T (mk_command T_EXECUTE (Req_Execute er) creds) addr retries 0 w of
      ((Inl e, _), w) \<Rightarrow> (Inl e, w)
    | ((Inr (Rep_Execute e rs idx), _), w) \<Rightarrow> (if e \<noteq> '''' then Inl e else Inr (rs, idx), w)
    | ((Inr _, _), w) \<Rightarrow> (Inl ''proto: cannot parse reply'', w))"

definition cl_Query ::
  "'w transport \<Rightarrow> QueryRequest \<Rightarrow> string \<Rightarrow> (string \<times> string) option \<Rightarrow> 'w \<Rightarrow>
   (string, QueryRows list \<times> nat) result \<times> 'w" where
  "cl_Query T qr addr creds w =
   (case client_retry T (mk_command T_QUERY (Req_Query qr) creds) addr defaultMaxRetries 0 w of
      ((Inl e, _), w) \<Rightarrow> (Inl e, w)
    | ((Inr (Rep_Query e rs idx), _), w) \<Rightarrow> (if e \<noteq> '''' then Inl e else Inr (rs, idx), w)
    | ((Inr _, _), w) \<Rightarrow> (Inl ''proto: cannot parse reply'', w))"

definition cl_Request ::
  "'w transport \<Rightarrow> ExecuteQueryRequest \<Rightarrow> string \<Rightarrow> (string \<times> string) option \<Rightarrow> int \<Rightarrow> 'w \<Rightarrow>
   (string, ExecuteQueryResponse list \<times> nat) result \<times> 'w" where
  "cl_Request T eqr addr creds retries w =
   (case client_retry T (mk_command T_REQUEST (Req_Request eqr) creds) addr retries 0 w of
      ((Inl e, _), w) \<Rightarrow> (Inl e, w)
    | ((Inr (Rep_Request e rs idx), _), w) \<Rightarrow> (if e \<noteq> '''' then Inl e else Inr (rs, idx), w)
    | ((Inr _, _), w) \<Rightarrow> (Inl ''proto: cannot parse reply'', w))"

definition cl_Load ::
  "'w transport \<Rightarrow> LoadRequest \<Rightarrow> string \<Rightarrow> (string \<times> string) option \<Rightarrow> int \<Rightarrow> 'w \<Rightarrow> string option \<times> 'w" where
  "cl_Load T lr addr creds retries w =
   (case client_retry T (mk_command T_LOAD (Req_Load lr) creds) addr retries 0 w of
      ((Inl e, _), w) \<Rightarrow> (Some e, w)
    | ((Inr (Rep_Load e), _), w) \<Rightarrow> (if e \<noteq> '''' then Some e else None, w)
    | ((Inr _, _), w) \<Rightarrow> (Some ''proto: cannot parse reply'', w))"

text \<open>Cluster management is tried once.\<close>

definition cl_RemoveNode ::
  "'w transport \<Rightarrow> RemoveNodeRequest \<Rightarrow> string \<Rightarrow> (string \<times> string) option \<Rightarrow> 'w \<Rightarrow> string option \<times> 'w" where
  "cl_RemoveNode T rn addr creds w = (case T addr (mk_command T_REMOVE_NODE (Req_Remove rn) creds) w of
      (Inl e, w) \<Rightarrow> (Some e, w)
    | (Inr (Rep_Remove e), w) \<Rightarrow> (if e \<noteq> '''' then Some e else None, w)
    | (Inr _, w) \<Rightarrow> (Some ''proto: cannot parse reply'', w))"

definition cl_Notify ::
  "'w transport \<Rightarrow> NotifyRequest \<Rightarrow> string \<Rightarrow> (string \<times> string) option \<Rightarrow> 'w \<Rightarrow> string option \<times> 'w" where
  "cl_Notify T nr addr creds w = (case T addr (mk_command T_NOTIFY (Req_Notify nr) creds) w of
      (Inl e, w) \<Rightarrow> (Some e, w)
    | (Inr (Rep_Notify e), w) \<Rightarrow> (if e \<noteq> '''' then Some e else None, w)
    | (Inr _, w) \<Rightarrow> (Some ''proto: cannot parse reply'', w))"

text \<open>A join follows the nodes' word about the leader, as long as they name one; \<open>None\<close> is a join
  that never returns.\<close>

partial_function (option) cl_Join ::
  "'w transport \<Rightarrow> JoinRequest \<Rightarrow> string \<Rightarrow> (string \<times> string) option \<Rightarrow> 'w \<Rightarrow> (string option \<times> 'w) option" where
  "cl_Join T jr addr creds w = (case T addr (mk_command T_JOIN (Req_Join jr) creds) w of
      (Inl e, w) \<Rightarrow> Some (Some e, w)
    | (Inr r, w) \<Rightarrow> (case r of
        Rep_Join e leader \<Rightarrow>
          if e = '''' then Some (None, w)
          else if e = ''not leader'' then
            (if leader = '''' then Some (Some ''no leader'', w) else cl_Join T jr leader creds w)
          else Some (Some e, w)
      | _ \<Rightarrow> Some (Some ''proto: cannot parse reply'', w)))"

record NodeMeta =
  nm_Url :: string
  nm_CommitIndex :: nat
  nm_Version :: string

text \<open>The client's own node, answered without the network.\<close>

record cl_local =
  localNodeAddr :: string
  localServ :: "cl_service option"
  localVersion :: string

definition GetNodeMeta ::
  "'w transport \<Rightarrow> cl_local \<Rightarrow> string \<Rightarrow> int \<Rightarrow> 'w \<Rightarrow> (string, NodeMeta) result \<times> 'w" where
  "GetNodeMeta T loc addr retries w = (case (localNodeAddr loc = addr, localServ loc) of
     (True, Some sv) \<Rightarrow> (Inr \<lparr>nm_Url = GetNodeAPIURL sv, nm_CommitIndex = 0, nm_Version = localVersion loc\<rparr>, w)
   | _ \<Rightarrow> (case client_retry T (mk_command T_GET_NODE_META Req_None None) addr retries 0 w of
       ((Inl e, _), w) \<Rightarrow> (Inl e, w)
     | ((Inr (Rep_Meta url ci v), _), w) \<Rightarrow>
         (Inr \<lparr>nm_Url = url, nm_CommitIndex = ci, nm_Version = (if v = '''' then ''unknown'' else v)\<rparr>, w)
     | ((Inr _, _), w) \<Rightarrow> (Inl ''protobuf unmarshal: cannot parse reply'', w)))"

definition GetCommitIndex ::
  "'w transport \<Rightarrow> string \<Rightarrow> int \<Rightarrow> 'w \<Rightarrow> (string, nat) result \<times> 'w" where
  "GetCommitIndex T addr retries w =
   (case client_retry T (mk_command T_GET_NODE_META Req_None None) addr retries 0 w of
      ((Inl e, _), w) \<Rightarrow> (Inl e, w)
    | ((Inr (Rep_Meta _ ci _), _), w) \<Rightarrow> (Inr ci, w)
    | ((Inr _, _), w) \<Rightarrow> (Inl ''protobuf unmarshal: cannot parse reply'', w))"

section \<open>Commands on another node\<close>

text \<open>
  What a network does with a command: it gets lost on the way, or the service of the node at that
  address handles it once, and then the reply comes back or gets lost.
\<close>

definition delivers ::
  "'w transport \<Rightarrow> 'n store_ops \<Rightarrow> (string \<Rightarrow> cl_service) \<Rightarrow> (string \<Rightarrow> 'w \<Rightarrow> 'n) \<Rightarrow> bool" where
  "delivers T S sv node_at \<longleftrightarrow> (\<forall>addr cmd w r w'. T addr cmd w = (r, w') \<longrightarrow>
     (\<exists>e. r = Inl e) \<and> node_at addr w' = node_at addr w \<or>
     node_at addr w' = snd (handle_command S (sv addr) cmd (node_at addr w)) \<and>
       (\<forall>p. r = Inr p \<longrightarrow> fst (fst (handle_command S (sv addr) cmd (node_at addr w))) = [p]))"

lemma delivers_err:
  assumes "delivers T S sv node_at" and "T addr cmd w = (Inl e, w')"
  shows "node_at addr w' \<in> {node_at addr w, snd (handle_command S (sv addr) cmd (node_at addr w))}"
  using assms unfolding delivers_def by blast

lemma delivers_ok:
  assumes "delivers T S sv node_at" and "T addr cmd w = (Inr p, w')"
  shows "node_at addr w' = snd (handle_command S (sv addr) cmd (node_at addr w))"
    and "fst (fst (handle_command S (sv addr) cmd (node_at addr w))) = [p]"
  using assms unfolding delivers_def by blast+

text \<open>With retries a command may be carried out more than once: as often as it was tried.\<close>

lemma client_retry_runs:
  assumes "delivers T S sv node_at"
    and "client_retry T cmd addr m k w = ((r, k'), w')"
  defines "f \<equiv> (\<lambda>n. snd (handle_command S (sv addr) cmd n))"
  shows "\<exists>j. case r of
      Inr p \<Rightarrow> k + j \<le> k' \<and> int k' \<le> max (int k) m \<and> node_at addr w' = f ((f ^^ j) (node_at addr w)) \<and>
        fst (fst (handle_command S (sv addr) cmd ((f ^^ j) (node_at addr w)))) = [p]
    | Inl e \<Rightarrow> k + j \<le> k' \<and> int k' \<le> max (int k) m + 1 \<and> node_at addr w' = (f ^^ j) (node_at addr w)"
  using assms(2)
proof (induction "nat (m + 1 - int k)" arbitrary: k w rule: less_induct)
  case less
  obtain x w1 where t: "T addr cmd w = (x, w1)" by (metis surj_pair)
  show ?case
  proof (cases x)
    case (Inr p)
    then have "r = Inr p" "k' = k" "w' = w1" using less.prems t by (auto simp: client_retry.simps [of T])
    then show ?thesis using delivers_ok [OF assms(1)] t Inr by (intro exI [of _ 0]) (auto simp: f_def)
  next
    case (Inl e)
    then have "node_at addr w1 = (f ^^ 0) (node_at addr w) \<or> node_at addr w1 = (f ^^ 1) (node_at addr w)"
      using delivers_err [OF assms(1)] t by (simp add: f_def)
    then obtain i :: nat where i: "i \<le> 1" "node_at addr w1 = (f ^^ i) (node_at addr w)"
      by (metis le_refl zero_le)
    show ?thesis
    proof (cases "m < int (k + 1)")
      case True
      then have "r = Inl e" "k' = k + 1" "w' = w1"
        using less.prems t Inl by (auto simp: client_retry.simps [of T] Let_def)
      then show ?thesis using i by (intro exI [of _ i]) auto
    next
      case False
      then have c: "client_retry T cmd addr m (k + 1) w1 = ((r, k'), w')"
        using less.prems t Inl by (simp add: client_retry.simps [of T cmd addr m k w] Let_def)
      have "nat (m + 1 - int (k + 1)) < nat (m + 1 - int k)" using False by linarith
      from less.hyps [OF this c] obtain j where j: "case r of
          Inr p \<Rightarrow> (k + 1) + j \<le> k' \<and> int k' \<le> max (int (k + 1)) m \<and> node_at addr w' = f ((f ^^ j) (node_at addr w1)) \<and>
            fst (fst (handle_command S (sv addr) cmd ((f ^^ j) (node_at addr w1)))) = [p]
        | Inl e \<Rightarrow> (k + 1) + j \<le> k' \<and> int k' \<le> max (int (k + 1)) m + 1 \<and> node_at addr w' = (f ^^ j) (node_at addr w1)"
        by blast
      have p: "(f ^^ j) (node_at addr w1) = (f ^^ (j + i)) (node_at addr w)"
        using i(2) by (simp add: funpow_add)
      show ?thesis using j [unfolded p] i(1) False by (intro exI [of _ "j + i"]) (cases r, auto)
    qed
  qed
qed

lemma execute_step:
  "snd (handle_command S sv (mk_command T_EXECUTE (Req_Execute er) creds) n) =
   (if cmd_allowed sv (mk_command T_EXECUTE (Req_Execute er) creds) then snd (op_Execute S er n) else n)"
  by (auto simp: handle_command_def mk_command_def cmd_execute_def GetExecuteRequest_def reply_def
      checkCommandPerm_iff cmd_allowed_def needed_perms_def split: prod.splits sum.splits)

lemma execute_reply:
  assumes "fst (fst (handle_command S sv (mk_command T_EXECUTE (Req_Execute er) creds) n)) = [Rep_Execute '''' rs idx]"
    and "\<And>e. op_text S e \<noteq> ''''"
  shows "cmd_allowed sv (mk_command T_EXECUTE (Req_Execute er) creds) \<and> fst (op_Execute S er n) = Inr (rs, idx)"
  using assms
  by (auto simp: handle_command_def mk_command_def cmd_execute_def GetExecuteRequest_def reply_def
      checkCommandPerm_iff cmd_allowed_def needed_perms_def split: prod.splits sum.splits if_splits)

lemma execute_steps:
  assumes "cmd = mk_command T_EXECUTE (Req_Execute er) creds"
  shows "((\<lambda>n. snd (handle_command S sv cmd n)) ^^ j) n =
    ((\<lambda>n. snd (op_Execute S er n)) ^^ (if cmd_allowed sv cmd then j else 0)) n"
proof (cases "cmd_allowed sv cmd")
  case False
  then show ?thesis by (induction j) (simp_all add: assms execute_step)
qed (simp add: assms execute_step)

lemma cl_Execute_retry:
  assumes "cl_Execute T er addr creds retries w = (r, w')"
  shows "\<exists>x k. client_retry T (mk_command T_EXECUTE (Req_Execute er) creds) addr retries 0 w = ((x, k), w') \<and>
    (\<forall>rs idx. r = Inr (rs, idx) \<longrightarrow> x = Inr (Rep_Execute '''' rs idx))"
  using assms by (auto simp: cl_Execute_def split: prod.splits sum.splits cl_reply.splits if_splits)

text \<open>Executing on another node. When the client's \<^verbatim>\<open>Execute\<close> returns results, the service of that
  node found the credentials sufficient, and its store returned exactly these results and this
  index, after at most \<open>retries\<close> earlier executions of the same request whose replies were lost.
  When it returns an error, the request was executed there at most \<open>retries + 1\<close> times, possibly
  not at all. Nothing else happened to the node.\<close>

lemma cl_Execute_ok:
  assumes "delivers T S sv node_at" and "\<forall>e. op_text S e \<noteq> ''''"
    and "cl_Execute T er addr creds retries w = (Inr (rs, idx), w')"
  shows "\<exists>j n0. n0 = ((\<lambda>n. snd (op_Execute S er n)) ^^ j) (node_at addr w) \<and> int j \<le> max 0 retries \<and>
    op_Execute S er n0 = (Inr (rs, idx), node_at addr w') \<and>
    checkCommandPerm (sv addr) (mk_command T_EXECUTE (Req_Execute er) creds) PermExecute"
proof -
  define cmd where "cmd = mk_command T_EXECUTE (Req_Execute er) creds"
  let ?f = "\<lambda>n. snd (handle_command S (sv addr) cmd n)"
  obtain k where c: "client_retry T cmd addr retries 0 w = ((Inr (Rep_Execute '''' rs idx), k), w')"
    using cl_Execute_retry [OF assms(3)] by (auto simp: cmd_def)
  obtain j where j: "0 + j \<le> k" "int k \<le> max (int 0) retries" "node_at addr w' = ?f ((?f ^^ j) (node_at addr w))"
    "fst (fst (handle_command S (sv addr) cmd ((?f ^^ j) (node_at addr w)))) = [Rep_Execute '''' rs idx]"
    using client_retry_runs [OF assms(1) c] by auto
  let ?n0 = "(?f ^^ j) (node_at addr w)"
  have e: "cmd_allowed (sv addr) cmd" "fst (op_Execute S er ?n0) = Inr (rs, idx)"
    using execute_reply [of S "sv addr" er creds ?n0 rs idx] j(4) assms(2) by (simp_all add: cmd_def)
  have "node_at addr w' = snd (op_Execute S er ?n0)" using j(3) e(1) by (simp add: cmd_def execute_step)
  then have "op_Execute S er ?n0 = (Inr (rs, idx), node_at addr w')" using e(2) by (simp add: prod_eq_iff)
  moreover have "checkCommandPerm (sv addr) cmd PermExecute"
    using e(1) by (simp add: cmd_allowed_def needed_perms_def checkCommandPerm_iff cmd_def mk_command_def)
  moreover have "?n0 = ((\<lambda>n. snd (op_Execute S er n)) ^^ j) (node_at addr w)"
    using execute_steps [OF cmd_def, where sv = "sv addr" and j = j] e(1) by simp
  ultimately show ?thesis using j(1,2) by (intro exI [of _ j] exI [of _ ?n0]) (simp add: cmd_def)
qed

lemma cl_Execute_err:
  assumes "delivers T S sv node_at" and "cl_Execute T er addr creds retries w = (Inl e, w')"
  shows "\<exists>j. int j \<le> max 0 retries + 1 \<and>
    node_at addr w' = ((\<lambda>n. snd (op_Execute S er n)) ^^ j) (node_at addr w)"
proof -
  define cmd where "cmd = mk_command T_EXECUTE (Req_Execute er) creds"
  let ?f = "\<lambda>n. snd (handle_command S (sv addr) cmd n)"
  obtain x k where c: "client_retry T cmd addr retries 0 w = ((x, k), w')"
    using cl_Execute_retry [OF assms(2)] by (auto simp: cmd_def)
  have "\<exists>i. int i \<le> max 0 retries + 1 \<and> node_at addr w' = (?f ^^ i) (node_at addr w)"
  proof (cases x)
    case (Inr p)
    then obtain j where "0 + j \<le> k" "int k \<le> max (int 0) retries" "node_at addr w' = (?f ^^ Suc j) (node_at addr w)"
      using client_retry_runs [OF assms(1) c] by auto
    then show ?thesis by (intro exI [of _ "Suc j"]) auto
  next
    case (Inl e)
    then obtain j where "0 + j \<le> k" "int k \<le> max (int 0) retries + 1" "node_at addr w' = (?f ^^ j) (node_at addr w)"
      using client_retry_runs [OF assms(1) c] by auto
    then show ?thesis by (intro exI [of _ j]) auto
  qed
  then obtain i where "int i \<le> max 0 retries + 1" "node_at addr w' = (?f ^^ i) (node_at addr w)" by blast
  then show ?thesis
    using execute_steps [OF cmd_def, where S = S and sv = "sv addr" and j = i and n = "node_at addr w"]
    by (intro exI [of _ "if cmd_allowed (sv addr) cmd then i else 0"]) (auto split: if_splits)
qed

text \<open>A store that counts the changes made to it, and a network that loses the first replies.\<close>

definition sample_ops :: "nat store_ops" where
  "sample_ops = \<lparr>
     op_Execute = (\<lambda>er n. (Inr ([], n + 1), n + 1)),
     op_Query = (\<lambda>qr n. (Inr ([], n), n)),
     op_Request = (\<lambda>rr n. (Inr ([], n + 1), n + 1)),
     op_Backup = (\<lambda>br n. (Inr [of_nat n], n)),
     op_Load = (\<lambda>lr n. (None, n + 1)),
     op_LeaderAddr = (\<lambda>n. Inr ''leader''),
     op_CommitIndex = (\<lambda>n. Inr n),
     op_Remove = (\<lambda>rn n. (None, n + 1)),
     op_Notify = (\<lambda>nr n. (None, n + 1)),
     op_Join = (\<lambda>jr n. (None, n + 1)),
     op_Ready = (\<lambda>n. True),
     op_Committed = (\<lambda>n. None),
     op_Snapshot = (\<lambda>k n. (None, n + 1)),
     op_ReadFrom = (\<lambda>b n. (None, n + 1)),
     op_text = store_text (\<lambda>_. ''other'')\<rparr>"

definition sample_service :: cl_service where
  "sample_service = \<lparr>sv_credentialStore = Some (fold put_credential
       [\<lparr>Username = ''bob'', Password = ''pw'', Perms = [''execute'', ''query'']\<rparr>] NewCredentialsStore),
     sv_https = False, sv_apiAddr = ''localhost:4001'', sv_version = ''8''\<rparr>"

definition sample_transport :: "nat store_ops \<Rightarrow> (nat \<times> nat) transport" where
  "sample_transport S addr cmd w = (case w of (n, lost) \<Rightarrow>
     (case handle_command S sample_service cmd n of ((rs, _), n') \<Rightarrow>
        if lost = 0 then (case rs of [p] \<Rightarrow> Inr p | _ \<Rightarrow> Inl ''EOF'', (n', lost))
        else (Inl ''i/o timeout'', (n', lost - 1))))"

lemma sample_delivers: "delivers (sample_transport S) S (\<lambda>_. sample_service) (\<lambda>_ w. fst w)"
  by (auto simp: delivers_def sample_transport_def split: prod.splits list.splits if_splits)

lemma sample_text: "op_text sample_ops e \<noteq> ''''"
  by (simp add: sample_ops_def store_text_def split: store_err.splits)

definition sample_er :: ExecuteRequest where
  "sample_er = \<lparr>er_Request = None, er_Timings = False\<rparr>"

definition sample_load :: cl_command where
  "sample_load = mk_command T_LOAD (Req_Load \<lparr>lr_Data = []\<rparr>) (Some (''bob'', ''pw''))"

definition sample_write :: cl_command where
  "sample_write = mk_command T_EXECUTE (Req_Execute sample_er) (Some (''bob'', ''pw''))"


section \<open>The store behind the services\<close>

text \<open>An error that comes with results counts as an error.\<close>

definition from_answer :: "'a answer \<Rightarrow> (store_err, 'a \<times> nat) result" where
  "from_answer a = (case a of
     Inl e \<Rightarrow> Inl e
   | Inr (r, idx, Some e) \<Rightarrow> Inl (StoreErr e)
   | Inr (r, idx, None) \<Rightarrow> Inr (r, idx))"

definition err_only :: "(store_err, 'a) result \<Rightarrow> store_err option" where
  "err_only r = (case r of Inl e \<Rightarrow> Some e | Inr _ \<Rightarrow> None)"

text \<open>What the store's operations need besides the node: libraries and the environment's part.\<close>

record ('db, 'r) node_env =
  ne_codecs :: codecs
  ne_lib :: "'db db_lib"
  ne_raft :: "'r raft_ops"
  ne_snapshot :: "('db, 'r) raft_snapshot"
  ne_query :: query_env
  ne_backup :: backup_env
  ne_boot :: "bytes \<Rightarrow> boot_env"
  ne_lookup :: "string \<Rightarrow> string option"
  ne_order :: "(string \<times> Server) list \<Rightarrow> (string \<times> Server) list"
  ne_committed :: "('db, 'r) node \<Rightarrow> store_err option"
  ne_snap_errs :: "string option \<times> string option"
  ne_text :: "store_err \<Rightarrow> string"

definition node_ops :: "('db, 'r) node_env \<Rightarrow> (snap_conf \<times> ('db, 'r) node) store_ops" where
  "node_ops E =
   (let C = ne_codecs E; L = ne_lib E; R = ne_raft E in
    \<lparr>op_Execute = (\<lambda>er (c, n). case st_Execute C L R er n of (a, n) \<Rightarrow> (from_answer a, (c, n))),
     op_Query = (\<lambda>qr (c, n). case st_Query C L R (ne_query E) qr n of (a, n) \<Rightarrow> (from_answer a, (c, n))),
     op_Request = (\<lambda>rr (c, n). case st_Request C L R (ne_query E) rr n of (a, n) \<Rightarrow> (from_answer a, (c, n))),
     op_Backup = (\<lambda>br (c, n). case st_Backup (gzip C) L R (ne_snapshot E) (ne_backup E) br c n of
        (r, c, n) \<Rightarrow> (r, (c, n))),
     op_Load = (\<lambda>lr (c, n). case st_Load C L R lr n of (r, n) \<Rightarrow> (err_only r, (c, n))),
     op_LeaderAddr = (\<lambda>(c, n). LeaderAddr R n),
     op_CommitIndex = (\<lambda>(c, n). st_CommitIndex R n),
     op_Remove = (\<lambda>rn (c, n). case st_Remove R rn n of (r, n) \<Rightarrow> (err_only r, (c, n))),
     op_Notify = (\<lambda>nr (c, n). case Notify (ne_lookup E) (ne_order E) R nr n of (r, n) \<Rightarrow> (err_only r, (c, n))),
     op_Join = (\<lambda>jr (c, n). case st_Join (ne_lookup E) R jr n of (r, n) \<Rightarrow> (err_only r, (c, n))),
     op_Ready = (\<lambda>(c, n). st_Ready R n),
     op_Committed = (\<lambda>(c, n). ne_committed E n),
     op_Snapshot = (\<lambda>k (c, n). case st_Snapshot (ne_snapshot E) (fst (ne_snap_errs E)) (snd (ne_snap_errs E)) k c n of
        (r, c, n) \<Rightarrow> (err_only r, (c, n))),
     op_ReadFrom = (\<lambda>b (c, n). case st_ReadFrom C L R (ne_snapshot E) (ne_boot E b) c n of
        ((_, r), c, n) \<Rightarrow> (err_only r, (c, n))),
     op_text = store_text (ne_text E)\<rparr>)"

lemma node_ops_Execute:
  "op_Execute (node_ops E) er (c, n) = (Inr (rs, idx), (c', n')) \<Longrightarrow>
   st_Execute (ne_codecs E) (ne_lib E) (ne_raft E) er n = (Inr (rs, idx, None), n')"
  by (auto simp: node_ops_def Let_def from_answer_def split: prod.splits sum.splits option.splits)

end
