(* ===== verification/Queue.thy ===== *)
theory Queue
  imports Command_Types Rsync
begin

text \<open>
  \<^verbatim>\<open>queue/queue.go\<close>: the batching queue behind queued writes. Writers put objects into a
  bounded channel under a lock that also hands out sequence numbers; one goroutine collects them
  into batches, which it sends when a batch is full, when the timer started by the first object
  fires, or on a flush.

  The goroutine's state is part of the queue: what it has collected, whether its timer is armed,
  and whether it is blocked in the send of a batch. Each \<^verbatim>\<open>select\<close> case is a function
  that is enabled when the case can be taken; the step relation interleaves them with the
  writers, the receiver of \<^verbatim>\<open>C\<close> and \<^verbatim>\<open>Close\<close>. Objects are of any type.
\<close>

section \<open>Data\<close>

type_synonym FlushChannel = chan

record 'a q_request =
  req_SequenceNumber :: int
  req_Objects :: "'a list"
  req_flushChans :: "FlushChannel list"

record 'a queued_objects =
  qo_SequenceNumber :: int
  qo_Objects :: "'a list"
  qo_flushChan :: "FlushChannel option"

text \<open>\<^verbatim>\<open>Request.Close\<close> returns the channels it closes.\<close>

definition req_Close :: "'a q_request \<Rightarrow> FlushChannel list" where
  "req_Close r = req_flushChans r"

fun merge_loop :: "'a queued_objects list \<Rightarrow> 'a q_request \<Rightarrow> 'a q_request" where
  "merge_loop [] o' = o'"
| "merge_loop (q # qs) o' = merge_loop qs
     \<lparr>req_SequenceNumber = (if req_SequenceNumber o' < qo_SequenceNumber q
        then qo_SequenceNumber q else req_SequenceNumber o'),
      req_Objects = req_Objects o' @ qo_Objects q,
      req_flushChans = (case qo_flushChan q of None \<Rightarrow> req_flushChans o'
        | Some c \<Rightarrow> req_flushChans o' @ [c])\<rparr>"

definition mergeQueued :: "'a queued_objects list \<Rightarrow> 'a q_request option" where
  "mergeQueued qs = (case qs of
     [] \<Rightarrow> None
   | q # _ \<Rightarrow> Some (merge_loop qs
       \<lparr>req_SequenceNumber = qo_SequenceNumber q, req_Objects = [], req_flushChans = []\<rparr>))"

text \<open>Where the goroutine is: at the select, blocked sending a batch, or returned.\<close>

datatype run_pc = AtSelect | Sending | Returned

record 'a queue =
  maxSize :: nat
  batchSize :: int
  batchCh :: "'a queued_objects list"
  sendCh :: "'a q_request list"
  q_done :: bool
  q_closed :: bool
  seqNum :: int
  numTimeouts :: int
  queuedStmts :: "'a queued_objects list"
  timerArmed :: bool
  pc :: run_pc
  q_stats :: counters

definition New :: "nat \<Rightarrow> int \<Rightarrow> time \<Rightarrow> 'a queue" where
  "New mx batch now = \<lparr>maxSize = mx, batchSize = batch, batchCh = [], sendCh = [], q_done = False,
     q_closed = False, seqNum = now, numTimeouts = 0, queuedStmts = [], timerArmed = False,
     pc = AtSelect, q_stats = (\<lambda>_. 0)\<rparr>"

section \<open>Operations\<close>

text \<open>
  \<^verbatim>\<open>Write\<close>: the check of \<^verbatim>\<open>done\<close>, then, under the lock, the new sequence number
  and the send, which waits for room in the channel (\<open>None\<close> while there is none).
\<close>

definition Write_check :: "'a queue \<Rightarrow> (string, unit) result" where
  "Write_check q = (if q_done q then Inl ''queue is closed'' else Inr ())"

definition Write_send :: "'a list \<Rightarrow> FlushChannel option \<Rightarrow> 'a queue \<Rightarrow> (int \<times> 'a queue) option" where
  "Write_send objects c q =
   (if length (batchCh q) < maxSize q then
      let n = seqNum q + 1 in
      Some (n, q\<lparr>seqNum := n,
        batchCh := batchCh q @ [\<lparr>qo_SequenceNumber = n, qo_Objects = objects, qo_flushChan = c\<rparr>],
        q_stats := stats_add ''objects_rx'' (int (length objects)) (q_stats q)\<rparr>)
    else None)"

definition Depth :: "'a queue \<Rightarrow> nat" where
  "Depth q = length (batchCh q)"

text \<open>\<^verbatim>\<open>Close\<close> closes \<^verbatim>\<open>done\<close>, if it is open, and waits for \<^verbatim>\<open>closed\<close>.\<close>

definition q_Close :: "'a queue \<Rightarrow> 'a queue" where
  "q_Close q = (if q_done q then q else q\<lparr>q_done := True\<rparr>)"

text \<open>
  \<^verbatim>\<open>writeFn\<close>: with nothing collected it does nothing; otherwise the goroutine goes to the
  send, which takes place when \<^verbatim>\<open>sendCh\<close>, of capacity one, has room.
\<close>

definition writeFn :: "'a queue \<Rightarrow> 'a queue" where
  "writeFn q = (case mergeQueued (queuedStmts q) of None \<Rightarrow> q | Some _ \<Rightarrow> q\<lparr>pc := Sending\<rparr>)"

definition run_send :: "'a queue \<Rightarrow> 'a queue option" where
  "run_send q = (case mergeQueued (queuedStmts q) of
     Some req \<Rightarrow>
       if pc q = Sending \<and> length (sendCh q) < 1 then
         Some (q\<lparr>sendCh := sendCh q @ [req], queuedStmts := [], pc := AtSelect,
           q_stats := stats_add ''objects_tx'' (int (length (req_Objects req))) (q_stats q)\<rparr>)
       else None
   | None \<Rightarrow> None)"

text \<open>The four cases of the select statement in \<^verbatim>\<open>run\<close>.\<close>

definition run_batch :: "'a queue \<Rightarrow> 'a queue option" where
  "run_batch q = (if pc q \<noteq> AtSelect then None else case batchCh q of
     [] \<Rightarrow> None
   | s # rest \<Rightarrow>
       let q = q\<lparr>batchCh := rest, queuedStmts := queuedStmts q @ [s]\<rparr>;
           q = (if length (queuedStmts q) = 1 then q\<lparr>timerArmed := True\<rparr> else q) in
       Some (if int (length (queuedStmts q)) = batchSize q then writeFn (q\<lparr>timerArmed := False\<rparr>)
             else q))"

definition run_timer :: "'a queue \<Rightarrow> 'a queue option" where
  "run_timer q = (if pc q = AtSelect \<and> timerArmed q then
     Some (writeFn (q\<lparr>timerArmed := False, numTimeouts := numTimeouts q + 1,
       q_stats := stats_add ''num_timeout'' 1 (q_stats q)\<rparr>))
     else None)"

definition run_flush :: "'a queue \<Rightarrow> 'a queue option" where
  "run_flush q = (if pc q = AtSelect then
     Some (writeFn (q\<lparr>timerArmed := False, q_stats := stats_add ''num_flush'' 1 (q_stats q)\<rparr>))
     else None)"

definition run_done :: "'a queue \<Rightarrow> 'a queue option" where
  "run_done q = (if pc q = AtSelect \<and> q_done q then
     Some (q\<lparr>timerArmed := False, pc := Returned, q_closed := True\<rparr>) else None)"

section \<open>The system\<close>

text \<open>
  The queue with its clients: the writers past the check, everything written in order, and the
  requests received from \<^verbatim>\<open>C\<close>.
\<close>

record 'a q_sys =
  qu :: "'a queue"
  writers :: nat
  written :: "'a queued_objects list"
  received :: "'a q_request list"

inductive q_step :: "'a q_sys \<Rightarrow> 'a q_sys \<Rightarrow> bool" where
  write_check: "Write_check (qu s) = Inr () \<Longrightarrow> q_step s (s\<lparr>writers := Suc (writers s)\<rparr>)"
| write_send: "0 < writers s \<Longrightarrow> Write_send objs c (qu s) = Some (n, q') \<Longrightarrow>
    q_step s (s\<lparr>qu := q', writers := writers s - 1,
      written := written s @ [\<lparr>qo_SequenceNumber = n, qo_Objects = objs, qo_flushChan = c\<rparr>]\<rparr>)"
| run: "run_batch (qu s) = Some q' \<or> run_timer (qu s) = Some q' \<or> run_flush (qu s) = Some q' \<or>
    run_done (qu s) = Some q' \<or> run_send (qu s) = Some q' \<Longrightarrow> q_step s (s\<lparr>qu := q'\<rparr>)"
| close_queue: "q_step s (s\<lparr>qu := q_Close (qu s)\<rparr>)"
| receive: "sendCh (qu s) = r # rest \<Longrightarrow>
    q_step s (s\<lparr>qu := (qu s)\<lparr>sendCh := rest\<rparr>, received := received s @ [r]\<rparr>)"

definition q_init :: "nat \<Rightarrow> int \<Rightarrow> time \<Rightarrow> 'a q_sys" where
  "q_init mx batch now = \<lparr>qu = New mx batch now, writers = 0, written = [], received = []\<rparr>"

section \<open>Merging\<close>

lemma merge_loop_eq:
  "merge_loop qs r = \<lparr>req_SequenceNumber = fold max (map qo_SequenceNumber qs) (req_SequenceNumber r),
     req_Objects = req_Objects r @ concat (map qo_Objects qs),
     req_flushChans = req_flushChans r @ List.map_filter qo_flushChan qs\<rparr>"
  by (induction qs r rule: merge_loop.induct) (auto simp: max_def List.map_filter_simps split: option.splits)

lemma mergeQueued_Nil [simp]: "mergeQueued [] = None"
  by (simp add: mergeQueued_def)

lemma mergeQueued_None [simp]: "mergeQueued qs = None \<longleftrightarrow> qs = []"
  by (simp add: mergeQueued_def split: list.splits)

lemma fold_max_sorted:
  "sorted_wrt (<) (x # xs) \<Longrightarrow> fold max xs (x::int) = last (x # xs)"
  by (induction xs arbitrary: x) (auto simp: max_def)

lemma mergeQueued_sorted:
  assumes "sorted_wrt (<) (map qo_SequenceNumber qs)" and "mergeQueued qs = Some r"
  shows "qs \<noteq> []" and "req_SequenceNumber r = qo_SequenceNumber (last qs)"
    and "req_Objects r = concat (map qo_Objects qs)"
    and "req_flushChans r = List.map_filter qo_flushChan qs"
proof -
  obtain x xs where qs: "qs = x # xs" using assms(2) by (cases qs) (auto simp: mergeQueued_def)
  show "qs \<noteq> []" using qs by simp
  have "fold max (map qo_SequenceNumber qs) (qo_SequenceNumber x) = last (map qo_SequenceNumber qs)"
    using fold_max_sorted [of "qo_SequenceNumber x" "map qo_SequenceNumber xs"] assms(1)
    by (simp add: qs)
  then show "req_SequenceNumber r = qo_SequenceNumber (last qs)"
    and "req_Objects r = concat (map qo_Objects qs)"
    and "req_flushChans r = List.map_filter qo_flushChan qs"
    using assms(2) by (auto simp: mergeQueued_def qs merge_loop_eq last_map)
qed

section \<open>The queue's invariant\<close>

text \<open>
  What has left the goroutine is a sequence of batches of consecutive writes, each non-empty and,
  for a positive batch size, no larger than it; the rest is collected or still in the channel.
\<close>

definition batches_of :: "'a q_sys \<Rightarrow> 'a queued_objects list list \<Rightarrow> bool" where
  "batches_of s bs \<longleftrightarrow>
     written s = concat bs @ queuedStmts (qu s) @ batchCh (qu s) \<and>
     map mergeQueued bs = map Some (received s @ sendCh (qu s)) \<and>
     (\<forall>b \<in> set bs. b \<noteq> [] \<and> (0 < batchSize (qu s) \<longrightarrow> int (length b) \<le> batchSize (qu s)))"

definition q_inv :: "'a q_sys \<Rightarrow> bool" where
  "q_inv s \<longleftrightarrow> (\<exists>bs. batches_of s bs) \<and>
     sorted_wrt (<) (map qo_SequenceNumber (written s)) \<and>
     (\<forall>w \<in> set (written s). qo_SequenceNumber w \<le> seqNum (qu s)) \<and>
     length (batchCh (qu s)) \<le> maxSize (qu s) \<and> length (sendCh (qu s)) \<le> 1 \<and>
     timerArmed (qu s) = (pc (qu s) = AtSelect \<and> queuedStmts (qu s) \<noteq> []) \<and>
     (pc (qu s) = Sending \<longrightarrow> queuedStmts (qu s) \<noteq> []) \<and>
     (0 < batchSize (qu s) \<longrightarrow> int (length (queuedStmts (qu s))) \<le> batchSize (qu s) \<and>
        (pc (qu s) = AtSelect \<longrightarrow> int (length (queuedStmts (qu s))) < batchSize (qu s)))"

lemma writeFn_eq:
  "writeFn q = (if queuedStmts q = [] then q else q\<lparr>pc := Sending\<rparr>)"
  by (auto simp: writeFn_def mergeQueued_def split: option.splits list.splits)

lemma batches_of_cong:
  assumes "written t = written s" and "received t @ sendCh (qu t) = received s @ sendCh (qu s)"
    and "queuedStmts (qu t) @ batchCh (qu t) = queuedStmts (qu s) @ batchCh (qu s)"
    and "batchSize (qu t) = batchSize (qu s)"
  shows "batches_of t bs = batches_of s bs"
  using assms unfolding batches_of_def by simp

lemma q_inv_write:
  assumes "Write_send objs c (qu s) = Some (n, q')" and "q_inv s"
  shows "q_inv (s\<lparr>qu := q', writers := w,
    written := written s @ [\<lparr>qo_SequenceNumber = n, qo_Objects = objs, qo_flushChan = c\<rparr>]\<rparr>)"
proof -
  obtain bs where bs: "batches_of s bs" using assms(2) by (auto simp: q_inv_def)
  have "batches_of (s\<lparr>qu := q', writers := w,
      written := written s @ [\<lparr>qo_SequenceNumber = n, qo_Objects = objs, qo_flushChan = c\<rparr>]\<rparr>) bs"
    using bs assms(1) by (auto simp: batches_of_def Write_send_def Let_def split: if_splits)
  then show ?thesis using assms
    unfolding q_inv_def
    by (auto simp: Write_send_def Let_def sorted_wrt_append split: if_splits)
qed

text \<open>Collecting, and going to the send, only move the boundary between the stages.\<close>

lemma q_inv_select:
  assumes "run_batch (qu s) = Some q' \<or> run_timer (qu s) = Some q' \<or> run_flush (qu s) = Some q' \<or>
    run_done (qu s) = Some q'" and "q_inv s"
  shows "q_inv (s\<lparr>qu := q'\<rparr>)"
proof -
  obtain bs where bs: "batches_of s bs" using assms(2) by (auto simp: q_inv_def)
  have "batches_of (s\<lparr>qu := q'\<rparr>) bs = batches_of s bs"
    using assms(1) by (intro batches_of_cong)
      (auto simp: run_batch_def run_timer_def run_flush_def run_done_def writeFn_eq Let_def
        split: if_splits list.splits)
  with bs have bs': "\<exists>bs. batches_of (s\<lparr>qu := q'\<rparr>) bs" by blast
  note [simp] = writeFn_eq Let_def
  from assms(1) show ?thesis
  proof (elim disjE)
    assume r: "run_batch (qu s) = Some q'"
    then obtain x rest where x: "batchCh (qu s) = x # rest" "pc (qu s) = AtSelect"
      by (auto simp: run_batch_def split: if_splits list.splits)
    show ?thesis
      using assms(2) bs' r x unfolding q_inv_def run_batch_def
      by (cases "queuedStmts (qu s) = []"; cases "int (length (queuedStmts (qu s))) + 1 = batchSize (qu s)")
        auto
  next
    assume "run_timer (qu s) = Some q'"
    then show ?thesis using assms(2) bs' unfolding q_inv_def run_timer_def
      by (auto split: if_splits)
  next
    assume "run_flush (qu s) = Some q'"
    then show ?thesis using assms(2) bs' unfolding q_inv_def run_flush_def
      by (auto split: if_splits)
  next
    assume "run_done (qu s) = Some q'"
    then show ?thesis using assms(2) bs' unfolding q_inv_def run_done_def
      by (auto split: if_splits)
  qed
qed

lemma q_inv_send:
  assumes "run_send (qu s) = Some q'" and "q_inv s"
  shows "q_inv (s\<lparr>qu := q'\<rparr>)"
proof -
  obtain bs where bs: "batches_of s bs" using assms(2) by (auto simp: q_inv_def)
  obtain req where req: "mergeQueued (queuedStmts (qu s)) = Some req"
    using assms(1) by (auto simp: run_send_def split: option.splits)
  then have "queuedStmts (qu s) \<noteq> []" by auto
  moreover have q': "q' = (qu s)\<lparr>sendCh := sendCh (qu s) @ [req], queuedStmts := [], pc := AtSelect,
      q_stats := stats_add ''objects_tx'' (int (length (req_Objects req))) (q_stats (qu s))\<rparr>"
    "pc (qu s) = Sending" "sendCh (qu s) = []"
    using assms(1) req by (auto simp: run_send_def split: if_splits)
  ultimately have "batches_of (s\<lparr>qu := q'\<rparr>) (bs @ [queuedStmts (qu s)])"
    using bs req assms(2) by (auto simp: batches_of_def q_inv_def)
  then show ?thesis using assms(2) q' by (auto simp: q_inv_def)
qed

lemma q_inv_step: "q_step s t \<Longrightarrow> q_inv s \<Longrightarrow> q_inv t"
proof (induction rule: q_step.induct)
  case (write_check s)
  then show ?case by (simp add: q_inv_def batches_of_def)
next
  case (write_send s objs c n q')
  then show ?case by (intro q_inv_write)
next
  case (run s q')
  then show ?case using q_inv_select q_inv_send by blast
next
  case (close_queue s)
  then show ?case by (simp add: q_inv_def q_Close_def batches_of_def)
next
  case (receive s r rest)
  then show ?case by (auto simp: q_inv_def batches_of_def)
qed

lemma q_inv_init: "q_inv (q_init mx batch now)"
  by (simp add: q_inv_def q_init_def New_def batches_of_def)

lemma q_reachable_inv: "q_step\<^sup>*\<^sup>* (q_init mx batch now) s \<Longrightarrow> q_inv s"
  by (induction rule: rtranclp_induct) (auto simp: q_inv_init intro: q_inv_step)

lemma batchSize_step: "q_step s t \<Longrightarrow> batchSize (qu t) = batchSize (qu s)"
  by (induction rule: q_step.induct)
    (auto simp: Write_send_def run_batch_def run_timer_def run_flush_def run_done_def run_send_def
      q_Close_def writeFn_eq Let_def split: if_splits list.splits option.splits)

lemma batchSize_reachable: "q_step\<^sup>*\<^sup>* (q_init mx batch now) s \<Longrightarrow> batchSize (qu s) = batch"
  by (induction rule: rtranclp_induct) (auto simp: batchSize_step q_init_def New_def)

lemma sorted_wrt_concat_part:
  "sorted_wrt R (concat bs @ ys) \<Longrightarrow> b \<in> set bs \<Longrightarrow> sorted_wrt R b"
  by (induction bs) (auto simp: sorted_wrt_append)

text \<open>C27: The queue keeps the order of writes, loses and duplicates nothing, and batches as it
  promises. In every reachable state the requests that went out (received or waiting in
  \<^verbatim>\<open>C\<close>) are, in order, consecutive non-empty batches of the writes, no batch larger than
  a positive batch size; the writes not sent yet follow in order. A request's objects are those of
  its batch in order, its sequence number that of the batch's last write, and its flush channels
  exactly those given with the batch's writes.\<close>

theorem queue_delivers_in_order:
  assumes "q_step\<^sup>*\<^sup>* (q_init mx batch now) s"
  shows "\<exists>bs. written s = concat bs @ queuedStmts (qu s) @ batchCh (qu s) \<and>
    length bs = length (received s @ sendCh (qu s)) \<and>
    (\<forall>(b, r) \<in> set (zip bs (received s @ sendCh (qu s))). b \<noteq> [] \<and>
       (0 < batch \<longrightarrow> int (length b) \<le> batch) \<and>
       req_Objects r = concat (map qo_Objects b) \<and>
       req_SequenceNumber r = qo_SequenceNumber (last b) \<and>
       req_Close r = List.map_filter qo_flushChan b)"
proof -
  note i = q_reachable_inv [OF assms] and size = batchSize_reachable [OF assms]
  then obtain bs where bs: "batches_of s bs" by (auto simp: q_inv_def)
  have srt: "sorted_wrt (<) (map qo_SequenceNumber (written s))" using i by (simp add: q_inv_def)
  have part: "sorted_wrt (<) (map qo_SequenceNumber b)" if "b \<in> set bs" for b
    using sorted_wrt_concat_part [of "(<)" "map (map qo_SequenceNumber) bs" _ "map qo_SequenceNumber b"]
      srt bs that by (auto simp: batches_of_def map_concat)
  have len: "length bs = length (received s @ sendCh (qu s))"
    using bs by (metis batches_of_def length_map)
  have pair: "mergeQueued b = Some r \<and> b \<in> set bs"
    if "(b, r) \<in> set (zip bs (received s @ sendCh (qu s)))" for b r
  proof -
    obtain k where k: "k < length bs" "b = bs ! k" "r = (received s @ sendCh (qu s)) ! k"
      using \<open>(b, r) \<in> _\<close> by (auto simp: set_zip)
    have "map mergeQueued bs ! k = map Some (received s @ sendCh (qu s)) ! k"
      using bs by (simp add: batches_of_def)
    then show ?thesis using k len by (simp add: nth_map del: map_append)
  qed
  have "b \<noteq> [] \<and> (0 < batch \<longrightarrow> int (length b) \<le> batch) \<and>
       req_Objects r = concat (map qo_Objects b) \<and> req_SequenceNumber r = qo_SequenceNumber (last b) \<and>
       req_Close r = List.map_filter qo_flushChan b"
    if "(b, r) \<in> set (zip bs (received s @ sendCh (qu s)))" for b r
    using mergeQueued_sorted [OF part, of b r] pair [OF that] bs size
    by (auto simp: batches_of_def req_Close_def)
  then show ?thesis using bs len by (intro exI [of _ bs]) (auto simp: batches_of_def)
qed

text \<open>C28: The queue never sits on collected writes: whenever its goroutine waits for events with
  something collected its timer is armed and would take the batch to the send, and a blocked send
  goes through as soon as the receiver has emptied \<^verbatim>\<open>C\<close>. Sequence numbers increase
  strictly with each write.\<close>

theorem queue_never_stuck:
  assumes "q_step\<^sup>*\<^sup>* (q_init mx batch now) s"
  shows "sorted_wrt (<) (map qo_SequenceNumber (written s)) \<and>
    (pc (qu s) = AtSelect \<and> queuedStmts (qu s) \<noteq> [] \<longrightarrow>
       (\<exists>q'. run_timer (qu s) = Some q' \<and> pc q' = Sending \<and> queuedStmts q' = queuedStmts (qu s))) \<and>
    (pc (qu s) = Sending \<and> sendCh (qu s) = [] \<longrightarrow>
       (\<exists>q' r. run_send (qu s) = Some q' \<and> sendCh q' = [r] \<and>
          req_Objects r = concat (map qo_Objects (queuedStmts (qu s))) \<and> queuedStmts q' = []))"
proof -
  note i = q_reachable_inv [OF assms]
  then have srt: "sorted_wrt (<) (map qo_SequenceNumber (written s))" by (simp add: q_inv_def)
  have "\<exists>q'. run_timer (qu s) = Some q' \<and> pc q' = Sending \<and> queuedStmts q' = queuedStmts (qu s)"
    if "pc (qu s) = AtSelect" "queuedStmts (qu s) \<noteq> []"
    using that i by (simp add: run_timer_def writeFn_eq q_inv_def)
  moreover have "\<exists>q' r. run_send (qu s) = Some q' \<and> sendCh q' = [r] \<and>
      req_Objects r = concat (map qo_Objects (queuedStmts (qu s))) \<and> queuedStmts q' = []"
    if pc: "pc (qu s) = Sending" "sendCh (qu s) = []"
  proof -
    have "queuedStmts (qu s) \<noteq> []" using i pc by (simp add: q_inv_def)
    then obtain r where "mergeQueued (queuedStmts (qu s)) = Some r"
      by (metis mergeQueued_None option.exhaust)
    moreover from this have "req_Objects r = concat (map qo_Objects (queuedStmts (qu s)))"
      by (auto simp: mergeQueued_def merge_loop_eq split: list.splits)
    ultimately show ?thesis using pc by (simp add: run_send_def)
  qed
  ultimately show ?thesis using srt by blast
qed

text \<open>A run with one write of two objects into a queue of batch size one, received and not.\<close>

definition sample_write :: "nat queued_objects" where
  "sample_write = \<lparr>qo_SequenceNumber = 101, qo_Objects = [7, 8], qo_flushChan = Some 3\<rparr>"

lemma sample_run:
  obtains s :: "nat q_sys" and s' :: "nat q_sys" where "q_step\<^sup>*\<^sup>* (q_init 4 1 100) s"
    and "pc (qu s) = Sending" and "sendCh (qu s) = []" and "queuedStmts (qu s) = [sample_write]"
    and "q_step\<^sup>*\<^sup>* (q_init 4 1 100) s'" and "length (sendCh (qu s')) = 1"
    and "written s' = [sample_write]"
proof -
  let ?s0 = "q_init 4 1 100 :: nat q_sys"
  obtain s1 where s1: "q_step ?s0 s1" "s1 = ?s0\<lparr>writers := 1\<rparr>"
    using write_check [of ?s0] by (auto simp: Write_check_def q_init_def New_def)
  obtain s2 where s2: "q_step s1 s2" "pc (qu s2) = AtSelect" "batchSize (qu s2) = 1"
    "sendCh (qu s2) = []" "queuedStmts (qu s2) = []" "batchCh (qu s2) = [sample_write]"
    "written s2 = [sample_write]"
    using write_send [of s1 "[7, 8]" "Some 3" 101] s1(2)
    by (auto simp: Write_send_def Let_def q_init_def New_def sample_write_def)
  obtain s3 where s3: "q_step s2 s3" "pc (qu s3) = Sending" "sendCh (qu s3) = []"
    "queuedStmts (qu s3) = [sample_write]" "written s3 = [sample_write]"
  proof -
    obtain q' where "run_batch (qu s2) = Some q'" "pc q' = Sending" "sendCh q' = []"
      "queuedStmts q' = [sample_write]"
      using s2 by (auto simp: run_batch_def Let_def writeFn_eq)
    with that [of "s2\<lparr>qu := q'\<rparr>"] run [of s2 q'] s2 show thesis by simp
  qed
  obtain s4 where s4: "q_step s3 s4" "length (sendCh (qu s4)) = 1" "written s4 = [sample_write]"
  proof -
    obtain q' where "run_send (qu s3) = Some q'" "length (sendCh q') = 1"
      using s3 by (auto simp: run_send_def mergeQueued_def)
    with that [of "s3\<lparr>qu := q'\<rparr>"] run [of s3 q'] s3 show thesis by simp
  qed
  have r3: "q_step\<^sup>*\<^sup>* ?s0 s3"
    using s1(1) s2(1) s3(1) by (meson rtranclp.rtrancl_into_rtrancl rtranclp.rtrancl_refl)
  then have "q_step\<^sup>*\<^sup>* ?s0 s4" using s4(1) by (rule rtranclp.rtrancl_into_rtrancl)
  with r3 s3 s4 show thesis by (intro that)
qed

theorem queue_delivers_in_order_witness:
  "\<exists>s :: nat q_sys. q_step\<^sup>*\<^sup>* (q_init 4 1 100) s \<and>
     (\<exists>bs. concat bs @ queuedStmts (qu s) @ batchCh (qu s) = [sample_write] \<and>
       length bs = length (received s) + 1)"
proof -
  obtain s' :: "nat q_sys" where s: "q_step\<^sup>*\<^sup>* (q_init 4 1 100) s'" "length (sendCh (qu s')) = 1"
    "written s' = [sample_write]" using sample_run by metis
  from queue_delivers_in_order [OF s(1)] obtain bs where
    "written s' = concat bs @ queuedStmts (qu s') @ batchCh (qu s')"
    "length bs = length (received s' @ sendCh (qu s'))" by blast
  with s show ?thesis by (intro exI [of _ s'] conjI exI [of _ bs]) simp_all
qed

theorem queue_never_stuck_witness:
  "\<exists>s :: nat q_sys. q_step\<^sup>*\<^sup>* (q_init 4 1 100) s \<and> pc (qu s) = Sending \<and>
     (\<exists>q' r. run_send (qu s) = Some q' \<and> sendCh q' = [r] \<and> req_Objects r = [7, 8])"
proof -
  obtain s :: "nat q_sys" where s: "q_step\<^sup>*\<^sup>* (q_init 4 1 100) s" "pc (qu s) = Sending"
    "sendCh (qu s) = []" "queuedStmts (qu s) = [sample_write]" using sample_run by metis
  from queue_never_stuck [OF s(1)] s show ?thesis by (auto simp: sample_write_def)
qed

end
