(* ===== verification/Http_Service.thy ===== *)
theory Http_Service
  imports Http_Request Cluster_Service Queue
begin

text \<open>
  The HTTP API: \<^verbatim>\<open>http/service.go\<close>. Requests are routed, checked against the credential
  store, turned into commands for the local store, and passed on to the leader by the cluster
  client when the store says it is not the leader. The store is a \<open>store_ops\<close> record, the client
  a record of its operations on a state of the network; the client of \<^verbatim>\<open>cluster/client.go\<close> is put
  into it at the end. Headers other than the one naming the node that served a request, and the
  contents of the diagnostic pages, are left out.
\<close>

section \<open>Requests and answers\<close>

record http_req =
  hr_Method :: string
  hr_Path :: string
  hr_RawQuery :: string
  hr_ContentType :: string
  hr_Auth :: "(string \<times> string) option"
  hr_query :: "(string, QueryParams) result"
  hr_raw :: "(string, bytes) result"
  hr_body :: body
  hr_map :: "(string \<times> string) list option"

text \<open>The body of a request is there as bytes (or the error of reading them), as the decoder of
  statements sees it, and as the string map a removal expects.\<close>

record Response =
  rp_Execute :: "ExecuteQueryResponse list option"
  rp_Query :: "QueryRows list option"
  rp_Error :: string
  rp_SequenceNum :: int
  rp_RaftIndex :: nat

definition NewResponse :: Response where
  "NewResponse = \<lparr>rp_Execute = None, rp_Query = None, rp_Error = '''', rp_SequenceNum = 0, rp_RaftIndex = 0\<rparr>"

datatype http_body = HB_Empty | HB_Text string | HB_JSON Response | HB_Data bytes | HB_Blocked | HB_Page

record http_ans =
  an_status :: nat
  an_servedBy :: "string option"
  an_location :: "string option"
  an_body :: http_body

definition an_code :: "nat \<Rightarrow> http_ans" where
  "an_code k = \<lparr>an_status = k, an_servedBy = None, an_location = None, an_body = HB_Empty\<rparr>"

definition an_error :: "string \<Rightarrow> nat \<Rightarrow> http_ans" where
  "an_error msg k = (an_code k)\<lparr>an_body := HB_Text msg\<rparr>"

definition an_json :: "Response \<Rightarrow> http_ans" where
  "an_json r = (an_code 200)\<lparr>an_body := HB_JSON r\<rparr>"

definition served_by :: "string \<Rightarrow> http_ans \<Rightarrow> http_ans" where
  "served_by addr a = a\<lparr>an_servedBy := Some addr\<rparr>"

section \<open>The service\<close>

record 'w cluster_ops =
  ck_Execute :: "ExecuteRequest \<Rightarrow> string \<Rightarrow> (string \<times> string) option \<Rightarrow> int \<Rightarrow> 'w \<Rightarrow>
    (string, ExecuteQueryResponse list \<times> nat) result \<times> 'w"
  ck_Query :: "QueryRequest \<Rightarrow> string \<Rightarrow> (string \<times> string) option \<Rightarrow> 'w \<Rightarrow> (string, QueryRows list \<times> nat) result \<times> 'w"
  ck_Request :: "ExecuteQueryRequest \<Rightarrow> string \<Rightarrow> (string \<times> string) option \<Rightarrow> int \<Rightarrow> 'w \<Rightarrow>
    (string, ExecuteQueryResponse list \<times> nat) result \<times> 'w"
  ck_Backup :: "BackupRequest \<Rightarrow> string \<Rightarrow> (string \<times> string) option \<Rightarrow> 'w \<Rightarrow> (string, bytes) result \<times> 'w"
  ck_Load :: "LoadRequest \<Rightarrow> string \<Rightarrow> (string \<times> string) option \<Rightarrow> int \<Rightarrow> 'w \<Rightarrow> string option \<times> 'w"
  ck_RemoveNode :: "RemoveNodeRequest \<Rightarrow> string \<Rightarrow> (string \<times> string) option \<Rightarrow> 'w \<Rightarrow> string option \<times> 'w"
  ck_GetNodeMeta :: "string \<Rightarrow> int \<Rightarrow> 'w \<Rightarrow> (string, NodeMeta) result \<times> 'w"

record http_conf =
  hc_creds :: "CredentialsStore option"
  hc_parse :: go_parse
  hc_rewriter :: rewriter
  hc_queueTx :: bool
  hc_page :: "http_req \<Rightarrow> http_ans"

text \<open>What the handlers change: the node, the network and the nodes beyond it, and the queue of
  statements.\<close>

record ('n, 'w) http_st =
  hs_node :: 'n
  hs_net :: 'w
  hs_queue :: "Statement queue"

type_synonym ('n, 'w) handler = "('n, 'w) http_st \<Rightarrow> http_ans \<times> ('n, 'w) http_st"

definition CheckRequestPerm :: "http_conf \<Rightarrow> http_req \<Rightarrow> string \<Rightarrow> bool" where
  "CheckRequestPerm H r perm = (if hc_creds H = None then True
     else (case hr_Auth r of None \<Rightarrow> AA '''' '''' perm (hc_creds H) | Some (u, p) \<Rightarrow> AA u p perm (hc_creds H)))"

definition CheckRequestPermAll :: "http_conf \<Rightarrow> http_req \<Rightarrow> string list \<Rightarrow> bool" where
  "CheckRequestPermAll H r perms = (if hc_creds H = None then True
     else (case hr_Auth r of None \<Rightarrow> list_all (\<lambda>perm. AA '''' '''' perm (hc_creds H)) perms
       | Some (u, p) \<Rightarrow> list_all (\<lambda>perm. AA u p perm (hc_creds H)) perms))"

datatype leader_err = ErrLeaderNotFound | LeaderErr string

definition svc_LeaderAddr :: "'n store_ops \<Rightarrow> 'n \<Rightarrow> (leader_err, string) result" where
  "svc_LeaderAddr S n = (case op_LeaderAddr S n of
     Inl e \<Rightarrow> Inl (LeaderErr (op_text S e))
   | Inr addr \<Rightarrow> if addr = '''' then Inl ErrLeaderNotFound else Inr addr)"

definition no_leader :: "leader_err \<Rightarrow> http_ans" where
  "no_leader e = (case e of
     ErrLeaderNotFound \<Rightarrow> an_error ''leader not found'' 503
   | LeaderErr m \<Rightarrow> an_error (''leader address: '' @ m) 500)"

definition LeaderAPIAddr :: "'n store_ops \<Rightarrow> 'w cluster_ops \<Rightarrow> 'n \<Rightarrow> 'w \<Rightarrow> string \<times> 'w" where
  "LeaderAPIAddr S K n w = (case op_LeaderAddr S n of
     Inl _ \<Rightarrow> ('''', w)
   | Inr addr \<Rightarrow> (case ck_GetNodeMeta K addr 0 w of
       (Inl _, w) \<Rightarrow> ('''', w)
     | (Inr m, w) \<Rightarrow> (nm_Url m, w)))"

definition FormRedirect ::
  "'n store_ops \<Rightarrow> 'w cluster_ops \<Rightarrow> http_req \<Rightarrow> 'n \<Rightarrow> 'w \<Rightarrow> (leader_err, string) result \<times> 'w" where
  "FormRedirect S K r n w = (case LeaderAPIAddr S K n w of (addr, w) \<Rightarrow>
     (if addr = '''' then Inl ErrLeaderNotFound
      else Inr (addr @ hr_Path r @ (if hr_RawQuery r \<noteq> '''' then ''?'' @ hr_RawQuery r else '''')), w))"

text \<open>\<open>None\<close>: the request did not ask for redirection.\<close>

definition DoRedirect ::
  "'n store_ops \<Rightarrow> 'w cluster_ops \<Rightarrow> http_req \<Rightarrow> QueryParams \<Rightarrow> 'n \<Rightarrow> 'w \<Rightarrow> http_ans option \<times> 'w" where
  "DoRedirect S K r qp n w =
   (if \<not> HasKey ''redirect'' qp then (None, w)
    else (case FormRedirect S K r n w of
        (Inl e, w) \<Rightarrow> (Some (an_error ''leader not found'' 500), w)
      | (Inr rd, w) \<Rightarrow> (Some ((an_code 301)\<lparr>an_location := Some rd\<rparr>), w)))"

text \<open>The part every handler has for a store that is not the leader: redirect if asked to, else find
  the leader and send it the command.\<close>

definition on_leader ::
  "'n store_ops \<Rightarrow> 'w cluster_ops \<Rightarrow> http_req \<Rightarrow> QueryParams \<Rightarrow> (string \<Rightarrow> 'w \<Rightarrow> http_ans \<times> 'w) \<Rightarrow> ('n, 'w) handler" where
  "on_leader S K r qp send st = (case DoRedirect S K r qp (hs_node st) (hs_net st) of
     (Some a, w) \<Rightarrow> (a, st\<lparr>hs_net := w\<rparr>)
   | (None, w) \<Rightarrow> (case svc_LeaderAddr S (hs_node st) of
       Inl e \<Rightarrow> (no_leader e, st\<lparr>hs_net := w\<rparr>)
     | Inr addr \<Rightarrow> (case send addr w of (a, w) \<Rightarrow> (served_by addr a, st\<lparr>hs_net := w\<rparr>))))"

section \<open>Handlers\<close>

definition statements_of :: "http_conf \<Rightarrow> http_req \<Rightarrow> (string, Statement list) result" where
  "statements_of H r = (case ParseRequest (gp_Float64 (hc_parse H)) (hr_body r) of
     Inl e \<Rightarrow> Inl (parse_err_str e) | Inr stmts \<Rightarrow> Inr stmts)"

definition text_statement :: "http_req \<Rightarrow> (string, Statement list) result" where
  "text_statement r = (case hr_raw r of
     Inl e \<Rightarrow> Inl e
   | Inr b \<Rightarrow> Inr [\<lparr>Sql = bytes_string b, Parameters = [], ForceQuery = False\<rparr>])"

definition is_plain :: "http_req \<Rightarrow> bool" where
  "is_plain r = has_prefix ''text/plain'' (hr_ContentType r)"

text \<open>The end of the three statement handlers: results or the error, in a JSON answer.\<close>

definition with_index :: "QueryParams \<Rightarrow> nat \<Rightarrow> Response \<Rightarrow> Response" where
  "with_index qp idx p = (if HasKey ''raft_index'' qp then p\<lparr>rp_RaftIndex := idx\<rparr> else p)"

definition ex_answer :: "QueryParams \<Rightarrow> (string, ExecuteQueryResponse list \<times> nat) result \<Rightarrow> http_ans" where
  "ex_answer qp res = (case res of
     Inl e \<Rightarrow> an_json (NewResponse\<lparr>rp_Error := e\<rparr>)
   | Inr (rs, idx) \<Rightarrow> an_json (with_index qp idx (NewResponse\<lparr>rp_Execute := Some rs\<rparr>)))"

definition qu_answer :: "QueryParams \<Rightarrow> (string, QueryRows list \<times> nat) result \<Rightarrow> http_ans" where
  "qu_answer qp res = (case res of
     Inl e \<Rightarrow> an_json (NewResponse\<lparr>rp_Error := e\<rparr>)
   | Inr (rs, idx) \<Rightarrow> an_json (with_index qp idx (NewResponse\<lparr>rp_Query := Some rs\<rparr>)))"

text \<open>The error of the leader: \<^verbatim>\<open>unauthorized\<close> becomes a status, any other a message.\<close>

definition remote_answer ::
  "string \<Rightarrow> string \<Rightarrow> string \<Rightarrow> ((string, 'a) result \<Rightarrow> http_ans) \<Rightarrow> (string, 'a) result \<Rightarrow> http_ans" where
  "remote_answer refusal what addr k res = (case res of
     Inl e \<Rightarrow> if e = ''unauthorized'' then an_error refusal 401
        else k (Inl (''node failed to process '' @ what @ '' on remote node at '' @ addr @ '': '' @ e))
   | Inr x \<Rightarrow> k (Inr x))"

definition mk_er :: "http_conf \<Rightarrow> QueryParams \<Rightarrow> Statement list \<Rightarrow> ExecuteRequest" where
  "mk_er H qp stmts = \<lparr>er_Request = Some \<lparr>Transaction = HasKey ''transaction'' qp, Statements = stmts,
       DbTimeout = qp_duration (hc_parse H) ''db_timeout'' 0 qp\<rparr>, er_Timings = HasKey ''timings'' qp\<rparr>"

definition run_execute ::
  "'n store_ops \<Rightarrow> 'w cluster_ops \<Rightarrow> http_conf \<Rightarrow> http_req \<Rightarrow> QueryParams \<Rightarrow> ExecuteRequest \<Rightarrow> ('n, 'w) handler" where
  "run_execute S K H r qp er st = (case op_Execute S er (hs_node st) of
     (Inr x, n) \<Rightarrow> (ex_answer qp (Inr x), st\<lparr>hs_node := n\<rparr>)
   | (Inl e, n) \<Rightarrow>
      if e = ErrNotLeader then
        on_leader S K r qp (\<lambda>addr w. case ck_Execute K er addr (hr_Auth r) (qp_int (hc_parse H) ''retries'' 0 qp) w of
          (res, w) \<Rightarrow> (remote_answer ''remote Execute not authorized'' ''Execute'' addr (ex_answer qp) res, w)) (st\<lparr>hs_node := n\<rparr>)
      else (ex_answer qp (Inl (op_text S e)), st\<lparr>hs_node := n\<rparr>))"

definition http_execute ::
  "'n store_ops \<Rightarrow> 'w cluster_ops \<Rightarrow> http_conf \<Rightarrow> http_req \<Rightarrow> QueryParams \<Rightarrow> ('n, 'w) handler" where
  "http_execute S K H r qp st = (case (if is_plain r then text_statement r else statements_of H r) of
     Inl e \<Rightarrow> (an_error e 400, st)
   | Inr stmts \<Rightarrow> (case (if HasKey ''noparse'' qp then Inr stmts
         else sql_Process (hc_rewriter H) stmts (\<not> HasKey ''norwrandom'' qp) (\<not> HasKey ''norwtime'' qp)) of
       Inl e \<Rightarrow> (an_error (''SQL rewrite: '' @ e) 500, st)
     | Inr stmts \<Rightarrow> run_execute S K H r qp (mk_er H qp stmts) st))"

text \<open>Queued execution. A body without statements is refused (unless the client waits); any other
  error of parsing it is dropped, and nothing is queued in its place. \<open>fc\<close> is the flush channel
  of a waiting client and \<open>flushed\<close> whether it is closed before the timeout.\<close>

definition queuedExecute ::
  "'n store_ops \<Rightarrow> http_conf \<Rightarrow> http_req \<Rightarrow> QueryParams \<Rightarrow> chan \<Rightarrow> bool \<Rightarrow> ('n, 'w) handler" where
  "queuedExecute S H r qp fc flushed st =
   (case (if HasKey ''noleader'' qp then Inr '''' else svc_LeaderAddr S (hs_node st)) of
      Inl e \<Rightarrow> (no_leader e, st)
    | Inr _ \<Rightarrow>
       let wait = HasKey ''wait'' qp; parsed = ParseRequest (gp_Float64 (hc_parse H)) (hr_body r) in
       if parsed = Inl ErrNoStatements \<and> \<not> wait then (an_error (parse_err_str ErrNoStatements) 400, st)
       else
         (case sql_Process (hc_rewriter H) (case parsed of Inl _ \<Rightarrow> [] | Inr stmts \<Rightarrow> stmts)
             (\<not> HasKey ''norwrandom'' qp) (\<not> HasKey ''norwtime'' qp) of
            Inl e \<Rightarrow> (an_error (''SQL rewrite: '' @ e) 500, st)
          | Inr stmts \<Rightarrow> (case Write_check (hs_queue st) of
              Inl e \<Rightarrow> (an_error e 500, st)
            | Inr _ \<Rightarrow> (case Write_send stmts (if wait then Some fc else None) (hs_queue st) of
                None \<Rightarrow> ((an_code 0)\<lparr>an_body := HB_Blocked\<rparr>, st)
              | Some (seq, q) \<Rightarrow>
                 let st = st\<lparr>hs_queue := q\<rparr> in
                 if wait \<and> \<not> flushed then (an_error ''queue wait timeout'' 408, st)
                 else (an_json (NewResponse\<lparr>rp_SequenceNum := seq\<rparr>), st)))))"

definition handleExecute ::
  "'n store_ops \<Rightarrow> 'w cluster_ops \<Rightarrow> http_conf \<Rightarrow> http_req \<Rightarrow> QueryParams \<Rightarrow> chan \<Rightarrow> bool \<Rightarrow> ('n, 'w) handler" where
  "handleExecute S K H r qp fc flushed st =
   (if \<not> CheckRequestPerm H r PermExecute then (an_code 401, st)
    else if hr_Method r \<noteq> ''POST'' then (an_code 405, st)
    else if HasKey ''queue'' qp then queuedExecute S H r qp fc flushed st
    else http_execute S K H r qp st)"

definition requestQueries :: "http_conf \<Rightarrow> http_req \<Rightarrow> QueryParams \<Rightarrow> (string, Statement list) result" where
  "requestQueries H r qp = (if hr_Method r = ''GET''
     then Inr [\<lparr>Sql = qp_get ''q'' qp, Parameters = [], ForceQuery = False\<rparr>] else statements_of H r)"

definition defaultLinearTimeout :: int where "defaultLinearTimeout = 10000000000"

definition mk_qr :: "http_conf \<Rightarrow> QueryParams \<Rightarrow> Statement list \<Rightarrow> QueryRequest" where
  "mk_qr H qp stmts = \<lparr>qr_Request = Some \<lparr>Transaction = HasKey ''transaction'' qp, Statements = stmts,
       DbTimeout = qp_duration (hc_parse H) ''db_timeout'' 0 qp\<rparr>, qr_Timings = HasKey ''timings'' qp,
     qr_Level = qp_Level qp, qr_Freshness = qp_Freshness (hc_parse H) qp,
     qr_FreshnessStrict = HasKey ''freshness_strict'' qp,
     qr_LinearizableTimeout = qp_duration (hc_parse H) ''linearizable_timeout'' defaultLinearTimeout qp\<rparr>"

definition run_query ::
  "'n store_ops \<Rightarrow> 'w cluster_ops \<Rightarrow> http_conf \<Rightarrow> http_req \<Rightarrow> QueryParams \<Rightarrow> QueryRequest \<Rightarrow> ('n, 'w) handler" where
  "run_query S K H r qp qr st = (case op_Query S qr (hs_node st) of
     (Inr x, n) \<Rightarrow> (qu_answer qp (Inr x), st\<lparr>hs_node := n\<rparr>)
   | (Inl e, n) \<Rightarrow>
      if e = ErrNotLeader then
        on_leader S K r qp (\<lambda>addr w. case ck_Query K qr addr (hr_Auth r) w of
          (res, w) \<Rightarrow> (remote_answer ''remote query not authorized'' ''Query'' addr (qu_answer qp) res, w)) (st\<lparr>hs_node := n\<rparr>)
      else (qu_answer qp (Inl (op_text S e)), st\<lparr>hs_node := n\<rparr>))"

text \<open>The flag for rewriting \<^verbatim>\<open>RANDOM()\<close> is passed on here without the negation the execute
  handler has.\<close>

definition handleQuery ::
  "'n store_ops \<Rightarrow> 'w cluster_ops \<Rightarrow> http_conf \<Rightarrow> http_req \<Rightarrow> QueryParams \<Rightarrow> ('n, 'w) handler" where
  "handleQuery S K H r qp st =
   (if \<not> CheckRequestPerm H r PermQuery then (an_code 401, st)
    else if hr_Method r \<noteq> ''GET'' \<and> hr_Method r \<noteq> ''POST'' then (an_code 405, st)
    else case (if is_plain r \<and> hr_Method r = ''POST'' then text_statement r else requestQueries H r qp) of
      Inl e \<Rightarrow> (an_error e 400, st)
    | Inr queries \<Rightarrow> (case (if qp_Level qp = LEVEL_STRONG \<and> \<not> HasKey ''noparse'' qp
          then sql_Process (hc_rewriter H) queries (HasKey ''norwrandom'' qp) (\<not> HasKey ''norwtime'' qp)
          else Inr queries) of
        Inl e \<Rightarrow> (an_error (''SQL rewrite: '' @ e) 500, st)
      | Inr queries \<Rightarrow> run_query S K H r qp (mk_qr H qp queries) st))"

definition mk_eqr :: "http_conf \<Rightarrow> QueryParams \<Rightarrow> Statement list \<Rightarrow> ExecuteQueryRequest" where
  "mk_eqr H qp stmts = \<lparr>eqr_Request = Some \<lparr>Transaction = HasKey ''transaction'' qp, Statements = stmts,
       DbTimeout = qp_duration (hc_parse H) ''db_timeout'' 0 qp\<rparr>, eqr_Timings = HasKey ''timings'' qp,
     eqr_Level = qp_Level qp, eqr_Freshness = qp_Freshness (hc_parse H) qp,
     eqr_FreshnessStrict = HasKey ''freshness_strict'' qp\<rparr>"

definition run_request ::
  "'n store_ops \<Rightarrow> 'w cluster_ops \<Rightarrow> http_conf \<Rightarrow> http_req \<Rightarrow> QueryParams \<Rightarrow> ExecuteQueryRequest \<Rightarrow> ('n, 'w) handler" where
  "run_request S K H r qp eqr st = (case op_Request S eqr (hs_node st) of
     (Inr x, n) \<Rightarrow> (ex_answer qp (Inr x), st\<lparr>hs_node := n\<rparr>)
   | (Inl e, n) \<Rightarrow>
      if e = ErrNotLeader then
        on_leader S K r qp (\<lambda>addr w. case ck_Request K eqr addr (hr_Auth r) (qp_int (hc_parse H) ''retries'' 0 qp) w of
          (res, w) \<Rightarrow> (remote_answer ''remote Request not authorized'' ''Request'' addr (ex_answer qp) res, w)) (st\<lparr>hs_node := n\<rparr>)
      else (ex_answer qp (Inl (op_text S e)), st\<lparr>hs_node := n\<rparr>))"

definition handleRequest ::
  "'n store_ops \<Rightarrow> 'w cluster_ops \<Rightarrow> http_conf \<Rightarrow> http_req \<Rightarrow> QueryParams \<Rightarrow> ('n, 'w) handler" where
  "handleRequest S K H r qp st =
   (if \<not> CheckRequestPermAll H r [PermQuery, PermExecute] then (an_code 401, st)
    else if hr_Method r \<noteq> ''POST'' then (an_code 405, st)
    else case statements_of H r of
      Inl e \<Rightarrow> (an_error e 400, st)
    | Inr stmts \<Rightarrow> (case (if HasKey ''noparse'' qp then Inr stmts
          else sql_Process (hc_rewriter H) stmts (HasKey ''norwrandom'' qp) (\<not> HasKey ''norwtime'' qp)) of
        Inl e \<Rightarrow> (an_error (''SQL rewrite: '' @ e) 500, st)
      | Inr stmts \<Rightarrow> run_request S K H r qp (mk_eqr H qp stmts) st))"

definition handleRemove ::
  "'n store_ops \<Rightarrow> 'w cluster_ops \<Rightarrow> http_conf \<Rightarrow> http_req \<Rightarrow> QueryParams \<Rightarrow> ('n, 'w) handler" where
  "handleRemove S K H r qp st =
   (if \<not> CheckRequestPerm H r PermRemove then (an_code 401, st)
    else if hr_Method r \<noteq> ''DELETE'' then (an_code 405, st)
    else if \<not> is_ok (hr_raw r) then (an_code 400, st)
    else case hr_map r of
      None \<Rightarrow> (an_code 400, st)
    | Some m \<Rightarrow>
       if length m \<noteq> 1 then (an_code 400, st)
       else case map_of m ''id'' of
         None \<Rightarrow> (an_code 400, st)
       | Some remoteID \<Rightarrow>
          let rn = \<lparr>rn_Id = remoteID\<rparr> in
          (case op_Remove S rn (hs_node st) of
             (None, n) \<Rightarrow> (an_code 200, st\<lparr>hs_node := n\<rparr>)
           | (Some e, n) \<Rightarrow>
              if e = ErrNotLeader then
                on_leader S K r qp (\<lambda>addr w. case ck_RemoveNode K rn addr (hr_Auth r) w of
                  (None, w) \<Rightarrow> (an_code 200, w)
                | (Some e, w) \<Rightarrow> (if e = ''unauthorized'' then an_error ''remote remove node not authorized'' 401
                    else an_error e 500, w)) (st\<lparr>hs_node := n\<rparr>)
              else (an_error (op_text S e) 500, st\<lparr>hs_node := n\<rparr>)))"

definition handleBackup ::
  "'n store_ops \<Rightarrow> 'w cluster_ops \<Rightarrow> http_conf \<Rightarrow> http_req \<Rightarrow> QueryParams \<Rightarrow> ('n, 'w) handler" where
  "handleBackup S K H r qp st =
   (if \<not> CheckRequestPerm H r PermBackup then (an_code 401, st)
    else if hr_Method r \<noteq> ''GET'' then (an_code 405, st)
    else
      let br = \<lparr>br_Format = qp_BackupFormat qp, br_Leader = \<not> HasKey ''noleader'' qp,
                br_Vacuum = HasKey ''vacuum'' qp, br_Compress = HasKey ''compress'' qp\<rparr> in
      (case op_Backup S br (hs_node st) of
         (Inr b, n) \<Rightarrow> ((an_code 200)\<lparr>an_body := HB_Data b\<rparr>, st\<lparr>hs_node := n\<rparr>)
       | (Inl e, n) \<Rightarrow>
          if e = ErrNotLeader then
            on_leader S K r qp (\<lambda>addr w. case ck_Backup K br addr (hr_Auth r) w of
              (Inr b, w) \<Rightarrow> ((an_code 200)\<lparr>an_body := HB_Data b\<rparr>, w)
            | (Inl e, w) \<Rightarrow> (if e = ''unauthorized'' then an_error ''remote backup not authorized'' 401
                else an_error e 500, w)) (st\<lparr>hs_node := n\<rparr>)
          else (an_error (op_text S e) (if e = ErrInvalidVacuum then 400 else 500), st\<lparr>hs_node := n\<rparr>)))"

definition remote_load_error :: "string \<Rightarrow> http_ans" where
  "remote_load_error e = (if e = ''unauthorized'' then an_error ''remote load not authorized'' 401 else an_error e 500)"

definition executeRequestFromStrings :: "string list \<Rightarrow> bool \<Rightarrow> bool \<Rightarrow> ExecuteRequest" where
  "executeRequestFromStrings ss timings tx = \<lparr>er_Request = Some \<lparr>Transaction = tx,
     Statements = map (\<lambda>q. \<lparr>Sql = q, Parameters = [], ForceQuery = False\<rparr>) ss, DbTimeout = 0\<rparr>, er_Timings = timings\<rparr>"

text \<open>A load of a SQLite file or, if the data is not one, of SQL text. The leader's address is asked
  for first in any case.\<close>

definition handleLoad ::
  "'n store_ops \<Rightarrow> 'w cluster_ops \<Rightarrow> http_conf \<Rightarrow> http_req \<Rightarrow> QueryParams \<Rightarrow> ('n, 'w) handler" where
  "handleLoad S K H r qp st =
   (if \<not> CheckRequestPerm H r PermLoad then (an_code 401, st)
    else if hr_Method r \<noteq> ''POST'' then (an_code 405, st)
    else case svc_LeaderAddr S (hs_node st) of
      Inl e \<Rightarrow> (no_leader e, st)
    | Inr ldrAddr \<Rightarrow> (case hr_raw r of
        Inl e \<Rightarrow> (an_error e 400, st)
      | Inr b \<Rightarrow>
         let retries = qp_int (hc_parse H) ''retries'' 0 qp in
         if IsValidSQLiteData b then
           (case op_Load S \<lparr>lr_Data = b\<rparr> (hs_node st) of
              (None, n) \<Rightarrow> (an_json NewResponse, st\<lparr>hs_node := n\<rparr>)
            | (Some e, n) \<Rightarrow>
               if e \<noteq> ErrNotLeader then (an_error (op_text S e) 500, st\<lparr>hs_node := n\<rparr>)
               else (case DoRedirect S K r qp n (hs_net st) of
                   (Some a, w) \<Rightarrow> (a, st\<lparr>hs_node := n, hs_net := w\<rparr>)
                 | (None, w) \<Rightarrow> (case ck_Load K \<lparr>lr_Data = b\<rparr> ldrAddr (hr_Auth r) retries w of
                     (Some e, w) \<Rightarrow> (served_by ldrAddr (remote_load_error e), st\<lparr>hs_node := n, hs_net := w\<rparr>)
                   | (None, w) \<Rightarrow> (served_by ldrAddr (an_json NewResponse), st\<lparr>hs_node := n, hs_net := w\<rparr>))))
         else
           let er = executeRequestFromStrings [bytes_string b] (HasKey ''timings'' qp) False in
           (case op_Execute S er (hs_node st) of
              (Inr (rs, _), n) \<Rightarrow> (an_json (NewResponse\<lparr>rp_Execute := Some rs\<rparr>), st\<lparr>hs_node := n\<rparr>)
            | (Inl e, n) \<Rightarrow>
               if e \<noteq> ErrNotLeader then (an_json (NewResponse\<lparr>rp_Error := op_text S e\<rparr>), st\<lparr>hs_node := n\<rparr>)
               else (case DoRedirect S K r qp n (hs_net st) of
                   (Some a, w) \<Rightarrow> (a, st\<lparr>hs_node := n, hs_net := w\<rparr>)
                 | (None, w) \<Rightarrow> (case ck_Execute K er ldrAddr (hr_Auth r) retries w of
                     (Inl e, w) \<Rightarrow> (served_by ldrAddr (remote_load_error e), st\<lparr>hs_node := n, hs_net := w\<rparr>)
                   | (Inr (rs, _), w) \<Rightarrow> (served_by ldrAddr (an_json (NewResponse\<lparr>rp_Execute := Some rs\<rparr>)),
                       st\<lparr>hs_node := n, hs_net := w\<rparr>))))))"

text \<open>Booting looks at the header of the file before it hands the reader over.\<close>

definition handleBoot :: "'n store_ops \<Rightarrow> http_conf \<Rightarrow> http_req \<Rightarrow> ('n, 'w) handler" where
  "handleBoot S H r st =
   (if \<not> CheckRequestPerm H r PermLoad then (an_code 401, st)
    else if hr_Method r \<noteq> ''POST'' then (an_code 405, st)
    else case hr_raw r of
      Inl e \<Rightarrow> (an_error e 503, st)
    | Inr b \<Rightarrow>
       if length b < 32 then (an_error ''EOF'' 503, st)
       else if \<not> IsValidSQLiteData (take 32 b) then (an_error ''invalid SQLite data'' 400, st)
       else (case op_ReadFrom S b (hs_node st) of
           (Some e, n) \<Rightarrow> (an_error (op_text S e) 503, st\<lparr>hs_node := n\<rparr>)
         | (None, n) \<Rightarrow> (an_code 200, st\<lparr>hs_node := n\<rparr>)))"

text \<open>The number of trailing logs is converted to an unsigned 64-bit one.\<close>

definition handleSnapshot :: "'n store_ops \<Rightarrow> http_conf \<Rightarrow> http_req \<Rightarrow> QueryParams \<Rightarrow> ('n, 'w) handler" where
  "handleSnapshot S H r qp st =
   (if \<not> CheckRequestPerm H r PermSnapshot then (an_code 401, st)
    else if hr_Method r \<noteq> ''POST'' then (an_code 405, st)
    else case op_Snapshot S (nat (qp_int (hc_parse H) ''trailing_logs'' 0 qp mod 2 ^ 64)) (hs_node st) of
      (None, n) \<Rightarrow> (an_code 200, st\<lparr>hs_node := n\<rparr>)
    | (Some e, n) \<Rightarrow> (if e = ErrNothingNewToSnapshot then an_code 204 else an_error (op_text S e) 500, st\<lparr>hs_node := n\<rparr>))"

definition handleReadyz ::
  "'n store_ops \<Rightarrow> 'w cluster_ops \<Rightarrow> http_conf \<Rightarrow> http_req \<Rightarrow> QueryParams \<Rightarrow> ('n, 'w) handler" where
  "handleReadyz S K H r qp st =
   (if \<not> CheckRequestPerm H r PermReady then (an_code 401, st)
    else if hr_Method r \<noteq> ''GET'' then (an_code 405, st)
    else if HasKey ''noleader'' qp then (an_error ''[+]node ok'' 200, st)
    else case svc_LeaderAddr S (hs_node st) of
      Inl ErrLeaderNotFound \<Rightarrow> (an_error (''[+]node ok'' @ [CHR 0x0A] @ ''[+]leader does not exist'') 503, st)
    | Inl (LeaderErr e) \<Rightarrow> (an_error (''leader address: '' @ e) 500, st)
    | Inr lAddr \<Rightarrow> (case ck_GetNodeMeta K lAddr (qp_int (hc_parse H) ''retries'' 0 qp) (hs_net st) of
        (Inl e, w) \<Rightarrow> (an_error (''[+]node ok'' @ [CHR 0x0A] @ ''[+]leader not contactable: '' @ e) 503, st\<lparr>hs_net := w\<rparr>)
      | (Inr _, w) \<Rightarrow>
         let st = st\<lparr>hs_net := w\<rparr>; leader_ok = ''[+]node ok'' @ [CHR 0x0A] @ ''[+]leader ok'' @ [CHR 0x0A] in
         if \<not> op_Ready S (hs_node st) then (an_error (leader_ok @ ''[+]store not ready'') 503, st)
         else if HasKey ''sync'' qp then
           (case op_Committed S (hs_node st) of
              Some e \<Rightarrow> (an_error (leader_ok @ ''[+]store ok'' @ [CHR 0x0A] @ ''[+]sync '' @ op_text S e) 503, st)
            | None \<Rightarrow> (an_error (leader_ok @ ''[+]store ok'' @ [CHR 0x0A] @ ''[+]sync ok'') 200, st))
         else (an_error (leader_ok @ ''[+]store ok'') 200, st)))"

text \<open>The diagnostic pages: checked and then rendered.\<close>

definition diagnostic :: "http_conf \<Rightarrow> http_req \<Rightarrow> ('n, 'w) handler" where
  "diagnostic H r st = (if \<not> CheckRequestPerm H r PermStatus then (an_code 401, st) else (hc_page H r, st))"

section \<open>Routing\<close>

text \<open>The flush channel and its fate are the environment's part of a queued request.\<close>

definition ServeHTTP ::
  "'n store_ops \<Rightarrow> 'w cluster_ops \<Rightarrow> http_conf \<Rightarrow> chan \<Rightarrow> bool \<Rightarrow> http_req \<Rightarrow> ('n, 'w) handler" where
  "ServeHTTP S K H fc flushed r st =
   (if hr_Method r = ''OPTIONS'' then (an_code 200, st)
    else case NewQueryParams (hc_parse H) (hr_query r) of
      Inl e \<Rightarrow> (an_error e 400, st)
    | Inr params \<Rightarrow>
       let path = hr_Path r in
       if path = ''/'' \<or> path = '''' then ((an_code 302)\<lparr>an_location := Some ''/status''\<rparr>, st)
       else if has_prefix ''/db/execute'' path then handleExecute S K H r params fc flushed st
       else if has_prefix ''/db/query'' path then handleQuery S K H r params st
       else if has_prefix ''/db/request'' path then handleRequest S K H r params st
       else if has_prefix ''/db/backup'' path then handleBackup S K H r params st
       else if has_prefix ''/db/load'' path then handleLoad S K H r params st
       else if path = ''/boot'' then handleBoot S H r st
       else if path = ''/snapshot'' then handleSnapshot S H r params st
       else if has_prefix ''/remove'' path then handleRemove S K H r params st
       else if has_prefix ''/status'' path \<or> has_prefix ''/nodes'' path then diagnostic H r st
       else if has_prefix ''/readyz'' path then handleReadyz S K H r params st
       else if path = ''/debug/vars'' \<or> has_prefix ''/debug/pprof'' path then diagnostic H r st
       else (an_code 404, st))"

section \<open>The queue worker\<close>

text \<open>One attempt to execute a batch: here, or on the leader without credentials.\<close>

definition try_batch :: "'n store_ops \<Rightarrow> 'w cluster_ops \<Rightarrow> ExecuteRequest \<Rightarrow> 'n \<times> 'w \<Rightarrow> bool \<times> 'n \<times> 'w" where
  "try_batch S K er nw = (case nw of (n, w) \<Rightarrow> (case op_Execute S er n of
     (Inr _, n) \<Rightarrow> (True, n, w)
   | (Inl e, n) \<Rightarrow>
      if e = ErrNotLeader then
        (case op_LeaderAddr S n of
           Inl _ \<Rightarrow> (False, n, w)
         | Inr addr \<Rightarrow>
            if addr = '''' then (False, n, w)
            else (case ck_Execute K er addr None 0 w of
                (Inl _, w) \<Rightarrow> (False, n, w)
              | (Inr _, w) \<Rightarrow> (True, n, w)))
      else (False, n, w)))"

text \<open>Attempts until one succeeds, with a second in between in which the world may move on
  (\<open>env\<close>); \<open>None\<close> is a worker that never gets past the batch.\<close>

partial_function (option) batch_loop ::
  "'n store_ops \<Rightarrow> 'w cluster_ops \<Rightarrow> ExecuteRequest \<Rightarrow> ('n \<times> 'w \<Rightarrow> 'n \<times> 'w) \<Rightarrow> 'n \<times> 'w \<Rightarrow> ('n \<times> 'w) option" where
  "batch_loop S K er env nw = (case try_batch S K er nw of (done, nw) \<Rightarrow>
     if done then Some nw else batch_loop S K er env (env nw))"

text \<open>One turn of the worker: the batch is executed, its sequence number becomes the last one
  written, and the flush channels of those who wait are closed.\<close>

definition runQueue_step ::
  "'n store_ops \<Rightarrow> 'w cluster_ops \<Rightarrow> http_conf \<Rightarrow> ('n \<times> 'w \<Rightarrow> 'n \<times> 'w) \<Rightarrow> Statement q_request \<Rightarrow> 'n \<times> 'w \<Rightarrow>
   (int \<times> FlushChannel list \<times> 'n \<times> 'w) option" where
  "runQueue_step S K H env req nw =
   (let er = \<lparr>er_Request = Some \<lparr>Transaction = hc_queueTx H, Statements = req_Objects req, DbTimeout = 0\<rparr>, er_Timings = False\<rparr> in
    if req_Objects req = [] then Some (req_SequenceNumber req, req_Close req, nw)
    else (case batch_loop S K er env nw of
        None \<Rightarrow> None
      | Some nw \<Rightarrow> Some (req_SequenceNumber req, req_Close req, nw)))"

text \<open>The state before attempt \<open>k\<close> if all earlier ones failed.\<close>

fun before_attempt ::
  "'n store_ops \<Rightarrow> 'w cluster_ops \<Rightarrow> ExecuteRequest \<Rightarrow> ('n \<times> 'w \<Rightarrow> 'n \<times> 'w) \<Rightarrow> nat \<Rightarrow> 'n \<times> 'w \<Rightarrow> 'n \<times> 'w" where
  "before_attempt S K er env 0 nw = nw"
| "before_attempt S K er env (Suc k) nw = before_attempt S K er env k (env (snd (try_batch S K er nw)))"

lemma batch_loop_returns:
  assumes "fst (try_batch S K er (before_attempt S K er env k nw))"
  shows "batch_loop S K er env nw \<noteq> None"
  using assms
proof (induction k arbitrary: nw)
  case 0
  then show ?case by (subst batch_loop.simps) (auto split: prod.splits)
next
  case (Suc k)
  then have "batch_loop S K er env (env (snd (try_batch S K er nw))) \<noteq> None" by simp
  then show ?case by (subst batch_loop.simps) (simp add: case_prod_beta)
qed

lemma batch_loop_attempt:
  assumes "batch_loop S K er env nw = Some nw'"
  shows "\<exists>k. try_batch S K er (before_attempt S K er env k nw) = (True, nw') \<and>
     (\<forall>i<k. \<not> fst (try_batch S K er (before_attempt S K er env i nw)))"
  using assms
proof (rule batch_loop.raw_induct [where P = "\<lambda>S K er env nw nw'.
    \<exists>k. try_batch S K er (before_attempt S K er env k nw) = (True, nw') \<and>
     (\<forall>i<k. \<not> fst (try_batch S K er (before_attempt S K er env i nw)))", rotated], goal_cases)
  case (1 f S K er env nw nw')
  obtain d nw1 where t: "try_batch S K er nw = (d, nw1)" by (metis surj_pair)
  show ?case
  proof (cases d)
    case True
    then show ?thesis using 1(2) t by (intro exI [of _ 0]) auto
  next
    case False
    then have "f S K er env (env nw1) = Some nw'" using 1(2) t by simp
    from 1(1) [OF this] obtain k where "try_batch S K er (before_attempt S K er env k (env nw1)) = (True, nw')"
      and "\<forall>i<k. \<not> fst (try_batch S K er (before_attempt S K er env i (env nw1)))" by blast
    then show ?thesis using t False
      by (intro exI [of _ "Suc k"]) (auto simp: less_Suc_eq_0_disj)
  qed
qed

text \<open>An error that does not go away stops the worker, and with it every batch behind.\<close>

lemma batch_loop_stuck:
  assumes "\<And>nw. \<not> fst (try_batch S K er nw)"
  shows "batch_loop S K er env nw = None"
  using batch_loop_attempt [of S K er env nw] assms by (cases "batch_loop S K er env nw") (simp, metis fst_conv surj_pair)

section \<open>The cluster client behind the handlers\<close>

text \<open>The backup of another node is a stream of its own (\<open>bk\<close>).\<close>

definition client_ops ::
  "'w transport \<Rightarrow> cl_local \<Rightarrow>
   (BackupRequest \<Rightarrow> string \<Rightarrow> (string \<times> string) option \<Rightarrow> 'w \<Rightarrow> (string, bytes) result \<times> 'w) \<Rightarrow> 'w cluster_ops" where
  "client_ops T loc bk = \<lparr>ck_Execute = cl_Execute T, ck_Query = cl_Query T, ck_Request = cl_Request T,
     ck_Backup = bk, ck_Load = cl_Load T, ck_RemoveNode = cl_RemoveNode T, ck_GetNodeMeta = GetNodeMeta T loc\<rparr>"

section \<open>Refused requests\<close>

definition route_perms :: "string \<Rightarrow> string list" where
  "route_perms path =
   (if path = ''/'' \<or> path = '''' then []
    else if has_prefix ''/db/execute'' path then [PermExecute]
    else if has_prefix ''/db/query'' path then [PermQuery]
    else if has_prefix ''/db/request'' path then [PermQuery, PermExecute]
    else if has_prefix ''/db/backup'' path then [PermBackup]
    else if has_prefix ''/db/load'' path then [PermLoad]
    else if path = ''/boot'' then [PermLoad]
    else if path = ''/snapshot'' then [PermSnapshot]
    else if has_prefix ''/remove'' path then [PermRemove]
    else if has_prefix ''/status'' path \<or> has_prefix ''/nodes'' path then [PermStatus]
    else if has_prefix ''/readyz'' path then [PermReady]
    else if path = ''/debug/vars'' \<or> has_prefix ''/debug/pprof'' path then [PermStatus]
    else [])"

definition http_allowed :: "http_conf \<Rightarrow> http_req \<Rightarrow> bool" where
  "http_allowed H r \<longleftrightarrow> hr_Method r = ''OPTIONS'' \<or> list_all (CheckRequestPerm H r) (route_perms (hr_Path r))"

definition http_refusal :: "http_conf \<Rightarrow> http_req \<Rightarrow> http_ans \<Rightarrow> bool" where
  "http_refusal H r a \<longleftrightarrow> (case NewQueryParams (hc_parse H) (hr_query r) of
     Inl e \<Rightarrow> a = an_error e 400 | Inr _ \<Rightarrow> a = an_code 401)"

lemma CheckRequestPermAll_iff: "CheckRequestPermAll H r ps \<longleftrightarrow> list_all (CheckRequestPerm H r) ps"
  by (auto simp: CheckRequestPermAll_def CheckRequestPerm_def list_all_iff split: option.splits)

lemmas handler_defs = handleExecute_def handleQuery_def handleRequest_def handleBackup_def handleLoad_def
  handleBoot_def handleSnapshot_def handleRemove_def handleReadyz_def diagnostic_def CheckRequestPermAll_iff

lemma if_refused:
  assumes "\<not> list_all P (if c then ps else qs)"
    and "\<not> list_all P ps \<Longrightarrow> x = z" and "\<not> list_all P qs \<Longrightarrow> y = z"
  shows "(if c then x else y) = z"
  using assms by (cases c) simp_all

lemma ServeHTTP_refused:
  assumes "\<not> http_allowed H r"
  shows "snd (ServeHTTP S K H fc fl r st) = st \<and> http_refusal H r (fst (ServeHTTP S K H fc fl r st))"
proof (cases "NewQueryParams (hc_parse H) (hr_query r)")
  case (Inl e)
  then show ?thesis using assms by (simp add: ServeHTTP_def http_refusal_def http_allowed_def)
next
  case (Inr qp)
  have "\<not> list_all (CheckRequestPerm H r) (route_perms (hr_Path r))" and "hr_Method r \<noteq> ''OPTIONS''"
    using assms by (simp_all add: http_allowed_def)
  then have "ServeHTTP S K H fc fl r st = (an_code 401, st)"
    unfolding ServeHTTP_def Inr Let_def sum.case route_perms_def
    by (simp only: if_False) ((erule if_refused, simp add: handler_defs)+, simp)
  then show ?thesis using Inr by (simp add: http_refusal_def)
qed

text \<open>A request of a session comes with the environment's part of it.\<close>

definition serve :: "'n store_ops \<Rightarrow> 'w cluster_ops \<Rightarrow> http_conf \<Rightarrow> http_req \<times> chan \<times> bool \<Rightarrow> ('n, 'w) handler" where
  "serve S K H c = (case c of (r, fc, fl) \<Rightarrow> ServeHTTP S K H fc fl r)"

interpretation http: guarded_handler "serve S K H" "\<lambda>c. http_allowed H (fst c)" "\<lambda>c. http_refusal H (fst c)" for S K H
proof
  fix c :: "http_req \<times> chan \<times> bool" and n
  assume "\<not> http_allowed H (fst c)"
  then show "snd (serve S K H c n) = n \<and> http_refusal H (fst c) (fst (serve S K H c n))"
    using ServeHTTP_refused [of H "fst c"] by (cases c) (simp add: serve_def)
qed

text \<open>C17: Refused requests have no effect. Whatever requests reach the HTTP service and in whatever
  order, each that lacks a permission its route needs is refused, and the others get the answers,
  and leave the node, the queue and the rest of the cluster in the state, that they would without
  the refused ones in between.\<close>

theorem refused_requests_ignored:
  "run_session (serve S K H) (filter (\<lambda>c. http_allowed H (fst c)) cs) st =
     (filter (\<lambda>(c, _). http_allowed H (fst c)) (fst (run_session (serve S K H) cs st)),
      snd (run_session (serve S K H) cs st)) \<and>
   (\<forall>(c, a)\<in>set (fst (run_session (serve S K H) cs st)). \<not> http_allowed H (fst c) \<longrightarrow> http_refusal H (fst c) a)"
proof (rule conjI [OF http.session_allowed [where S = S and K = K and H = H and n = st and cs = cs]], rule ballI)
  fix x
  assume "x \<in> set (fst (run_session (serve S K H) cs st))"
  then have "(fst x, snd x) \<in> set (fst (run_session (serve S K H) cs st))" by simp
  from http.session_refused [where S = S and K = K and H = H, OF this]
  show "case x of (c, a) \<Rightarrow> \<not> http_allowed H (fst c) \<longrightarrow> http_refusal H (fst c) a" by (simp add: case_prod_beta)
qed

section \<open>Where results come from\<close>

lemma ex_answer_results:
  assumes "an_body (ex_answer qp res) = HB_JSON p" and "rp_Execute p = Some rs"
  shows "\<exists>idx. res = Inr (rs, idx)"
  using assms by (auto simp: ex_answer_def an_json_def an_code_def with_index_def NewResponse_def
      split: sum.splits prod.splits if_splits)

lemma remote_answer_results:
  assumes "an_body (remote_answer refusal what addr (ex_answer qp) res) = HB_JSON p" and "rp_Execute p = Some rs"
  shows "\<exists>idx. res = Inr (rs, idx)"
  using assms ex_answer_results [of qp _ p rs]
  by (auto simp: remote_answer_def an_error_def an_code_def split: sum.splits if_splits)

text \<open>An answer from the leader: not a redirection, and sent to the address the store knows.\<close>

lemma on_leader_results:
  assumes "on_leader S K r qp send st = (a, st')" and "an_body a = HB_JSON p"
  shows "\<exists>addr b. op_LeaderAddr S (hs_node st) = Inr addr \<and> send addr (hs_net st) = (b, hs_net st') \<and>
    a = served_by addr b \<and> an_body b = HB_JSON p \<and> hs_node st' = hs_node st"
  using assms
  by (auto simp: on_leader_def DoRedirect_def svc_LeaderAddr_def no_leader_def an_error_def an_code_def served_by_def
      split: if_splits prod.splits sum.splits leader_err.splits)

lemma run_execute_results:
  assumes "run_execute S K H r qp er st = (a, st')" and "an_body a = HB_JSON p" and "rp_Execute p = Some rs"
  shows "(\<exists>idx. op_Execute S er (hs_node st) = (Inr (rs, idx), hs_node st') \<and> hs_net st' = hs_net st \<and> an_servedBy a = None) \<or>
   (op_Execute S er (hs_node st) = (Inl ErrNotLeader, hs_node st') \<and>
     (\<exists>addr idx. op_LeaderAddr S (hs_node st') = Inr addr \<and> an_servedBy a = Some addr \<and>
       ck_Execute K er addr (hr_Auth r) (qp_int (hc_parse H) ''retries'' 0 qp) (hs_net st) = (Inr (rs, idx), hs_net st')))"
proof (cases "op_Execute S er (hs_node st)")
  case (Pair x n)
  show ?thesis
  proof (cases "x = Inl ErrNotLeader")
    case True
    let ?send = "\<lambda>addr w. case ck_Execute K er addr (hr_Auth r) (qp_int (hc_parse H) ''retries'' 0 qp) w of
        (res, w) \<Rightarrow> (remote_answer ''remote Execute not authorized'' ''Execute'' addr (ex_answer qp) res, w)"
    have "on_leader S K r qp ?send (st\<lparr>hs_node := n\<rparr>) = (a, st')"
      using assms(1) Pair True by (simp add: run_execute_def)
    from on_leader_results [OF this assms(2)] obtain addr b where l: "op_LeaderAddr S n = Inr addr"
      "?send addr (hs_net st) = (b, hs_net st')" "a = served_by addr b" "an_body b = HB_JSON p" "hs_node st' = n" by auto
    obtain res where "ck_Execute K er addr (hr_Auth r) (qp_int (hc_parse H) ''retries'' 0 qp) (hs_net st) = (res, hs_net st')"
      and "b = remote_answer ''remote Execute not authorized'' ''Execute'' addr (ex_answer qp) res"
      using l(2) by (auto split: prod.splits)
    then show ?thesis using remote_answer_results [of _ _ addr qp res p rs] l Pair True assms(3)
      by (auto simp: served_by_def)
  next
    case False
    then have "a = ex_answer qp (map_sum (op_text S) id x) \<and> st' = st\<lparr>hs_node := n\<rparr>"
      using assms(1) Pair by (auto simp: run_execute_def split: sum.splits)
    moreover from this obtain idx where "map_sum (op_text S) id x = Inr (rs, idx)"
      using ex_answer_results assms(2,3) by blast
    moreover have "an_servedBy (ex_answer qp res) = None" for res
      by (simp add: ex_answer_def an_json_def an_code_def split: sum.splits prod.splits)
    ultimately show ?thesis using Pair by (cases x) auto
  qed
qed

text \<open>The statements of an execute request: read from the body, and rewritten unless the client
  said not to.\<close>

definition request_statements :: "http_conf \<Rightarrow> http_req \<Rightarrow> QueryParams \<Rightarrow> Statement list \<Rightarrow> bool" where
  "request_statements H r qp stmts \<longleftrightarrow> (\<exists>ss. (if is_plain r then text_statement r else statements_of H r) = Inr ss \<and>
     (if HasKey ''noparse'' qp then stmts = ss
      else sql_Process (hc_rewriter H) ss (\<not> HasKey ''norwrandom'' qp) (\<not> HasKey ''norwtime'' qp) = Inr stmts))"

lemma http_execute_runs:
  assumes "http_execute S K H r qp st = (a, st')" and "an_body a = HB_JSON p"
  shows "\<exists>stmts. request_statements H r qp stmts \<and> run_execute S K H r qp (mk_er H qp stmts) st = (a, st')"
  using assms
  by (auto simp: http_execute_def request_statements_def an_error_def an_code_def split: sum.splits if_splits)

lemma ServeHTTP_execute:
  assumes "ServeHTTP S K H fc fl r st = (a, st')" and "has_prefix ''/db/execute'' (hr_Path r)"
    and "an_body a = HB_JSON p" and "rp_Execute p = Some rs"
  shows "\<exists>qp. NewQueryParams (hc_parse H) (hr_query r) = Inr qp \<and> CheckRequestPerm H r PermExecute \<and>
    hr_Method r = ''POST'' \<and> http_execute S K H r qp st = (a, st')"
proof -
  have "hr_Path r \<noteq> ''/'' \<and> hr_Path r \<noteq> ''''" using assms(2) by auto
  moreover obtain qp where q: "NewQueryParams (hc_parse H) (hr_query r) = Inr qp" and "hr_Method r \<noteq> ''OPTIONS''"
    using assms(1,3) by (cases "NewQueryParams (hc_parse H) (hr_query r)")
      (auto simp: ServeHTTP_def an_error_def an_code_def split: if_splits)
  ultimately have h: "handleExecute S K H r qp fc fl st = (a, st')"
    using assms(1,2) unfolding ServeHTTP_def Let_def by (simp only: if_False if_True sum.case simp_thms)
  have "\<not> HasKey ''queue'' qp"
    using h assms(3,4) by (auto simp: handleExecute_def queuedExecute_def an_json_def an_code_def an_error_def no_leader_def
        NewResponse_def Let_def split: if_splits sum.splits option.splits prod.splits leader_err.splits)
  then show ?thesis using h q assms(3) by (auto simp: handleExecute_def an_code_def split: if_splits)
qed

text \<open>C9: The results a client gets over HTTP are those of one store. When a request to execute is
  answered with results, the caller had the permission, the statements are those of the body
  (rewritten as asked), and either this node's store returned exactly these results and nothing
  went over the network, or it said it is not the leader and the store of the node it named as
  leader returned exactly these results, having been sent the caller's credentials and found them
  sufficient; that store executed the same request before at most as often as the client asked for
  retries, and nothing else happened to it.\<close>

theorem http_execute_served:
  assumes "delivers T S sv node_at" and "\<forall>e. op_text S e \<noteq> ''''"
    and "ServeHTTP S (client_ops T loc bk) H fc fl r st = (a, st')" and "has_prefix ''/db/execute'' (hr_Path r)"
    and "an_body a = HB_JSON p" and "rp_Execute p = Some rs"
  shows "\<exists>qp stmts. NewQueryParams (hc_parse H) (hr_query r) = Inr qp \<and> CheckRequestPerm H r PermExecute \<and>
    request_statements H r qp stmts \<and>
    (let er = mk_er H qp stmts in
     (\<exists>idx. op_Execute S er (hs_node st) = (Inr (rs, idx), hs_node st') \<and> hs_net st' = hs_net st \<and>
        an_servedBy a = None) \<or>
     (op_Execute S er (hs_node st) = (Inl ErrNotLeader, hs_node st') \<and>
       (\<exists>addr j idx n0. op_LeaderAddr S (hs_node st') = Inr addr \<and> an_servedBy a = Some addr \<and>
          checkCommandPerm (sv addr) (mk_command T_EXECUTE (Req_Execute er) (hr_Auth r)) PermExecute \<and>
          int j \<le> max 0 (qp_int (hc_parse H) ''retries'' 0 qp) \<and>
          n0 = ((\<lambda>n. snd (op_Execute S er n)) ^^ j) (node_at addr (hs_net st)) \<and>
          op_Execute S er n0 = (Inr (rs, idx), node_at addr (hs_net st')))))"
proof -
  obtain qp where q: "NewQueryParams (hc_parse H) (hr_query r) = Inr qp" "CheckRequestPerm H r PermExecute"
    "http_execute S (client_ops T loc bk) H r qp st = (a, st')"
    using ServeHTTP_execute [OF assms(3-6)] by blast
  obtain stmts where s: "request_statements H r qp stmts"
    "run_execute S (client_ops T loc bk) H r qp (mk_er H qp stmts) st = (a, st')"
    using http_execute_runs [OF q(3) assms(5)] by blast
  define er where "er = mk_er H qp stmts"
  have k: "ck_Execute (client_ops T loc bk) = cl_Execute T" by (simp add: client_ops_def)
  note run = run_execute_results [OF s(2) assms(5,6), folded er_def, unfolded k]
  let ?there = "\<exists>addr j idx n0. op_LeaderAddr S (hs_node st') = Inr addr \<and> an_servedBy a = Some addr \<and>
      checkCommandPerm (sv addr) (mk_command T_EXECUTE (Req_Execute er) (hr_Auth r)) PermExecute \<and>
      int j \<le> max 0 (qp_int (hc_parse H) ''retries'' 0 qp) \<and>
      n0 = ((\<lambda>n. snd (op_Execute S er n)) ^^ j) (node_at addr (hs_net st)) \<and>
      op_Execute S er n0 = (Inr (rs, idx), node_at addr (hs_net st'))"
  have there: ?there if "op_LeaderAddr S (hs_node st') = Inr addr" "an_servedBy a = Some addr"
    "cl_Execute T er addr (hr_Auth r) (qp_int (hc_parse H) ''retries'' 0 qp) (hs_net st) = (Inr (rs, idx), hs_net st')"
    for addr idx
    using cl_Execute_ok [OF assms(1,2) that(3)] that(1,2) by blast
  show ?thesis using run q(1,2) s(1) there unfolding Let_def er_def [symmetric]
    by (intro exI [of _ qp] exI [of _ stmts]) (auto simp flip: er_def)
qed

text \<open>Two nodes of the counting store: the one at zero is a follower, the other answers.\<close>

definition sample_cluster :: "nat store_ops" where
  "sample_cluster = sample_ops\<lparr>op_Execute := (\<lambda>er n. if n = 0 then (Inl ErrNotLeader, n) else (Inr ([], n + 1), n + 1))\<rparr>"

definition sample_http :: http_conf where
  "sample_http = \<lparr>hc_creds = sv_credentialStore sample_service,
     hc_parse = \<lparr>gp_ParseDuration = (\<lambda>_. None), gp_Atoi = num_Int64, gp_Float64 = sample_f64\<rparr>,
     hc_rewriter = (\<lambda>_ _ _. Inr None), hc_queueTx = False, hc_page = (\<lambda>_. an_code 200)\<rparr>"

definition sample_request :: "string \<Rightarrow> http_req" where
  "sample_request path = \<lparr>hr_Method = ''POST'', hr_Path = path, hr_RawQuery = ''retries=2'',
     hr_ContentType = ''application/json'', hr_Auth = Some (''bob'', ''pw''), hr_query = Inr [(''retries'', ''2'')],
     hr_raw = Inr [], hr_body = Body_Arr (map (write_stmt sample_float) sample_stmts) True, hr_map = None\<rparr>"

definition sample_client :: "(nat \<times> nat) cluster_ops" where
  "sample_client = client_ops (sample_transport sample_cluster)
     \<lparr>localNodeAddr = ''n1'', localServ = None, localVersion = ''8''\<rparr> (\<lambda>_ _ _ w. (Inl ''EOF'', w))"

definition sample_http_st :: "nat \<times> nat \<Rightarrow> (nat, nat \<times> nat) http_st" where
  "sample_http_st w = \<lparr>hs_node = 0, hs_net = w, hs_queue = New 4 2 0\<rparr>"

definition sample_served :: "http_ans \<times> (nat, nat \<times> nat) http_st" where
  "sample_served = ServeHTTP sample_cluster sample_client sample_http 0 False (sample_request ''/db/execute'') (sample_http_st (7, 2))"

lemma sample_answer: "an_body (fst sample_served) = HB_JSON (NewResponse\<lparr>rp_Execute := Some []\<rparr>)"
  by code_simp

lemma sample_answer_from: "an_servedBy (fst sample_served) = Some ''leader''"
  by code_simp

lemma sample_cluster_text: "\<forall>e. op_text sample_cluster e \<noteq> ''''"
  using sample_text by (simp add: sample_cluster_def sample_ops_def)

theorem http_execute_served_witness:
  "delivers (sample_transport sample_cluster) sample_cluster (\<lambda>_. sample_service) (\<lambda>_ w. fst w) \<and>
   (\<forall>e. op_text sample_cluster e \<noteq> '''') \<and> an_servedBy (fst sample_served) = Some ''leader'' \<and>
   (\<exists>stmts j idx n0. request_statements sample_http (sample_request ''/db/execute'') [(''retries'', ''2'')] stmts \<and>
      int j \<le> 2 \<and> n0 = ((\<lambda>n. snd (op_Execute sample_cluster (mk_er sample_http [(''retries'', ''2'')] stmts) n)) ^^ j) 7 \<and>
      op_Execute sample_cluster (mk_er sample_http [(''retries'', ''2'')] stmts) n0 = (Inr ([], idx), fst (hs_net (snd sample_served))))"
proof -
  let ?r = "sample_request ''/db/execute''" and ?qp = "[(''retries'', ''2'')]"
  have s: "ServeHTTP sample_cluster (client_ops (sample_transport sample_cluster)
      \<lparr>localNodeAddr = ''n1'', localServ = None, localVersion = ''8''\<rparr> (\<lambda>_ _ _ w. (Inl ''EOF'', w))) sample_http 0 False
      ?r (sample_http_st (7, 2)) = (fst sample_served, snd sample_served)"
    by (simp add: sample_served_def sample_client_def)
  have p: "has_prefix ''/db/execute'' (hr_Path ?r)" "rp_Execute (NewResponse\<lparr>rp_Execute := Some []\<rparr>) = Some []"
    "NewQueryParams (hc_parse sample_http) (hr_query ?r) = Inr ?qp" "qp_int (hc_parse sample_http) ''retries'' 0 ?qp = 2"
    by code_simp+
  have n: "hs_node (sample_http_st (7, 2)) = 0" "hs_net (sample_http_st (7, 2)) = (7, 2)"
    by (simp_all add: sample_http_st_def)
  show ?thesis
    using http_execute_served [OF sample_delivers sample_cluster_text s p(1) sample_answer p(2)]
      sample_delivers sample_cluster_text sample_answer_from
    unfolding p(3) Let_def n by (auto simp: p(4))
qed

definition sample_session :: "(http_req \<times> chan \<times> bool) list" where
  "sample_session = [(sample_request ''/db/load'', 0, False), (sample_request ''/db/execute'', 0, False)]"

theorem refused_requests_ignored_witness:
  "\<not> http_allowed sample_http (sample_request ''/db/load'') \<and> http_allowed sample_http (sample_request ''/db/execute'') \<and>
   snd (run_session (serve sample_cluster sample_client sample_http) [(sample_request ''/db/execute'', 0, False)] (sample_http_st (7, 2))) =
     snd (run_session (serve sample_cluster sample_client sample_http) sample_session (sample_http_st (7, 2))) \<and>
   (\<exists>a. ((sample_request ''/db/load'', 0, False), a) \<in>
        set (fst (run_session (serve sample_cluster sample_client sample_http) sample_session (sample_http_st (7, 2)))) \<and>
      http_refusal sample_http (sample_request ''/db/load'') a)"
proof -
  let ?run = "\<lambda>cs. run_session (serve sample_cluster sample_client sample_http) cs (sample_http_st (7, 2))"
  have p: "\<not> http_allowed sample_http (sample_request ''/db/load'')" "http_allowed sample_http (sample_request ''/db/execute'')"
    by code_simp+
  note t = refused_requests_ignored [of sample_cluster sample_client sample_http sample_session "sample_http_st (7, 2)"]
  have "filter (\<lambda>c. http_allowed sample_http (fst c)) sample_session = [(sample_request ''/db/execute'', 0, False)]"
    using p by (simp add: sample_session_def)
  with t have s: "snd (?run [(sample_request ''/db/execute'', 0, False)]) = snd (?run sample_session)" by simp
  obtain a where a: "((sample_request ''/db/load'', 0, False), a) \<in> set (fst (?run sample_session))"
    by (force simp: sample_session_def split: prod.splits)
  then have "http_refusal sample_http (sample_request ''/db/load'') a" using bspec [OF t [THEN conjunct2] a] p(1) by simp
  with p s a show ?thesis by blast
qed

section \<open>Statements as they are executed\<close>

lemma sql_Process_untouched:
  assumes "list_all (\<lambda>s. \<not> ContainsTime (ToLower (Sql s)) \<and> \<not> ContainsReturning (ToLower (Sql s))) ss"
  shows "sql_Process rw ss False rwtime = Inr ss"
  using assms by (induction ss) simp_all

text \<open>By default the handler of mixed requests leaves \<^verbatim>\<open>RANDOM()\<close> alone: the statements go to the
  store, and from there through the log, as they came.\<close>

lemma request_random_not_rewritten:
  assumes "CheckRequestPermAll H r [PermQuery, PermExecute]" and "hr_Method r = ''POST''"
    and "\<not> HasKey ''norwrandom'' qp" and "statements_of H r = Inr stmts"
    and "list_all (\<lambda>s. \<not> ContainsTime (ToLower (Sql s)) \<and> \<not> ContainsReturning (ToLower (Sql s))) stmts"
  shows "handleRequest S K H r qp st = run_request S K H r qp (mk_eqr H qp stmts) st"
  using assms by (simp add: handleRequest_def sql_Process_untouched)

text \<open>A queued write whose body is not JSON is acknowledged with a sequence number, and an empty list
  of statements is queued in its place.\<close>

lemma queued_invalid_json_acknowledged:
  assumes "HasKey ''noleader'' qp" and "hr_body r = Body_Err" and "\<not> HasKey ''wait'' qp"
    and "\<not> q_done (hs_queue st)" and "length (batchCh (hs_queue st)) < maxSize (hs_queue st)"
  shows "fst (queuedExecute S H r qp fc fl st) = an_json (NewResponse\<lparr>rp_SequenceNum := seqNum (hs_queue st) + 1\<rparr>)"
  using assms by (simp add: queuedExecute_def ParseRequest_def Let_def Write_check_def Write_send_def)

section \<open>What the worker promises\<close>


text \<open>A statement the store never accepts stops the queue for good: here a disallowed pragma, which
  every attempt is refused for.\<close>

lemma pragma_stops_queue:
  assumes "\<exists>stmt\<in>set (req_Objects req). IsBreakingPragma (Sql stmt)"
  shows "runQueue_step (node_ops E) K H env req nw = None"
proof -
  let ?er = "\<lparr>er_Request = Some \<lparr>Transaction = hc_queueTx H, Statements = req_Objects req, DbTimeout = 0\<rparr>, er_Timings = False\<rparr>"
  have "pragma_Check (er_Request ?er) = Inl (StoreErr ''disallowed pragma'')"
    using assms by (simp add: pragma_Check_def)
  then have "\<not> fst (try_batch (node_ops E) K ?er nw)" for nw
    by (cases nw) (auto simp: try_batch_def node_ops_def st_Execute_def from_answer_def Let_def split: prod.splits)
  then have "batch_loop (node_ops E) K ?er env nw = None" by (rule batch_loop_stuck)
  then show ?thesis using assms by (auto simp: runQueue_step_def Let_def)
qed

definition sample_batch :: "Statement q_request" where
  "sample_batch = \<lparr>req_SequenceNumber = 5, req_Objects = sample_stmts, req_flushChans = [3]\<rparr>"


end
