(* ===== verification/Snapshot_Recovery.thy ===== *)
theory Snapshot_Recovery
  imports Snapshot_Store
begin

text \<open>
  Crash safety of the snapshot store. A small program logic for the machine of
  \<open>Snapshot_Store\<close> carries an invariant through every step of a sink and of the start-up check: each
  directory on the way is one from which a start recovers the old or the new snapshot. The only
  exception is a directory in which the metadata of some snapshot cannot be read: such a start fails,
  and the last lemmas show that a crash can leave that.
\<close>

section \<open>A logic for the machine\<close>

definition seen :: "(sdir \<Rightarrow> bool) \<Rightarrow> fs \<Rightarrow> bool" where
  "seen R s \<longleftrightarrow> (\<forall>d\<in>set (fs_seen s). R d)"

text \<open>From a directory with \<open>I\<close>, all directories on the way have \<open>R\<close>; the last has \<open>J\<close> after success,
  \<open>E\<close> after an error.\<close>

definition trip :: "(sdir \<Rightarrow> bool) \<Rightarrow> (sdir \<Rightarrow> bool) \<Rightarrow> 'a fsop \<Rightarrow> ('a \<Rightarrow> sdir \<Rightarrow> bool) \<Rightarrow> (sdir \<Rightarrow> bool) \<Rightarrow> bool" where
  "trip R I m J E \<longleftrightarrow> (\<forall>s. seen R s \<longrightarrow> I (fs_dir s) \<longrightarrow> (case m s of
     (Inr x, s') \<Rightarrow> seen R s' \<and> J x (fs_dir s')
   | (Inl e, s') \<Rightarrow> seen R s' \<and> E (fs_dir s')))"

definition faulty :: "faults \<Rightarrow> bool" where
  "faulty flt \<longleftrightarrow> (\<exists>n. flt n \<noteq> None)"

lemma tripI:
  assumes "\<And>s. seen R s \<Longrightarrow> I (fs_dir s) \<Longrightarrow>
    (case m s of (Inr x, s') \<Rightarrow> seen R s' \<and> J x (fs_dir s') | (Inl e, s') \<Rightarrow> seen R s' \<and> E (fs_dir s'))"
  shows "trip R I m J E"
  using assms by (simp add: trip_def)

lemma tripD:
  assumes "trip R I m J E" "seen R s" "I (fs_dir s)"
  shows "case m s of (Inr x, s') \<Rightarrow> seen R s' \<and> J x (fs_dir s') | (Inl e, s') \<Rightarrow> seen R s' \<and> E (fs_dir s')"
  using assms by (simp add: trip_def)

lemma trip_weaken:
  assumes "trip R I m J E" "\<And>d. I' d \<Longrightarrow> I d" "\<And>x d. J x d \<Longrightarrow> J' x d" "\<And>d. E d \<Longrightarrow> E' d"
  shows "trip R I' m J' E'"
proof (rule tripI)
  fix s assume "seen R s" "I' (fs_dir s)"
  then have "case m s of (Inr x, s') \<Rightarrow> seen R s' \<and> J x (fs_dir s') | (Inl e, s') \<Rightarrow> seen R s' \<and> E (fs_dir s')"
    using tripD [OF assms(1)] assms(2) by simp
  then show "case m s of (Inr x, s') \<Rightarrow> seen R s' \<and> J' x (fs_dir s') | (Inl e, s') \<Rightarrow> seen R s' \<and> E' (fs_dir s')"
    using assms(3,4) by (auto split: prod.splits sum.splits)
qed

lemma trip_step:
  assumes "\<And>d. I d \<Longrightarrow> R (f d) \<and> J () (f d)" "\<And>d. I d \<Longrightarrow> faulty flt \<Longrightarrow> E d"
  shows "trip R I (fs_step flt f) J E"
proof (rule tripI)
  fix s assume s: "seen R s" "I (fs_dir s)"
  show "case fs_step flt f s of (Inr x, s') \<Rightarrow> seen R s' \<and> J x (fs_dir s') | (Inl e, s') \<Rightarrow> seen R s' \<and> E (fs_dir s')"
  proof (cases "flt (fs_ops s)")
    case None
    then show ?thesis using s assms(1) [OF s(2)] by (auto simp: fs_step_def seen_def)
  next
    case (Some e)
    then have "faulty flt" by (auto simp: faulty_def)
    then show ?thesis using s assms(2) Some by (simp add: fs_step_def seen_def)
  qed
qed

lemma trip_and_then:
  assumes "trip R I m J E" "\<And>x. trip R (J x) (k x) L E"
  shows "trip R I (and_then m k) L E"
proof (rule tripI)
  fix s assume s: "seen R s" "I (fs_dir s)"
  obtain r t where m: "m s = (r, t)" by (cases "m s")
  show "case and_then m k s of (Inr x, s') \<Rightarrow> seen R s' \<and> L x (fs_dir s') | (Inl e, s') \<Rightarrow> seen R s' \<and> E (fs_dir s')"
  proof (cases r)
    case (Inl e)
    then show ?thesis using tripD [OF assms(1) s] m by (simp add: and_then_def)
  next
    case (Inr x)
    then have "seen R t" "J x (fs_dir t)" using tripD [OF assms(1) s] m by simp_all
    from tripD [OF assms(2) this] show ?thesis using m Inr by (simp add: and_then_def)
  qed
qed

lemma trip_done: "(\<And>d. I d \<Longrightarrow> J x d) \<Longrightarrow> trip R I (done_with x) J E"
  by (simp add: trip_def done_with_def)

lemma trip_done_at: "J x d \<Longrightarrow> trip R (\<lambda>d'. d' = d) (done_with x) J E"
  by (rule trip_done) simp

lemma trip_fail: "(\<And>d. I d \<Longrightarrow> E d) \<Longrightarrow> trip R I (fail e) J E"
  by (simp add: trip_def fail_def)

lemma trip_for_each:
  assumes "\<And>x xs. trip R (I (x # xs)) (f x) (\<lambda>_. I xs) E"
  shows "trip R (I xs) (for_each f xs) (\<lambda>_. I []) E"
proof (induction xs)
  case Nil
  then show ?case by (simp add: trip_def)
next
  case (Cons x xs)
  have "trip R (I (x # xs)) (and_then (f x) (\<lambda>_. for_each f xs)) (\<lambda>_. I []) E"
    by (rule trip_and_then [OF assms Cons.IH])
  then show ?case by (simp add: trip_def)
qed

text \<open>An operation that looks at the directory first.\<close>

lemma trip_look:
  assumes "\<And>s. I (fs_dir s) \<Longrightarrow> m s = h (fs_dir s) s" "\<And>d. I d \<Longrightarrow> trip R (\<lambda>d'. d' = d) (h d) J E"
  shows "trip R I m J E"
proof (rule tripI)
  fix s assume s: "seen R s" "I (fs_dir s)"
  show "case m s of (Inr x, s') \<Rightarrow> seen R s' \<and> J x (fs_dir s') | (Inl e, s') \<Rightarrow> seen R s' \<and> E (fs_dir s')"
    using tripD [OF assms(2) [OF s(2)] s(1)] assms(1) [OF s(2)] by simp
qed

section \<open>The directory as a map\<close>

declare map_of_eq_Some_iff [simp del] Some_eq_map_of_iff [simp del]

lemma map_of_dir_update [simp]: "map_of (AList.update k v d) n = (if n = k then Some v else map_of d n)"
  by (simp add: update_conv)

lemma map_of_dir_delete [simp]: "map_of (AList.delete k d) n = (if n = k then None else map_of d n)"
  by (simp add: delete_conv)

lemma set_ReadDir [simp]: "set (ReadDir d) = set d"
  by (simp add: ReadDir_def)

lemma distinct_ReadDir [simp]: "distinct (map fst (ReadDir d)) = distinct (map fst d)"
proof -
  have "mset (map fst (ReadDir d)) = mset (map fst d)" by (simp add: ReadDir_def)
  then show ?thesis by (rule mset_eq_imp_distinct_iff)
qed

definition dir_meta :: "sdir \<Rightarrow> string \<Rightarrow> meta_file option" where
  "dir_meta d i = (case map_of d (DirN i) of Some (DirI x _) \<Rightarrow> Some x | _ \<Rightarrow> None)"

text \<open>All metadata can be read.\<close>

definition readable :: "sdir \<Rightarrow> bool" where
  "readable d \<longleftrightarrow> (\<forall>i x. dir_meta d i = Some x \<longrightarrow> (\<exists>m. x = Meta m))"

lemma dir_meta_mem:
  assumes "distinct (map fst d)"
  shows "dir_meta d i = Some x \<longleftrightarrow> (\<exists>b. (DirN i, DirI x b) \<in> set d)"
proof -
  have "(DirN i, y) \<in> set d \<longleftrightarrow> map_of d (DirN i) = Some y" for y
    using map_of_eq_Some_iff [OF assms] by simp
  then show ?thesis by (simp add: dir_meta_def split: option.splits inode.splits)
qed

lemma read_metas_readable:
  "(\<exists>ms. read_metas d = Inr ms) \<longleftrightarrow> (\<forall>i x b. (DirN i, DirI x b) \<in> set d \<longrightarrow> (\<exists>m. x = Meta m))"
proof (induction d rule: read_metas.induct)
  case (2 i x b d)
  show ?case
  proof (cases x)
    case (Meta m)
    have "(\<exists>ms. read_metas ((DirN i, DirI x b) # d) = Inr ms) \<longleftrightarrow> (\<exists>ms. read_metas d = Inr ms)"
      using Meta by (auto split: sum.splits)
    also have "\<dots> \<longleftrightarrow> (\<forall>i x b. (DirN i, DirI x b) \<in> set d \<longrightarrow> (\<exists>m. x = Meta m))"
      by (rule "2.IH" [OF Meta])
    also have "\<dots> \<longleftrightarrow> (\<forall>j y c. (DirN j, DirI y c) \<in> set ((DirN i, DirI x b) # d) \<longrightarrow> (\<exists>m. y = Meta m))"
      using Meta by fastforce
    finally show ?thesis .
  qed (simp_all, blast+)
qed auto

lemma read_metas_set:
  "read_metas d = Inr ms \<Longrightarrow> set ms = {m. \<exists>i b. (DirN i, DirI (Meta m) b) \<in> set d}"
proof (induction d arbitrary: ms rule: read_metas.induct)
  case (2 i x b d)
  obtain m ns where "x = Meta m" "read_metas d = Inr ns" "ms = m # ns"
    using "2.prems" by (cases x) (auto split: sum.splits)
  then show ?case using "2.IH" [of m ns] by auto
qed auto

lemma read_metas_distinct:
  "read_metas d = Inr ms \<Longrightarrow> distinct (map fst d) \<Longrightarrow>
   (\<forall>i m b. (DirN i, DirI (Meta m) b) \<in> set d \<longrightarrow> sm_ID m = i) \<Longrightarrow> distinct ms"
proof (induction d arbitrary: ms rule: read_metas.induct)
  case (2 i x b d)
  then show ?case
  proof (cases x)
    case (Meta m)
    then obtain ns where ns: "read_metas d = Inr ns" "ms = m # ns"
      using "2.prems"(1) by (auto split: sum.splits)
    have "distinct ns"
    proof (rule "2.IH" [OF Meta ns(1)])
      show "distinct (map fst d)" using "2.prems"(2) by simp
      show "\<forall>i m b. (DirN i, DirI (Meta m) b) \<in> set d \<longrightarrow> sm_ID m = i" using "2.prems"(3) by simp
    qed
    moreover have "m \<notin> set ns"
    proof
      assume "m \<in> set ns"
      then obtain j c where j: "(DirN j, DirI (Meta m) c) \<in> set d" using read_metas_set [OF ns(1)] by blast
      have "sm_ID m = j" using "2.prems"(3) j by simp
      moreover have "sm_ID m = i" using "2.prems"(3) Meta by simp
      ultimately have "j = i" by simp
      then show False using j "2.prems"(2) by force
    qed
    ultimately show ?thesis using ns by simp
  qed simp_all
qed simp_all

text \<open>What the list of snapshots is, in terms of the directory.\<close>

lemma getSnapshots_readable:
  assumes "distinct (map fst d)"
  shows "(\<exists>ms. getSnapshots d = Inr ms) \<longleftrightarrow> readable d"
proof -
  have "(\<exists>ms. getSnapshots d = Inr ms) \<longleftrightarrow> (\<exists>ms. read_metas (ReadDir d) = Inr ms)"
    by (auto simp: getSnapshots_def split: sum.splits)
  also have "\<dots> \<longleftrightarrow> readable d"
    by (auto simp: read_metas_readable readable_def dir_meta_mem [OF assms])
  finally show ?thesis .
qed

lemma getSnapshots_set:
  assumes "distinct (map fst d)" "getSnapshots d = Inr ms"
  shows "x \<in> set ms \<longleftrightarrow> (\<exists>i. dir_meta d i = Some (Meta x))" "sorted (map meta_key ms)"
proof -
  obtain ns where ns: "read_metas (ReadDir d) = Inr ns" "ms = sort_key meta_key ns"
    using assms(2) by (auto simp: getSnapshots_def split: sum.splits)
  show "x \<in> set ms \<longleftrightarrow> (\<exists>i. dir_meta d i = Some (Meta x))"
    using read_metas_set [OF ns(1)] ns(2) by (simp add: dir_meta_mem [OF assms(1)])
  show "sorted (map meta_key ms)" using ns(2) by simp
qed

lemma getSnapshots_distinct:
  assumes "distinct (map fst d)" "getSnapshots d = Inr ms" "\<And>i m. dir_meta d i = Some (Meta m) \<Longrightarrow> sm_ID m = i"
  shows "distinct ms"
proof -
  obtain ns where ns: "read_metas (ReadDir d) = Inr ns" "ms = sort_key meta_key ns"
    using assms(2) by (auto simp: getSnapshots_def split: sum.splits)
  have "distinct ns"
  proof (rule read_metas_distinct [OF ns(1)])
    show "\<forall>i m b. (DirN i, DirI (Meta m) b) \<in> set (ReadDir d) \<longrightarrow> sm_ID m = i"
      using assms(3) dir_meta_mem [OF assms(1)] unfolding set_ReadDir by blast
  qed (use assms(1) in simp)
  then show ?thesis using ns by simp
qed

lemma sorted_last_max:
  assumes "sorted (map f ms)" "m \<in> set ms" "\<And>x. x \<in> set ms \<Longrightarrow> x = m \<or> f x < f m"
  shows "last ms = m"
proof -
  have ne: "ms \<noteq> []" using assms(2) by auto
  have "ms = butlast ms @ [last ms]" using ne by simp
  then have "sorted (map f (butlast ms @ [last ms]))" "m \<in> set (butlast ms @ [last ms])" using assms(1,2) by simp_all
  then have "f m \<le> f (last ms)" by (auto simp: sorted_append simp del: append_butlast_last_id)
  then show ?thesis using assms(3) [of "last ms"] ne by (auto dest: leD)
qed

text \<open>The newest, and the one before.\<close>

lemma getSnapshots_newest:
  assumes d: "distinct (map fst d)" "readable d"
    and q: "dir_meta d q = Some (Meta m)"
    and less: "\<And>i m'. i \<noteq> q \<Longrightarrow> dir_meta d i = Some (Meta m') \<Longrightarrow> cmp_Less m' m"
  obtains ms where "getSnapshots d = Inr ms" "ms \<noteq> []" "last ms = m"
proof -
  obtain ms where ms: "getSnapshots d = Inr ms" using getSnapshots_readable [OF d(1)] d(2) by auto
  note s = getSnapshots_set [OF d(1) ms]
  have "m \<in> set ms" using s(1) [THEN iffD2, OF exI, OF q] .
  moreover have "x = m \<or> meta_key x < meta_key m" if x: "x \<in> set ms" for x
  proof -
    obtain i where i: "dir_meta d i = Some (Meta x)" using s(1) [THEN iffD1, OF x] by (elim exE)
    show ?thesis
      by (cases "i = q") (use i q less [of i x] in \<open>simp_all add: cmp_Less_key\<close>)
  qed
  ultimately have "last ms = m" by (rule sorted_last_max [OF s(2)])
  moreover have "ms \<noteq> []" using \<open>m \<in> set ms\<close> by auto
  ultimately show ?thesis using that [OF ms] by simp
qed

lemma getSnapshots_prev:
  assumes d: "distinct (map fst d)" and id: "\<And>i m. dir_meta d i = Some (Meta m) \<Longrightarrow> sm_ID m = i"
    and ms: "getSnapshots d = Inr ms" "ms \<noteq> []" "last ms = m" "sm_ID m \<noteq> p"
    and p: "dir_meta d p = Some (Meta mp)"
    and less: "\<And>i m'. i \<noteq> p \<Longrightarrow> i \<noteq> sm_ID m \<Longrightarrow> dir_meta d i = Some (Meta m') \<Longrightarrow> cmp_Less m' mp"
  shows "2 \<le> length ms" "ms ! (length ms - 2) = mp"
proof -
  note s = getSnapshots_set [OF d ms(1)]
  define zs where "zs = butlast ms"
  have zs: "ms = zs @ [m]" using ms(2,3) zs_def by (metis append_butlast_last_id)
  have "distinct ms" using getSnapshots_distinct [OF d ms(1)] id by blast
  then have "m \<notin> set zs" using zs by simp
  have "mp \<in> set ms" using s(1) [THEN iffD2, OF exI, OF p] .
  moreover have "mp \<noteq> m" using id [OF p] ms(4) by auto
  ultimately have mem: "mp \<in> set zs" using zs by auto
  have "x = mp \<or> meta_key x < meta_key mp" if "x \<in> set zs" for x
  proof -
    have "x \<in> set ms" using that zs by simp
    from s(1) [THEN iffD1, OF this] obtain i where i: "dir_meta d i = Some (Meta x)" by (elim exE)
    have "i \<noteq> sm_ID m"
    proof
      assume "i = sm_ID m"
      have "m \<in> set ms" using zs by simp
      from s(1) [THEN iffD1, OF this] obtain j where j: "dir_meta d j = Some (Meta m)" by (elim exE)
      then have "dir_meta d i = Some (Meta m)" using id [OF j] \<open>i = sm_ID m\<close> by simp
      then show False using i that \<open>m \<notin> set zs\<close> by auto
    qed
    then show ?thesis by (cases "i = p") (use i p less [of i x] in \<open>simp_all add: cmp_Less_key\<close>)
  qed
  note below = this
  have "sorted (map meta_key zs)" using s(2) zs by (simp add: sorted_append)
  from sorted_last_max [OF this mem below] have "last zs = mp" .
  moreover have "zs \<noteq> []" using mem by auto
  ultimately show "2 \<le> length ms" "ms ! (length ms - 2) = mp"
    using zs by (auto simp: nth_append last_conv_nth Suc_le_eq)
qed

lemma getSnapshots_none:
  assumes "distinct (map fst d)" "\<And>i. dir_meta d i = None"
  shows "getSnapshots d = Inr []"
proof -
  obtain ms where ms: "getSnapshots d = Inr ms"
    using getSnapshots_readable [OF assms(1)] assms(2) by (auto simp: readable_def)
  have "ms = []" using getSnapshots_set(1) [OF assms(1) ms] assms(2) by (cases ms) auto
  then show ?thesis using ms by simp
qed


lemma dir_meta_update [simp]:
  "dir_meta (AList.update n y d) i =
     (if n = DirN i then (case y of DirI x _ \<Rightarrow> Some x | _ \<Rightarrow> None) else dir_meta d i)"
  by (simp add: dir_meta_def)

lemma dir_meta_delete [simp]: "dir_meta (AList.delete n d) i = (if n = DirN i then None else dir_meta d i)"
  by (simp add: dir_meta_def)

lemma file_at_update [simp]:
  "file_at m (AList.update n y d) = (if m = n then (case y of FileI b \<Rightarrow> Some b | _ \<Rightarrow> None) else file_at m d)"
  by (simp add: file_at_def)

lemma file_at_delete [simp]: "file_at m (AList.delete n d) = (if m = n then None else file_at m d)"
  by (simp add: file_at_def)

text \<open>Directories where directories belong, files elsewhere.\<close>

fun kind_ok :: "fname \<Rightarrow> inode \<Rightarrow> bool" where
  "kind_ok (DirN _) (DirI _ _) = True"
| "kind_ok (TmpN _) (DirI _ _) = True"
| "kind_ok (DbN _) (FileI _) = True"
| "kind_ok (WalN _) (FileI _) = True"
| "kind_ok FlagN (FileI _) = True"
| "kind_ok _ _ = False"

definition wf_dir :: "sdir \<Rightarrow> bool" where
  "wf_dir d \<longleftrightarrow> distinct (map fst d) \<and> (\<forall>n x. map_of d n = Some x \<longrightarrow> kind_ok n x)"

lemma wf_dir_update [simp]: "wf_dir d \<Longrightarrow> kind_ok n x \<Longrightarrow> wf_dir (AList.update n x d)"
  by (simp add: wf_dir_def distinct_update)

lemma wf_dir_delete [simp]: "wf_dir d \<Longrightarrow> wf_dir (AList.delete n d)"
  by (simp add: wf_dir_def distinct_delete)

lemma wf_dir_distinct: "wf_dir d \<Longrightarrow> distinct (map fst d)"
  by (simp add: wf_dir_def)

lemma kind_ok_cases:
  "kind_ok (DirN i) x \<longleftrightarrow> (\<exists>m b. x = DirI m b)" "kind_ok (TmpN i) x \<longleftrightarrow> (\<exists>m b. x = DirI m b)"
  "kind_ok (DbN i) x \<longleftrightarrow> (\<exists>b. x = FileI b)" "kind_ok (WalN i) x \<longleftrightarrow> (\<exists>b. x = FileI b)"
  "kind_ok FlagN x \<longleftrightarrow> (\<exists>b. x = FileI b)"
  by (cases x; simp)+

lemma wf_dirD:
  assumes "wf_dir d"
  shows "map_of d (DirN i) = Some x \<Longrightarrow> \<exists>m b. x = DirI m b"
    and "map_of d (TmpN i) = Some x \<Longrightarrow> \<exists>m b. x = DirI m b"
    and "map_of d (DbN i) = Some x \<Longrightarrow> \<exists>b. x = FileI b"
    and "map_of d (WalN i) = Some x \<Longrightarrow> \<exists>b. x = FileI b"
  using assms by (meson wf_dir_def kind_ok_cases)+

lemma wf_tmp: "wf_dir d \<Longrightarrow> map_of d (TmpN i) \<noteq> None \<Longrightarrow> \<exists>m b. map_of d (TmpN i) = Some (DirI m b)"
  using wf_dirD(2) by blast

section \<open>What SQLite promises\<close>

definition good_db :: "bytes \<Rightarrow> bool" where
  "good_db b \<longleftrightarrow> IsValidSQLiteFile (Some b) \<and> IsDELETEModeEnabledSQLiteFile (Some b) = Some False"

text \<open>A checkpoint of a database in WAL mode succeeds. All contents of the file on the way are again those
  of a database in WAL mode, and from any of them a new checkpoint of the same WAL ends at the same
  contents. With no WAL there is nothing to write.\<close>

definition ck_law :: "checkpoint \<Rightarrow> bool" where
  "ck_law ck \<longleftrightarrow> (\<forall>b w. good_db b \<longrightarrow> (\<exists>bs. ck b w = Inr bs \<and>
       (\<forall>b'\<in>set bs. good_db b' \<and> (\<exists>bs'. ck b' w = Inr bs' \<and> last (b' # bs') = last (b # bs))))) \<and>
     (\<forall>b. good_db b \<longrightarrow> ck b None = Inr [])"

definition ck_final :: "checkpoint \<Rightarrow> bytes \<Rightarrow> bytes option \<Rightarrow> bytes" where
  "ck_final ck b w = (case ck b w of Inr bs \<Rightarrow> last (b # bs) | Inl _ \<Rightarrow> b)"

lemma ck_lawE:
  assumes "ck_law ck" "good_db b"
  obtains bs where "ck b w = Inr bs" "\<And>b'. b' \<in> set bs \<Longrightarrow> good_db b' \<and> ck_final ck b' w = ck_final ck b w"
    "last (b # bs) = ck_final ck b w" "good_db (last (b # bs))"
proof -
  obtain bs where bs: "ck b w = Inr bs"
      "\<forall>b'\<in>set bs. good_db b' \<and> (\<exists>bs'. ck b' w = Inr bs' \<and> last (b' # bs') = last (b # bs))"
    using assms(1) [unfolded ck_law_def, THEN conjunct1, rule_format, OF assms(2), of w] by (elim exE conjE)
  have "good_db b' \<and> ck_final ck b' w = ck_final ck b w" if "b' \<in> set bs" for b'
    using bs(2) [rule_format, OF that] bs(1) by (auto simp: ck_final_def)
  moreover have "good_db (last (b # bs))" using bs(2) assms(2) by auto
  ultimately show ?thesis using that [OF bs(1)] bs(1) by (simp add: ck_final_def)
qed

lemma ck_none: "ck_law ck \<Longrightarrow> good_db b \<Longrightarrow> ck b None = Inr []"
  by (simp add: ck_law_def)

lemma ck_final_none: "ck_law ck \<Longrightarrow> good_db b \<Longrightarrow> ck_final ck b None = b"
  by (simp add: ck_none ck_final_def)

section \<open>The states of a directory while a snapshot comes in\<close>

text \<open>The newest snapshot before, if there is one, and its database; the new metadata, and the database
  the new snapshot stands for.\<close>

record sess =
  se_old :: "(snap_meta \<times> bytes) option"
  se_meta :: snap_meta
  se_new :: bytes

abbreviation se_ID :: "sess \<Rightarrow> string" where
  "se_ID \<sigma> \<equiv> sm_ID (se_meta \<sigma>)"

definition apart :: "string \<Rightarrow> string \<Rightarrow> bool" where
  "apart i q \<longleftrightarrow> \<not> has_prefix i (q @ ''.db'')"

lemma apart_matches: "apart i q \<Longrightarrow> matches i n \<Longrightarrow> n \<noteq> DirN q \<and> n \<noteq> DbN q"
  by (auto simp: apart_def matches_def has_prefix_iff)

definition below :: "sess \<Rightarrow> sdir \<Rightarrow> bool" where
  "below \<sigma> d \<longleftrightarrow> (\<forall>i x. i \<noteq> se_ID \<sigma> \<longrightarrow> dir_meta d i = Some x \<longrightarrow> apart i (se_ID \<sigma>) \<and>
     (\<forall>m. x = Meta m \<longrightarrow> sm_ID m = i \<and> cmp_Less m (se_meta \<sigma>)))"

definition old_is :: "sess \<Rightarrow> sdir \<Rightarrow> bool" where
  "old_is \<sigma> d \<longleftrightarrow> (case se_old \<sigma> of
     None \<Rightarrow> \<forall>i. i \<noteq> se_ID \<sigma> \<longrightarrow> dir_meta d i = None
   | Some (mp, b) \<Rightarrow> sm_ID mp \<noteq> se_ID \<sigma> \<and> dir_meta d (sm_ID mp) = Some (Meta mp) \<and>
       (\<forall>i x. i \<noteq> se_ID \<sigma> \<longrightarrow> i \<noteq> sm_ID mp \<longrightarrow> dir_meta d i = Some x \<longrightarrow> (\<exists>m. x = Meta m \<and> cmp_Less m mp)) \<and>
       good_db b \<and> file_at (DbN (sm_ID mp)) d = Some b \<and> file_at (WalN (sm_ID mp)) d = None)"

text \<open>Before the new snapshot is in place.\<close>

definition phaseA :: "sess \<Rightarrow> sdir \<Rightarrow> bool" where
  "phaseA \<sigma> d \<longleftrightarrow> wf_dir d \<and> below \<sigma> d \<and> old_is \<sigma> d \<and> dir_meta d (se_ID \<sigma>) = None \<and>
     (\<forall>i. map_of d (TmpN i) \<noteq> None \<longrightarrow> i = se_ID \<sigma>) \<and>
     (\<forall>n. map_of d n \<noteq> None \<longrightarrow> matches (se_ID \<sigma>) n \<longrightarrow> n \<in> {TmpN (se_ID \<sigma>), DbN (se_ID \<sigma>), WalN (se_ID \<sigma>)})"

text \<open>After: its database file may still be that of the snapshot before, with the WAL beside it.\<close>

definition new_db :: "checkpoint \<Rightarrow> sess \<Rightarrow> sdir \<Rightarrow> bytes \<Rightarrow> bool" where
  "new_db ck \<sigma> d b \<longleftrightarrow> good_db b \<and> ck_final ck b (file_at (WalN (se_ID \<sigma>)) d) = se_new \<sigma>"

definition placed :: "sess \<Rightarrow> sdir \<Rightarrow> bool" where
  "placed \<sigma> d \<longleftrightarrow> wf_dir d \<and> below \<sigma> d \<and> (\<forall>i. map_of d (TmpN i) = None) \<and>
     (\<exists>x. dir_meta d (se_ID \<sigma>) = Some x \<and> (\<forall>m. x = Meta m \<longrightarrow> (\<exists>z. m = (se_meta \<sigma>)\<lparr>sm_Size := z\<rparr>)))"

definition unmerged :: "checkpoint \<Rightarrow> sess \<Rightarrow> sdir \<Rightarrow> bool" where
  "unmerged ck \<sigma> d \<longleftrightarrow> placed \<sigma> d \<and> old_is \<sigma> d \<and> file_at (DbN (se_ID \<sigma>)) d = None \<and>
     (\<exists>mp b. se_old \<sigma> = Some (mp, b) \<and> new_db ck \<sigma> d b)"

definition merging :: "checkpoint \<Rightarrow> sess \<Rightarrow> sdir \<Rightarrow> bool" where
  "merging ck \<sigma> d \<longleftrightarrow> placed \<sigma> d \<and> (\<exists>b. file_at (DbN (se_ID \<sigma>)) d = Some b \<and> new_db ck \<sigma> d b) \<and>
     (file_at (WalN (se_ID \<sigma>)) d \<noteq> None \<longrightarrow> (\<exists>i. i \<noteq> se_ID \<sigma> \<and> dir_meta d i \<noteq> None))"

definition settled :: "sess \<Rightarrow> sdir \<Rightarrow> bool" where
  "settled \<sigma> d \<longleftrightarrow> placed \<sigma> d \<and> good_db (se_new \<sigma>) \<and> file_at (DbN (se_ID \<sigma>)) d = Some (se_new \<sigma>) \<and>
     file_at (WalN (se_ID \<sigma>)) d = None"

definition recoverable :: "checkpoint \<Rightarrow> sess \<Rightarrow> sdir \<Rightarrow> bool" where
  "recoverable ck \<sigma> d \<longleftrightarrow> phaseA \<sigma> d \<or> unmerged ck \<sigma> d \<or> merging ck \<sigma> d"

lemma settled_merging: "ck_law ck \<Longrightarrow> settled \<sigma> d \<Longrightarrow> merging ck \<sigma> d"
  by (simp add: settled_def merging_def new_db_def ck_final_none)

lemma recoverable_phases:
  "phaseA \<sigma> d \<Longrightarrow> recoverable ck \<sigma> d" "unmerged ck \<sigma> d \<Longrightarrow> recoverable ck \<sigma> d"
  "merging ck \<sigma> d \<Longrightarrow> recoverable ck \<sigma> d" "ck_law ck \<Longrightarrow> settled \<sigma> d \<Longrightarrow> recoverable ck \<sigma> d"
  by (simp_all add: recoverable_def settled_merging)


section \<open>Steps before the snapshot is in place\<close>

lemma below_cong: "(\<And>i. i \<noteq> se_ID \<sigma> \<Longrightarrow> dir_meta d' i = dir_meta d i) \<Longrightarrow> below \<sigma> d' = below \<sigma> d"
  by (simp add: below_def cong: imp_cong)

lemma old_is_cong:
  assumes "\<And>i. i \<noteq> se_ID \<sigma> \<Longrightarrow> dir_meta d' i = dir_meta d i"
    and "\<And>i. i \<noteq> se_ID \<sigma> \<Longrightarrow> file_at (DbN i) d' = file_at (DbN i) d \<and> file_at (WalN i) d' = file_at (WalN i) d"
  shows "old_is \<sigma> d' = old_is \<sigma> d"
  using assms by (simp add: old_is_def split: option.splits cong: imp_cong conj_cong)

text \<open>The names a sink works on do not touch the snapshots there were.\<close>

definition own :: "sess \<Rightarrow> fname \<Rightarrow> bool" where
  "own \<sigma> n \<longleftrightarrow> n \<in> {TmpN (se_ID \<sigma>), DbN (se_ID \<sigma>), WalN (se_ID \<sigma>), DirN (se_ID \<sigma>), FlagN}"

lemma own_frame [simp]:
  assumes "own \<sigma> n"
  shows "below \<sigma> (AList.update n x d) = below \<sigma> d" "below \<sigma> (AList.delete n d) = below \<sigma> d"
    and "old_is \<sigma> (AList.update n x d) = old_is \<sigma> d" "old_is \<sigma> (AList.delete n d) = old_is \<sigma> d"
  using assms unfolding own_def by (auto intro!: below_cong old_is_cong)

lemma own_names [simp]: "own \<sigma> (TmpN (se_ID \<sigma>))" "own \<sigma> (DbN (se_ID \<sigma>))" "own \<sigma> (WalN (se_ID \<sigma>))"
    "own \<sigma> (DirN (se_ID \<sigma>))" "own \<sigma> FlagN"
  by (simp_all add: own_def)

definition tidy :: "sess \<Rightarrow> sdir \<Rightarrow> bool" where
  "tidy \<sigma> d \<longleftrightarrow> dir_meta d (se_ID \<sigma>) = None \<and> (\<forall>i. map_of d (TmpN i) \<noteq> None \<longrightarrow> i = se_ID \<sigma>) \<and>
     (\<forall>n. map_of d n \<noteq> None \<longrightarrow> matches (se_ID \<sigma>) n \<longrightarrow> n \<in> {TmpN (se_ID \<sigma>), DbN (se_ID \<sigma>), WalN (se_ID \<sigma>)})"

lemma phaseA_tidy: "phaseA \<sigma> d \<longleftrightarrow> wf_dir d \<and> below \<sigma> d \<and> old_is \<sigma> d \<and> tidy \<sigma> d"
  by (simp add: phaseA_def tidy_def)

lemma phaseA_tmpD: "phaseA \<sigma> d \<Longrightarrow> i \<noteq> se_ID \<sigma> \<Longrightarrow> map_of d (TmpN i) = None"
  unfolding phaseA_def by blast

lemma tidy_update:
  "tidy \<sigma> d \<Longrightarrow> n \<in> {TmpN (se_ID \<sigma>), DbN (se_ID \<sigma>), WalN (se_ID \<sigma>)} \<Longrightarrow> tidy \<sigma> (AList.update n x d)"
  unfolding tidy_def by (auto split: if_splits)

lemma phaseA_delete:
  assumes "phaseA \<sigma> d" "n \<in> {TmpN (se_ID \<sigma>), DbN (se_ID \<sigma>), WalN (se_ID \<sigma>)}"
  shows "phaseA \<sigma> (AList.delete n d)"
proof -
  have "own \<sigma> n" using assms(2) by (auto simp: own_def)
  moreover have "tidy \<sigma> (AList.delete n d)" using assms unfolding tidy_def phaseA_tidy by (auto split: if_splits)
  ultimately show ?thesis using assms(1) by (simp add: phaseA_tidy)
qed

lemma phaseA_update_tmp: "phaseA \<sigma> d \<Longrightarrow> phaseA \<sigma> (AList.update (TmpN (se_ID \<sigma>)) (DirI x b) d)"
  by (simp add: phaseA_tidy tidy_update)

lemma phaseA_update_file:
  "phaseA \<sigma> d \<Longrightarrow> n \<in> {DbN (se_ID \<sigma>), WalN (se_ID \<sigma>)} \<Longrightarrow> phaseA \<sigma> (AList.update n (FileI b) d)"
  by (elim insertE emptyE) (simp_all add: phaseA_tidy tidy_update)

lemma phaseA_put_data: "phaseA \<sigma> d \<Longrightarrow> phaseA \<sigma> (put_data (se_ID \<sigma>) b d)"
  by (simp add: put_data_def phaseA_update_tmp split: option.splits inode.splits)

lemma phaseA_put_meta: "phaseA \<sigma> d \<Longrightarrow> phaseA \<sigma> (put_meta (TmpN (se_ID \<sigma>)) x d)"
  by (simp add: put_meta_def phaseA_update_tmp split: option.splits inode.splits)

lemma set_tmp_dirs: "set (tmp_dirs d) = {i. \<exists>m b. (TmpN i, DirI m b) \<in> set d}"
  by (induction d rule: tmp_dirs.induct) auto

lemma distinct_tmp_dirs: "distinct (map fst d) \<Longrightarrow> distinct (tmp_dirs d)"
  by (induction d rule: tmp_dirs.induct) (force simp: set_tmp_dirs)+

lemma tmp_dirs_map_of:
  assumes "wf_dir d"
  shows "i \<in> set (tmp_dirs (ReadDir d)) \<longleftrightarrow> map_of d (TmpN i) \<noteq> None"
proof -
  have "i \<in> set (tmp_dirs (ReadDir d)) \<longleftrightarrow> (\<exists>m b. map_of d (TmpN i) = Some (DirI m b))"
    using assms by (simp add: set_tmp_dirs wf_dir_def map_of_eq_Some_iff)
  then show ?thesis using wf_dirD(2) [OF assms] by blast
qed

lemma glob_map_of: "n \<in> set (glob i d) \<longleftrightarrow> map_of d n \<noteq> None \<and> matches i n"
  by (auto simp: glob_def map_of_eq_None_iff)

lemma distinct_glob: "distinct (map fst d) \<Longrightarrow> distinct (glob i d)"
  by (simp add: glob_def)

definition leftover :: "sess \<Rightarrow> fname list \<Rightarrow> sdir \<Rightarrow> bool" where
  "leftover \<sigma> ns d \<longleftrightarrow> phaseA \<sigma> d \<and> map_of d (TmpN (se_ID \<sigma>)) \<noteq> None \<and> distinct ns \<and>
     (\<forall>n\<in>set ns. map_of d n \<noteq> None \<and> n \<in> {DbN (se_ID \<sigma>), WalN (se_ID \<sigma>)})"

lemma trip_os_Remove:
  "trip (recoverable ck \<sigma>) (leftover \<sigma> (n # ns)) (os_Remove flt n) (\<lambda>_. leftover \<sigma> ns)
     (\<lambda>d. phaseA \<sigma> d \<and> faulty flt)"
proof (rule trip_look [where h = "\<lambda>_. fs_step flt (AList.delete n)"])
  fix s :: fs assume "leftover \<sigma> (n # ns) (fs_dir s)"
  then obtain x where x: "map_of (fs_dir s) n = Some x" "wf_dir (fs_dir s)" "n \<in> {DbN (se_ID \<sigma>), WalN (se_ID \<sigma>)}"
    by (auto simp: leftover_def phaseA_def)
  then have "\<exists>b. x = FileI b" using wf_dirD(3,4) [OF x(2)] by (elim insertE emptyE) simp_all
  then show "os_Remove flt n s = fs_step flt (AList.delete n) s" using x by (auto simp: os_Remove_def)
next
  fix d assume "leftover \<sigma> (n # ns) d"
  then show "trip (recoverable ck \<sigma>) (\<lambda>d'. d' = d) (fs_step flt (AList.delete n)) (\<lambda>_. leftover \<sigma> ns)
     (\<lambda>d. phaseA \<sigma> d \<and> faulty flt)"
    by (intro trip_step) (auto simp: leftover_def phaseA_delete recoverable_phases)
qed

definition no_tmp :: "sdir \<Rightarrow> bool" where
  "no_tmp d \<longleftrightarrow> (\<forall>i. map_of d (TmpN i) = None)"

lemma trip_remove_dir:
  assumes "\<And>d. I d \<Longrightarrow> \<exists>x b. map_of d n = Some (DirI x b)"
    and "\<And>d. I d \<Longrightarrow> R (AList.update n (DirI NoMeta None) d) \<and> M (AList.update n (DirI NoMeta None) d)"
    and "\<And>d. M d \<Longrightarrow> R (AList.delete n d) \<and> J () (AList.delete n d)"
    and "\<And>d. I d \<or> M d \<Longrightarrow> faulty flt \<Longrightarrow> E d"
  shows "trip R I (os_RemoveAll flt n) J E"
proof (rule trip_look [where h = "\<lambda>_. and_then (fs_step flt (AList.update n (DirI NoMeta None)))
    (\<lambda>_. fs_step flt (AList.delete n))"])
  fix s :: fs assume "I (fs_dir s)"
  then show "os_RemoveAll flt n s = and_then (fs_step flt (AList.update n (DirI NoMeta None)))
      (\<lambda>_. fs_step flt (AList.delete n)) s"
    using assms(1) [of "fs_dir s"] by (auto simp: os_RemoveAll_def)
next
  fix d assume "I d"
  then show "trip R (\<lambda>d'. d' = d) (and_then (fs_step flt (AList.update n (DirI NoMeta None)))
      (\<lambda>_. fs_step flt (AList.delete n))) J E"
    by (intro trip_and_then [where J = "\<lambda>_. M"] trip_step) (use assms in auto)
qed

lemma trip_remove_tmp:
  "trip (recoverable ck \<sigma>) (\<lambda>d. phaseA \<sigma> d \<and> map_of d (TmpN (se_ID \<sigma>)) \<noteq> None) (remove_tmp flt (se_ID \<sigma>))
     (\<lambda>_ d. phaseA \<sigma> d \<and> no_tmp d) (\<lambda>d. phaseA \<sigma> d \<and> faulty flt)"
proof (rule trip_look [where h = "\<lambda>d. and_then
    (for_each (os_Remove flt) (filter (\<lambda>n. n \<noteq> TmpN (se_ID \<sigma>)) (glob (se_ID \<sigma>) d)))
    (\<lambda>_. os_RemoveAll flt (TmpN (se_ID \<sigma>)))"])
  fix d assume d: "phaseA \<sigma> d \<and> map_of d (TmpN (se_ID \<sigma>)) \<noteq> None"
  let ?ns = "filter (\<lambda>n. n \<noteq> TmpN (se_ID \<sigma>)) (glob (se_ID \<sigma>) d)"
  have names: "n \<in> {DbN (se_ID \<sigma>), WalN (se_ID \<sigma>)}" "map_of d n \<noteq> None" if "n \<in> set ?ns" for n
  proof -
    have n: "map_of d n \<noteq> None" "matches (se_ID \<sigma>) n" "n \<noteq> TmpN (se_ID \<sigma>)"
      using that by (simp_all add: glob_map_of)
    have "\<forall>n. map_of d n \<noteq> None \<longrightarrow> matches (se_ID \<sigma>) n \<longrightarrow> n \<in> {TmpN (se_ID \<sigma>), DbN (se_ID \<sigma>), WalN (se_ID \<sigma>)}"
      using d by (simp add: phaseA_def)
    from this [rule_format, OF n(1,2)] show "n \<in> {DbN (se_ID \<sigma>), WalN (se_ID \<sigma>)}" using n(3) by blast
    show "map_of d n \<noteq> None" by (rule n(1))
  qed
  have "distinct ?ns" using d by (simp add: phaseA_def wf_dir_def distinct_glob)
  then have left: "leftover \<sigma> ?ns d" using d names unfolding leftover_def by blast
  have "trip (recoverable ck \<sigma>) (\<lambda>d'. d' = d) (for_each (os_Remove flt) ?ns)
      (\<lambda>_. leftover \<sigma> []) (\<lambda>d. phaseA \<sigma> d \<and> faulty flt)"
    by (rule trip_weaken [OF trip_for_each [where I = "leftover \<sigma>" and xs = ?ns, OF trip_os_Remove]])
      (use left in simp_all)
  moreover have "trip (recoverable ck \<sigma>) (leftover \<sigma> []) (os_RemoveAll flt (TmpN (se_ID \<sigma>)))
      (\<lambda>_ d. phaseA \<sigma> d \<and> no_tmp d) (\<lambda>d. phaseA \<sigma> d \<and> faulty flt)"
  proof (rule trip_remove_dir [where M = "phaseA \<sigma>"])
    fix d assume "leftover \<sigma> [] d"
    then have "wf_dir d" "map_of d (TmpN (se_ID \<sigma>)) \<noteq> None" by (simp_all add: leftover_def phaseA_def)
    then show "\<exists>x b. map_of d (TmpN (se_ID \<sigma>)) = Some (DirI x b)" by (rule wf_tmp)
  next
    fix d assume A: "phaseA \<sigma> d"
    then have "no_tmp (AList.delete (TmpN (se_ID \<sigma>)) d)" by (simp add: no_tmp_def phaseA_tmpD)
    then show "recoverable ck \<sigma> (AList.delete (TmpN (se_ID \<sigma>)) d) \<and>
        phaseA \<sigma> (AList.delete (TmpN (se_ID \<sigma>)) d) \<and> no_tmp (AList.delete (TmpN (se_ID \<sigma>)) d)"
      using phaseA_delete [OF A, of "TmpN (se_ID \<sigma>)"] by (simp add: recoverable_phases)
  next
    fix d assume "leftover \<sigma> [] d \<or> phaseA \<sigma> d" "faulty flt"
    then show "phaseA \<sigma> d \<and> faulty flt" by (elim disjE) (simp_all add: leftover_def)
  qed (simp add: leftover_def phaseA_update_tmp recoverable_phases)
  ultimately show "trip (recoverable ck \<sigma>) (\<lambda>d'. d' = d) (and_then
    (for_each (os_Remove flt) (filter (\<lambda>n. n \<noteq> TmpN (se_ID \<sigma>)) (glob (se_ID \<sigma>) d)))
    (\<lambda>_. os_RemoveAll flt (TmpN (se_ID \<sigma>)))) (\<lambda>_ d. phaseA \<sigma> d \<and> no_tmp d) (\<lambda>d. phaseA \<sigma> d \<and> faulty flt)"
    by (rule trip_and_then)
qed (simp add: remove_tmp_def)


lemma for_each_single: "for_each f [x] = f x"
  by (rule ext) (auto simp: and_then_def split: prod.splits sum.splits)

lemma singleton_list: "distinct xs \<Longrightarrow> set xs = {x} \<Longrightarrow> xs = [x]"
  by (cases xs; cases "tl xs") auto

lemma trip_RemoveAllTmp:
  "trip (recoverable ck \<sigma>) (phaseA \<sigma>) (RemoveAllTmpSnapshotData flt)
     (\<lambda>_ d. phaseA \<sigma> d \<and> no_tmp d) (\<lambda>d. phaseA \<sigma> d \<and> faulty flt)"
proof (rule trip_look [where h = "\<lambda>d. for_each (remove_tmp flt) (tmp_dirs (ReadDir d))"])
  fix d assume A: "phaseA \<sigma> d"
  then have wf: "wf_dir d" by (simp add: phaseA_def)
  show "trip (recoverable ck \<sigma>) (\<lambda>d'. d' = d) (for_each (remove_tmp flt) (tmp_dirs (ReadDir d)))
     (\<lambda>_ d. phaseA \<sigma> d \<and> no_tmp d) (\<lambda>d. phaseA \<sigma> d \<and> faulty flt)"
  proof (cases "map_of d (TmpN (se_ID \<sigma>)) = None")
    case True
    then have "no_tmp d" using phaseA_tmpD [OF A] unfolding no_tmp_def by metis
    moreover from this have "set (tmp_dirs (ReadDir d)) = {}" by (simp only: set_eq_iff tmp_dirs_map_of [OF wf]) (simp add: no_tmp_def)
    ultimately show ?thesis using A by (simp add: trip_def)
  next
    case False
    have "set (tmp_dirs (ReadDir d)) = {se_ID \<sigma>}"
    proof (rule set_eqI)
      fix i
      show "i \<in> set (tmp_dirs (ReadDir d)) \<longleftrightarrow> i \<in> {se_ID \<sigma>}"
        unfolding tmp_dirs_map_of [OF wf] by (cases "i = se_ID \<sigma>") (use False phaseA_tmpD [OF A] in simp_all)
    qed
    moreover have "distinct (tmp_dirs (ReadDir d))" using wf by (simp add: wf_dir_def distinct_tmp_dirs)
    ultimately have ts: "tmp_dirs (ReadDir d) = [se_ID \<sigma>]" by (simp add: singleton_list)
    have "trip (recoverable ck \<sigma>) (\<lambda>d'. d' = d) (remove_tmp flt (se_ID \<sigma>))
       (\<lambda>_ d. phaseA \<sigma> d \<and> no_tmp d) (\<lambda>d. phaseA \<sigma> d \<and> faulty flt)"
      by (rule trip_weaken [OF trip_remove_tmp]) (use A False in auto)
    then show ?thesis unfolding ts for_each_single .
  qed
qed (simp add: RemoveAllTmpSnapshotData_def)

section \<open>Steps after\<close>

lemma no_tmp_dirs: "wf_dir d \<Longrightarrow> no_tmp d \<Longrightarrow> tmp_dirs (ReadDir d) = []"
proof -
  assume d: "wf_dir d" "no_tmp d"
  have "i \<notin> set (tmp_dirs (ReadDir d))" for i
    unfolding tmp_dirs_map_of [OF d(1)] using d(2) by (simp add: no_tmp_def)
  then show ?thesis by (cases "tmp_dirs (ReadDir d)") (auto dest: meta_spec)
qed

lemma trip_RemoveAllTmp_none:
  assumes "\<And>d. I d \<Longrightarrow> wf_dir d \<and> no_tmp d"
  shows "trip R I (RemoveAllTmpSnapshotData flt) (\<lambda>_. I) E"
  by (rule tripI) (use assms in \<open>simp add: RemoveAllTmpSnapshotData_def no_tmp_dirs\<close>)

lemma placed_own:
  assumes "placed \<sigma> d" "n \<in> {DbN (se_ID \<sigma>), WalN (se_ID \<sigma>), FlagN}"
  shows "placed \<sigma> (AList.delete n d)" "placed \<sigma> (AList.update n (FileI b) d)"
proof -
  have "own \<sigma> n" "kind_ok n (FileI b)" "n \<noteq> DirN i" "TmpN i \<noteq> n" for i using assms(2) by (auto simp: own_def)
  then show "placed \<sigma> (AList.delete n d)" "placed \<sigma> (AList.update n (FileI b) d)"
    using assms(1) by (simp_all add: placed_def)
qed

lemma placed_put_meta:
  assumes "placed \<sigma> d" "\<And>m. x = Meta m \<Longrightarrow> \<exists>z. m = (se_meta \<sigma>)\<lparr>sm_Size := z\<rparr>"
  shows "placed \<sigma> (AList.update (DirN (se_ID \<sigma>)) (DirI x b) d)"
  using assms by (simp add: placed_def)

lemma recoverable_sync: "trip R (\<lambda>d. I d \<and> R d) (syncDir flt) (\<lambda>_ d. I d \<and> R d) (\<lambda>d. I d \<and> R d \<and> faulty flt)"
  unfolding syncDir_def by (rule trip_step) simp_all

text \<open>Checkpointing the new database.\<close>

lemma merging_write:
  assumes "merging ck \<sigma> d" "good_db b" "ck_final ck b (file_at (WalN (se_ID \<sigma>)) d) = se_new \<sigma>"
  shows "merging ck \<sigma> (AList.update (DbN (se_ID \<sigma>)) (FileI b) d)"
  using assms by (simp add: merging_def new_db_def placed_own)

lemma settled_delete_wal:
  assumes "placed \<sigma> d" "good_db (se_new \<sigma>)" "file_at (DbN (se_ID \<sigma>)) d = Some (se_new \<sigma>)"
  shows "settled \<sigma> (AList.delete (WalN (se_ID \<sigma>)) d)"
  using assms by (simp add: settled_def placed_own)

lemma trip_checkpoint_new:
  assumes law: "ck_law ck"
  shows "trip (recoverable ck \<sigma>) (merging ck \<sigma>) (CheckpointRemove ck flt (se_ID \<sigma>))
    (\<lambda>_. settled \<sigma>) (\<lambda>d. merging ck \<sigma> d \<and> faulty flt)"
proof (rule trip_look [where h = "\<lambda>d. and_then
    (for_each (\<lambda>b. fs_step flt (AList.update (DbN (se_ID \<sigma>)) (FileI b)))
      (projr (ck (the (file_at (DbN (se_ID \<sigma>)) d)) (file_at (WalN (se_ID \<sigma>)) d))))
    (\<lambda>_. fs_step flt (AList.delete (WalN (se_ID \<sigma>))))"])
  fix s :: fs assume "merging ck \<sigma> (fs_dir s)"
  then obtain b where b: "file_at (DbN (se_ID \<sigma>)) (fs_dir s) = Some b" "good_db b"
    by (auto simp: merging_def new_db_def)
  obtain bs where "ck b (file_at (WalN (se_ID \<sigma>)) (fs_dir s)) = Inr bs"
    using ck_lawE [OF law b(2)] by metis
  then show "CheckpointRemove ck flt (se_ID \<sigma>) s = and_then
    (for_each (\<lambda>b. fs_step flt (AList.update (DbN (se_ID \<sigma>)) (FileI b)))
      (projr (ck (the (file_at (DbN (se_ID \<sigma>)) (fs_dir s))) (file_at (WalN (se_ID \<sigma>)) (fs_dir s)))))
    (\<lambda>_. fs_step flt (AList.delete (WalN (se_ID \<sigma>)))) s"
    using b by (simp add: CheckpointRemove_def good_db_def)
next
  fix d assume d: "merging ck \<sigma> d"
  define w where "w = file_at (WalN (se_ID \<sigma>)) d"
  from d obtain b where b: "file_at (DbN (se_ID \<sigma>)) d = Some b" "good_db b" "ck_final ck b w = se_new \<sigma>"
    by (auto simp: merging_def new_db_def w_def)
  obtain bs where bs: "ck b w = Inr bs" "\<And>b'. b' \<in> set bs \<Longrightarrow> good_db b' \<and> ck_final ck b' w = ck_final ck b w"
    "last (b # bs) = ck_final ck b w" "good_db (last (b # bs))"
    using ck_lawE [OF law b(2)] by metis
  define I where "I = (\<lambda>cs d. merging ck \<sigma> d \<and> file_at (WalN (se_ID \<sigma>)) d = w \<and> set cs \<subseteq> set bs \<and>
    (\<exists>c. file_at (DbN (se_ID \<sigma>)) d = Some c \<and> last (c # cs) = se_new \<sigma>))"
  have "trip (recoverable ck \<sigma>) (I bs) (for_each (\<lambda>b. fs_step flt (AList.update (DbN (se_ID \<sigma>)) (FileI b))) bs)
      (\<lambda>_. I []) (\<lambda>d. merging ck \<sigma> d \<and> faulty flt)"
  proof (rule trip_for_each)
    fix c cs
    show "trip (recoverable ck \<sigma>) (I (c # cs)) (fs_step flt (AList.update (DbN (se_ID \<sigma>)) (FileI c)))
      (\<lambda>_. I cs) (\<lambda>d. merging ck \<sigma> d \<and> faulty flt)"
    proof (rule trip_step)
      fix d assume d: "I (c # cs) d"
      then have "c \<in> set bs" by (simp add: I_def)
      then have c: "good_db c" "ck_final ck c w = se_new \<sigma>" using bs(2) b(3) by simp_all
      have "merging ck \<sigma> d" "file_at (WalN (se_ID \<sigma>)) d = w" using d by (simp_all add: I_def)
      then have m: "merging ck \<sigma> (AList.update (DbN (se_ID \<sigma>)) (FileI c) d)" using c merging_write by simp
      moreover have "I cs (AList.update (DbN (se_ID \<sigma>)) (FileI c) d)" using d m by (simp add: I_def)
      ultimately show "recoverable ck \<sigma> (AList.update (DbN (se_ID \<sigma>)) (FileI c) d) \<and>
          I cs (AList.update (DbN (se_ID \<sigma>)) (FileI c) d)" by (simp add: recoverable_phases)
    qed (simp add: I_def)
  qed
  moreover have "trip (recoverable ck \<sigma>) (I []) (fs_step flt (AList.delete (WalN (se_ID \<sigma>))))
      (\<lambda>_. settled \<sigma>) (\<lambda>d. merging ck \<sigma> d \<and> faulty flt)"
  proof (rule trip_step)
    fix d assume "I [] d"
    then have d: "placed \<sigma> d" "good_db (se_new \<sigma>)" "file_at (DbN (se_ID \<sigma>)) d = Some (se_new \<sigma>)"
      by (auto simp: I_def merging_def new_db_def)
    from settled_delete_wal [OF this]
    show "recoverable ck \<sigma> (AList.delete (WalN (se_ID \<sigma>)) d) \<and> settled \<sigma> (AList.delete (WalN (se_ID \<sigma>)) d)"
      by (simp add: recoverable_phases(4) law)
  qed (simp add: I_def)
  ultimately have "trip (recoverable ck \<sigma>) (I bs) (and_then
    (for_each (\<lambda>b. fs_step flt (AList.update (DbN (se_ID \<sigma>)) (FileI b))) bs)
    (\<lambda>_. fs_step flt (AList.delete (WalN (se_ID \<sigma>))))) (\<lambda>_. settled \<sigma>) (\<lambda>d. merging ck \<sigma> d \<and> faulty flt)"
    by (rule trip_and_then)
  moreover have "I bs d" using d b bs by (simp add: I_def w_def)
  moreover have "projr (ck (the (file_at (DbN (se_ID \<sigma>)) d)) (file_at (WalN (se_ID \<sigma>)) d)) = bs"
    using b(1) bs(1) by (simp add: w_def)
  ultimately show "trip (recoverable ck \<sigma>) (\<lambda>d'. d' = d) (and_then
    (for_each (\<lambda>b. fs_step flt (AList.update (DbN (se_ID \<sigma>)) (FileI b)))
      (projr (ck (the (file_at (DbN (se_ID \<sigma>)) d)) (file_at (WalN (se_ID \<sigma>)) d))))
    (\<lambda>_. fs_step flt (AList.delete (WalN (se_ID \<sigma>))))) (\<lambda>_. settled \<sigma>) (\<lambda>d. merging ck \<sigma> d \<and> faulty flt)"
    by (simp only:) (erule trip_weaken, simp_all)
qed


text \<open>Moving the database file of the snapshot before.\<close>

lemma mv_file:
  assumes "wf_dir d" "file_at (DbN p) d = Some b"
  shows "mv (DbN p) (DbN q) d = AList.update (DbN q) (FileI b) (AList.delete (DbN p) d)"
  using assms by (auto simp: mv_def file_at_def split: option.splits inode.splits)

lemma unmerged_move:
  assumes "unmerged ck \<sigma> d" "se_old \<sigma> = Some (mp, b)"
  shows "merging ck \<sigma> (mv (DbN (sm_ID mp)) (DbN (se_ID \<sigma>)) d)"
proof -
  have old: "file_at (DbN (sm_ID mp)) d = Some b" "sm_ID mp \<noteq> se_ID \<sigma>" "dir_meta d (sm_ID mp) = Some (Meta mp)"
    using assms by (simp_all add: unmerged_def old_is_def)
  have pl: "placed \<sigma> d" "new_db ck \<sigma> d b" using assms by (auto simp: unmerged_def)
  then have wf: "wf_dir d" by (simp add: placed_def)
  have "placed \<sigma> (AList.delete (DbN (sm_ID mp)) d)"
    using pl(1) below_cong [of \<sigma> "AList.delete (DbN (sm_ID mp)) d" d] by (simp add: placed_def)
  then have "placed \<sigma> (mv (DbN (sm_ID mp)) (DbN (se_ID \<sigma>)) d)"
    unfolding mv_file [OF wf old(1)] by (rule placed_own) simp
  moreover have "dir_meta (mv (DbN (sm_ID mp)) (DbN (se_ID \<sigma>)) d) (sm_ID mp) \<noteq> None"
    using old by (simp add: mv_file [OF wf old(1)])
  ultimately show ?thesis
    using old pl(2) unfolding merging_def by (auto simp: mv_file [OF wf old(1)] new_db_def)
qed

lemma trip_move:
  assumes "se_old \<sigma> = Some (mp, b)"
  shows "trip (recoverable ck \<sigma>) (unmerged ck \<sigma>) (os_Rename flt (DbN (sm_ID mp)) (DbN (se_ID \<sigma>)))
    (\<lambda>_. merging ck \<sigma>) (\<lambda>d. unmerged ck \<sigma> d \<and> faulty flt)"
proof (rule trip_look [where h = "\<lambda>_. fs_step flt (mv (DbN (sm_ID mp)) (DbN (se_ID \<sigma>)))"])
  fix s :: fs assume "unmerged ck \<sigma> (fs_dir s)"
  then have "file_at (DbN (sm_ID mp)) (fs_dir s) = Some b" using assms by (simp add: unmerged_def old_is_def)
  then have "map_of (fs_dir s) (DbN (sm_ID mp)) \<noteq> None" by (simp add: file_at_def split: option.splits)
  then show "os_Rename flt (DbN (sm_ID mp)) (DbN (se_ID \<sigma>)) s = fs_step flt (mv (DbN (sm_ID mp)) (DbN (se_ID \<sigma>))) s"
    by (auto simp: os_Rename_def)
next
  fix d assume d: "unmerged ck \<sigma> d"
  show "trip (recoverable ck \<sigma>) (\<lambda>d'. d' = d) (fs_step flt (mv (DbN (sm_ID mp)) (DbN (se_ID \<sigma>))))
    (\<lambda>_. merging ck \<sigma>) (\<lambda>d. unmerged ck \<sigma> d \<and> faulty flt)"
    by (rule trip_step) (use d unmerged_move [OF d assms] in \<open>simp_all add: recoverable_phases\<close>)
qed

text \<open>The size in the metadata.\<close>

definition listed :: "sess \<Rightarrow> sdir \<Rightarrow> bool" where
  "listed \<sigma> d \<longleftrightarrow> (\<exists>z. dir_meta d (se_ID \<sigma>) = Some (Meta ((se_meta \<sigma>)\<lparr>sm_Size := z\<rparr>)))"

definition sized :: "sess \<Rightarrow> nat \<Rightarrow> sdir \<Rightarrow> bool" where
  "sized \<sigma> z d \<longleftrightarrow> dir_meta d (se_ID \<sigma>) = Some (Meta ((se_meta \<sigma>)\<lparr>sm_Size := z\<rparr>))"

lemma settled_put_meta:
  assumes "settled \<sigma> d" "x = BadMeta \<or> x = Meta ((se_meta \<sigma>)\<lparr>sm_Size := z\<rparr>)"
  shows "settled \<sigma> (put_meta (DirN (se_ID \<sigma>)) x d)"
proof -
  have "settled \<sigma> (AList.update (DirN (se_ID \<sigma>)) (DirI x b) d)" for b
    using assms placed_put_meta [of \<sigma> d x b] by (auto simp: settled_def)
  then show ?thesis using assms(1) by (auto simp: put_meta_def split: option.splits inode.splits)
qed

lemma dir_meta_put_meta [simp]:
  "dir_meta (put_meta (DirN i) x d) j = (if i = j then (if dir_meta d i = None then None else Some x) else dir_meta d j)"
  by (auto simp: put_meta_def dir_meta_def split: option.splits inode.splits)

lemma trip_updateMetaSize:
  assumes law: "ck_law ck"
  shows "trip (recoverable ck \<sigma>) (\<lambda>d. settled \<sigma> d \<and> listed \<sigma> d) (updateMetaSize flt (se_ID \<sigma>) z)
    (\<lambda>_ d. settled \<sigma> d \<and> sized \<sigma> z d) (\<lambda>d. settled \<sigma> d \<and> faulty flt)"
proof (rule trip_look [where h = "\<lambda>_. and_then (fs_step flt (put_meta (DirN (se_ID \<sigma>)) BadMeta))
    (\<lambda>_. fs_step flt (put_meta (DirN (se_ID \<sigma>)) (Meta ((se_meta \<sigma>)\<lparr>sm_Size := z\<rparr>))))"])
  fix s :: fs assume "settled \<sigma> (fs_dir s) \<and> listed \<sigma> (fs_dir s)"
  then obtain y c where "map_of (fs_dir s) (DirN (se_ID \<sigma>)) = Some (DirI (Meta ((se_meta \<sigma>)\<lparr>sm_Size := y\<rparr>)) c)"
    by (auto simp: listed_def dir_meta_def split: option.splits inode.splits)
  then show "updateMetaSize flt (se_ID \<sigma>) z s = and_then (fs_step flt (put_meta (DirN (se_ID \<sigma>)) BadMeta))
    (\<lambda>_. fs_step flt (put_meta (DirN (se_ID \<sigma>)) (Meta ((se_meta \<sigma>)\<lparr>sm_Size := z\<rparr>)))) s"
    by (simp add: updateMetaSize_def readMeta_def writeMeta_def)
next
  fix d assume d: "settled \<sigma> d \<and> listed \<sigma> d"
  show "trip (recoverable ck \<sigma>) (\<lambda>d'. d' = d) (and_then (fs_step flt (put_meta (DirN (se_ID \<sigma>)) BadMeta))
    (\<lambda>_. fs_step flt (put_meta (DirN (se_ID \<sigma>)) (Meta ((se_meta \<sigma>)\<lparr>sm_Size := z\<rparr>)))))
    (\<lambda>_ d. settled \<sigma> d \<and> sized \<sigma> z d) (\<lambda>d. settled \<sigma> d \<and> faulty flt)"
  proof (rule trip_and_then [where J = "\<lambda>_ d. settled \<sigma> d \<and> dir_meta d (se_ID \<sigma>) \<noteq> None"])
    show "trip (recoverable ck \<sigma>) (\<lambda>d'. d' = d) (fs_step flt (put_meta (DirN (se_ID \<sigma>)) BadMeta))
      (\<lambda>_ d. settled \<sigma> d \<and> dir_meta d (se_ID \<sigma>) \<noteq> None) (\<lambda>d. settled \<sigma> d \<and> faulty flt)"
      by (rule trip_step) (use d in \<open>auto simp: settled_put_meta recoverable_phases(4) [OF law] listed_def\<close>)
  next
    fix x :: unit
    show "trip (recoverable ck \<sigma>) (\<lambda>d. settled \<sigma> d \<and> dir_meta d (se_ID \<sigma>) \<noteq> None)
      (fs_step flt (put_meta (DirN (se_ID \<sigma>)) (Meta ((se_meta \<sigma>)\<lparr>sm_Size := z\<rparr>))))
      (\<lambda>_ d. settled \<sigma> d \<and> sized \<sigma> z d) (\<lambda>d. settled \<sigma> d \<and> faulty flt)"
    proof (rule trip_step)
      fix d assume "settled \<sigma> d \<and> dir_meta d (se_ID \<sigma>) \<noteq> None"
      moreover from this have "settled \<sigma> (put_meta (DirN (se_ID \<sigma>)) (Meta ((se_meta \<sigma>)\<lparr>sm_Size := z\<rparr>)) d)"
        by (intro settled_put_meta) auto
      ultimately show "recoverable ck \<sigma> (put_meta (DirN (se_ID \<sigma>)) (Meta ((se_meta \<sigma>)\<lparr>sm_Size := z\<rparr>)) d) \<and>
        settled \<sigma> (put_meta (DirN (se_ID \<sigma>)) (Meta ((se_meta \<sigma>)\<lparr>sm_Size := z\<rparr>)) d) \<and>
        sized \<sigma> z (put_meta (DirN (se_ID \<sigma>)) (Meta ((se_meta \<sigma>)\<lparr>sm_Size := z\<rparr>)) d)"
        by (simp add: recoverable_phases(4) [OF law] sized_def)
    qed simp
  qed
qed


section \<open>The start-up check\<close>

text \<open>Two facts about one operation.\<close>

lemma trip_conj:
  assumes "trip R I m J E" "trip (\<lambda>_. True) F m (\<lambda>_. F) (\<lambda>_. True)"
  shows "trip R (\<lambda>d. I d \<and> F d) m (\<lambda>x d. J x d \<and> F d) E"
proof (rule tripI)
  fix s assume s: "seen R s" "I (fs_dir s) \<and> F (fs_dir s)"
  have "seen (\<lambda>_. True) s" by (simp add: seen_def)
  from tripD [OF assms(2) this] s have "case m s of (Inr x, s') \<Rightarrow> F (fs_dir s') | (Inl e, s') \<Rightarrow> True"
    by (auto split: prod.splits sum.splits)
  with tripD [OF assms(1) s(1)] s(2)
  show "case m s of (Inr x, s') \<Rightarrow> seen R s' \<and> J x (fs_dir s') \<and> F (fs_dir s')
      | (Inl e, s') \<Rightarrow> seen R s' \<and> E (fs_dir s')"
    by (auto split: prod.splits sum.splits)
qed

definition dirs_are :: "(string \<Rightarrow> meta_file option) \<Rightarrow> sdir \<Rightarrow> bool" where
  "dirs_are \<mu> d \<longleftrightarrow> (\<forall>i. dir_meta d i = \<mu> i)"

lemma dirs_are_step:
  assumes "\<And>d i. dir_meta (f d) i = dir_meta d i"
  shows "trip (\<lambda>_. True) (dirs_are \<mu>) (fs_step flt f) (\<lambda>_. dirs_are \<mu>) (\<lambda>_. True)"
  by (rule trip_step) (use assms in \<open>simp_all add: dirs_are_def\<close>)

lemma trip_unless: "trip (\<lambda>_. True) I m J (\<lambda>_. True) \<longleftrightarrow> (\<forall>s x s'. I (fs_dir s) \<longrightarrow> m s = (Inr x, s') \<longrightarrow> J x (fs_dir s'))"
  unfolding trip_def seen_def by (auto split: prod.splits sum.splits)

lemma dirs_are_CheckpointRemove:
  "trip (\<lambda>_. True) (dirs_are \<mu>) (CheckpointRemove ck flt i) (\<lambda>_. dirs_are \<mu>) (\<lambda>_. True)"
proof -
  have "trip (\<lambda>_. True) (dirs_are \<mu>) (and_then (for_each (\<lambda>b. fs_step flt (AList.update (DbN i) (FileI b))) bs)
      (\<lambda>_. fs_step flt (AList.delete (WalN i)))) (\<lambda>_. dirs_are \<mu>) (\<lambda>_. True)" for bs
    by (rule trip_and_then [where J = "\<lambda>_. dirs_are \<mu>", OF trip_for_each [where I = "\<lambda>_. dirs_are \<mu>"]])
      (rule dirs_are_step, simp)+
  then show ?thesis
    unfolding trip_unless CheckpointRemove_def
    by (auto split: option.splits bool.splits sum.splits)
qed

lemma dirs_are_move: "trip (\<lambda>_. True) (dirs_are \<mu>) (os_Rename flt (DbN p) (DbN q)) (\<lambda>_. dirs_are \<mu>) (\<lambda>_. True)"
proof -
  have "trip (\<lambda>_. True) (dirs_are \<mu>) (fs_step flt (mv (DbN p) (DbN q))) (\<lambda>_. dirs_are \<mu>) (\<lambda>_. True)"
    by (rule dirs_are_step) (simp add: mv_def split: option.splits)
  then show ?thesis unfolding trip_unless os_Rename_def by auto
qed

lemma belowD:
  assumes "below \<sigma> d" "i \<noteq> se_ID \<sigma>"
  shows "dir_meta d i = Some x \<Longrightarrow> apart i (se_ID \<sigma>)"
    and "dir_meta d i = Some (Meta m) \<Longrightarrow> sm_ID m = i"
    and "dir_meta d i = Some (Meta m) \<Longrightarrow> cmp_Less m (se_meta \<sigma>)"
  using assms(1) [unfolded below_def, rule_format, OF assms(2)] by simp_all

text \<open>What the start-up sees.\<close>

definition newest :: "sdir \<Rightarrow> ((nat \<times> nat \<times> string) \<times> bytes option \<times> bytes option) option" where
  "newest d = (case getSnapshots d of
     Inl _ \<Rightarrow> None
   | Inr ms \<Rightarrow> if ms = [] then None
       else let i = sm_ID (last ms) in Some (meta_key (last ms), file_at (DbN i) d, file_at (WalN i) d))"

lemma placed_newest:
  assumes "placed \<sigma> d" "readable d"
  obtains ms z where "getSnapshots d = Inr ms" "ms \<noteq> []" "last ms = (se_meta \<sigma>)\<lparr>sm_Size := z\<rparr>"
    "dir_meta d (se_ID \<sigma>) = Some (Meta (last ms))"
proof -
  obtain z where z: "dir_meta d (se_ID \<sigma>) = Some (Meta ((se_meta \<sigma>)\<lparr>sm_Size := z\<rparr>))"
  proof -
    obtain x where x: "dir_meta d (se_ID \<sigma>) = Some x" "\<forall>m. x = Meta m \<longrightarrow> (\<exists>z. m = (se_meta \<sigma>)\<lparr>sm_Size := z\<rparr>)"
      using assms(1) by (auto simp only: placed_def)
    have "\<exists>m. x = Meta m" using assms(2) x(1) by (simp add: readable_def)
    then obtain m where m: "x = Meta m" by (elim exE)
    obtain z where "m = (se_meta \<sigma>)\<lparr>sm_Size := z\<rparr>" using x(2) m by (elim allE impE exE)
    then show ?thesis using that x(1) m by simp
  qed
  have "cmp_Less m' ((se_meta \<sigma>)\<lparr>sm_Size := z\<rparr>)" if "i \<noteq> se_ID \<sigma>" "dir_meta d i = Some (Meta m')" for i m'
  proof -
    have "below \<sigma> d" using assms(1) by (simp only: placed_def)
    then show ?thesis using belowD(3) [OF _ that] by (simp add: cmp_Less_def)
  qed
  moreover have "distinct (map fst d)" using assms(1) by (simp add: placed_def wf_dir_def)
  ultimately obtain ms where ms: "getSnapshots d = Inr ms" "ms \<noteq> []" "last ms = (se_meta \<sigma>)\<lparr>sm_Size := z\<rparr>"
    using getSnapshots_newest [OF _ assms(2) z] by metis
  then show ?thesis using that [OF ms] z by simp
qed

lemma settled_newest:
  assumes "settled \<sigma> d" "readable d"
  shows "newest d = Some (meta_key (se_meta \<sigma>), Some (se_new \<sigma>), None)"
proof -
  have "placed \<sigma> d" using assms(1) by (simp add: settled_def)
  then obtain ms z where "getSnapshots d = Inr ms" "ms \<noteq> []" "last ms = (se_meta \<sigma>)\<lparr>sm_Size := z\<rparr>"
    by (rule placed_newest [OF _ assms(2)])
  then show ?thesis using assms(1) by (simp add: newest_def settled_def meta_key_def)
qed

lemma phaseA_newest:
  assumes "phaseA \<sigma> d"
  shows "newest d = (case se_old \<sigma> of None \<Rightarrow> None | Some (mp, b) \<Rightarrow> Some (meta_key mp, Some b, None))"
    "\<And>mp b. se_old \<sigma> = Some (mp, b) \<Longrightarrow> \<exists>ms. getSnapshots d = Inr ms \<and> ms \<noteq> [] \<and> last ms = mp"
    "se_old \<sigma> = None \<Longrightarrow> getSnapshots d = Inr []"
proof -
  have d: "distinct (map fst d)" "dir_meta d (se_ID \<sigma>) = None" "old_is \<sigma> d"
    using assms by (simp_all add: phaseA_def wf_dir_def)
  show none: "getSnapshots d = Inr []" if "se_old \<sigma> = None"
  proof (rule getSnapshots_none [OF d(1)])
    show "dir_meta d i = None" for i using d that by (cases "i = se_ID \<sigma>") (simp_all add: old_is_def)
  qed
  show some: "\<exists>ms. getSnapshots d = Inr ms \<and> ms \<noteq> [] \<and> last ms = mp" if old: "se_old \<sigma> = Some (mp, b)" for mp b
  proof -
    have o: "dir_meta d (sm_ID mp) = Some (Meta mp)"
      "\<And>i x. i \<noteq> se_ID \<sigma> \<Longrightarrow> i \<noteq> sm_ID mp \<Longrightarrow> dir_meta d i = Some x \<Longrightarrow> \<exists>m. x = Meta m \<and> cmp_Less m mp"
      using d(3) old by (simp_all add: old_is_def)
    have o2: "\<exists>m. x = Meta m \<and> cmp_Less m mp" if "i \<noteq> sm_ID mp" "dir_meta d i = Some x" for i x
      using o(2) [of i x] that d(2) by (cases "i = se_ID \<sigma>") simp_all
    have "readable d" unfolding readable_def
    proof (intro allI impI)
      fix i x assume "dir_meta d i = Some x"
      then show "\<exists>m. x = Meta m" using o(1) o2 [of i x] by (cases "i = sm_ID mp") auto
    qed
    moreover have "cmp_Less m' mp" if "i \<noteq> sm_ID mp" "dir_meta d i = Some (Meta m')" for i m'
      using o2 [OF that] by simp
    ultimately obtain ms where "getSnapshots d = Inr ms" "ms \<noteq> []" "last ms = mp"
      by (rule getSnapshots_newest [OF d(1) _ o(1)])
    then show ?thesis by simp
  qed
  show "newest d = (case se_old \<sigma> of None \<Rightarrow> None | Some (mp, b) \<Rightarrow> Some (meta_key mp, Some b, None))"
  proof (cases "se_old \<sigma>")
    case None
    then show ?thesis using none by (simp add: newest_def)
  next
    case (Some y)
    obtain mp b where y: "y = (mp, b)" by (cases y)
    then obtain ms where "getSnapshots d = Inr ms" "ms \<noteq> []" "last ms = mp" using some Some by blast
    then show ?thesis using d(3) Some y by (simp add: newest_def old_is_def)
  qed
qed


lemma file_map_of: "wf_dir d \<Longrightarrow> file_at (WalN i) d = None \<Longrightarrow> map_of d (WalN i) = None"
  using wf_dirD(4) [of d i] by (cases "map_of d (WalN i)") (auto simp: file_at_def split: inode.splits)

lemma delete_absent: "map_of d n = None \<Longrightarrow> AList.delete n d = d"
  by (simp add: delete_idem map_of_eq_None_iff)

lemma good_db_valid: "good_db b \<Longrightarrow> IsValidSQLiteFile (Some b)"
  by (simp add: good_db_def)

lemma no_file_invalid: "\<not> IsValidSQLiteFile None"
  by (simp add: IsValidSQLiteFile_def)

lemma checkpoint_nothing:
  assumes "ck_law ck" "good_db b" "wf_dir d" "file_at (DbN i) d = Some b" "file_at (WalN i) d = None" "R d"
  shows "trip R (\<lambda>d'. d' = d) (CheckpointRemove ck flt i) (\<lambda>_ d'. d' = d) (\<lambda>d'. d' = d \<and> faulty flt)"
proof (rule trip_look [where h = "\<lambda>_. fs_step flt (AList.delete (WalN i))"])
  fix s :: fs assume "fs_dir s = d"
  then show "CheckpointRemove ck flt i s = fs_step flt (AList.delete (WalN i)) s"
    using assms by (simp add: CheckpointRemove_def good_db_def ck_none and_then_def)
next
  fix d' assume "d' = d"
  then show "trip R (\<lambda>d'a. d'a = d') (fs_step flt (AList.delete (WalN i))) (\<lambda>_ d'. d' = d) (\<lambda>d'. d' = d \<and> faulty flt)"
    using delete_absent [OF file_map_of [OF assms(3,5)]] assms(6) by (intro trip_step) simp_all
qed

lemma trip_check_A:
  assumes law: "ck_law ck"
  shows "trip (recoverable ck \<sigma>) (\<lambda>d. phaseA \<sigma> d \<and> no_tmp d) (check_dir ck flt)
    (\<lambda>_ d. phaseA \<sigma> d \<and> no_tmp d) (\<lambda>d. phaseA \<sigma> d \<and> faulty flt)"
proof (rule trip_look [where h = "\<lambda>d. case se_old \<sigma> of
    Some (mp, b) \<Rightarrow> if length (projr (getSnapshots d)) = 1 then done_with () else CheckpointRemove ck flt (sm_ID mp)
  | None \<Rightarrow> done_with ()"])
  fix s :: fs assume A: "phaseA \<sigma> (fs_dir s) \<and> no_tmp (fs_dir s)"
  show "check_dir ck flt s = (case se_old \<sigma> of
    Some (mp, b) \<Rightarrow> if length (projr (getSnapshots (fs_dir s))) = 1 then done_with () else CheckpointRemove ck flt (sm_ID mp)
  | None \<Rightarrow> done_with ()) s"
  proof (cases "se_old \<sigma>")
    case None
    then have "getSnapshots (fs_dir s) = Inr []" using phaseA_newest(3) A by blast
    then show ?thesis using None by (simp add: check_dir_def done_with_def)
  next
    case (Some y)
    obtain mp b where y: "y = (mp, b)" by (cases y)
    obtain ms where ms: "getSnapshots (fs_dir s) = Inr ms" "ms \<noteq> []" "last ms = mp"
      using phaseA_newest(2) [of \<sigma> "fs_dir s" mp b] A Some y by blast
    have "file_at (DbN (sm_ID mp)) (fs_dir s) = Some b" "good_db b"
      using A Some y by (simp_all add: phaseA_def old_is_def)
    moreover have "ms ! 0 = mp" if "length ms = 1" using ms that by (cases ms) auto
    ultimately show ?thesis
      using ms Some y by (simp add: check_dir_def done_with_def Let_def good_db_valid)
  qed
next
  fix d assume A: "phaseA \<sigma> d \<and> no_tmp d"
  show "trip (recoverable ck \<sigma>) (\<lambda>d'. d' = d) (case se_old \<sigma> of
      Some (mp, b) \<Rightarrow> if length (projr (getSnapshots d)) = 1 then done_with () else CheckpointRemove ck flt (sm_ID mp)
    | None \<Rightarrow> done_with ())
    (\<lambda>_ d. phaseA \<sigma> d \<and> no_tmp d) (\<lambda>d. phaseA \<sigma> d \<and> faulty flt)"
  proof (cases "se_old \<sigma>")
    case None
    then show ?thesis using A by (simp add: trip_done_at)
  next
    case (Some y)
    obtain mp b where y: "y = (mp, b)" by (cases y)
    have o: "good_db b" "wf_dir d" "file_at (DbN (sm_ID mp)) d = Some b" "file_at (WalN (sm_ID mp)) d = None"
      using A Some y by (simp_all add: phaseA_def old_is_def)
    have R: "recoverable ck \<sigma> d" using A by (simp add: recoverable_phases)
    have "trip (recoverable ck \<sigma>) (\<lambda>d'. d' = d) (CheckpointRemove ck flt (sm_ID mp))
        (\<lambda>_ d. phaseA \<sigma> d \<and> no_tmp d) (\<lambda>d. phaseA \<sigma> d \<and> faulty flt)"
      by (rule trip_weaken [OF checkpoint_nothing [of ck b d "sm_ID mp" "recoverable ck \<sigma>", OF law o R]]) (use A in simp_all)
    then show ?thesis using A Some y by (simp add: trip_done_at)
  qed
qed

text \<open>A snapshot in place.\<close>

lemma placed_ids:
  assumes "placed \<sigma> d" "dir_meta d i = Some (Meta m)"
  shows "sm_ID m = i"
proof (cases "i = se_ID \<sigma>")
  case True
  then show ?thesis using assms by (auto simp: placed_def)
next
  case False
  have "below \<sigma> d" using assms(1) by (simp add: placed_def)
  then show ?thesis using belowD(2) [OF _ False] assms(2) by blast
qed

lemma unmerged_prev:
  assumes "unmerged ck \<sigma> d" "readable d" "se_old \<sigma> = Some (mp, b)" "getSnapshots d = Inr ms" "ms \<noteq> []"
    "last ms = (se_meta \<sigma>)\<lparr>sm_Size := z\<rparr>"
  shows "2 \<le> length ms" "ms ! (length ms - 2) = mp"
proof -
  have pl: "placed \<sigma> d" "old_is \<sigma> d" using assms(1) by (simp_all add: unmerged_def)
  have o: "sm_ID mp \<noteq> se_ID \<sigma>" "dir_meta d (sm_ID mp) = Some (Meta mp)"
      "\<And>i x. i \<noteq> se_ID \<sigma> \<Longrightarrow> i \<noteq> sm_ID mp \<Longrightarrow> dir_meta d i = Some x \<Longrightarrow> \<exists>m. x = Meta m \<and> cmp_Less m mp"
    using pl(2) assms(3) by (simp_all add: old_is_def)
  have less: "cmp_Less m' mp" if "i \<noteq> sm_ID mp" "i \<noteq> sm_ID ((se_meta \<sigma>)\<lparr>sm_Size := z\<rparr>)" "dir_meta d i = Some (Meta m')" for i m'
    using o(3) [of i "Meta m'"] that by simp
  have ne: "sm_ID ((se_meta \<sigma>)\<lparr>sm_Size := z\<rparr>) \<noteq> sm_ID mp" using o(1) by simp
  have "distinct (map fst d)" using pl(1) by (simp add: placed_def wf_dir_def)
  note * = getSnapshots_prev [OF this placed_ids [OF pl(1)] assms(4,5,6) ne o(2) less]
  show "2 \<le> length ms" "ms ! (length ms - 2) = mp" using * by auto
qed


definition restored :: "sess \<Rightarrow> sdir \<Rightarrow> bool" where
  "restored \<sigma> d \<longleftrightarrow> phaseA \<sigma> d \<and> no_tmp d \<or> settled \<sigma> d \<and> readable d"

lemma dirs_are_listed:
  assumes "placed \<sigma> d" "readable d" "dirs_are (dir_meta d) d'"
  shows "readable d'" "placed \<sigma> d' \<Longrightarrow> listed \<sigma> d'"
proof -
  show "readable d'" using assms(2,3) by (simp add: readable_def dirs_are_def)
  obtain z ms where "last ms = (se_meta \<sigma>)\<lparr>sm_Size := z\<rparr>" "dir_meta d (se_ID \<sigma>) = Some (Meta (last ms))"
    by (rule placed_newest [OF assms(1,2)]) blast
  then show "listed \<sigma> d'" using assms(3) by (auto simp: dirs_are_def listed_def)
qed

lemma sized_readable:
  assumes "readable d" "\<And>i. i \<noteq> se_ID \<sigma> \<Longrightarrow> dir_meta d' i = dir_meta d i" "sized \<sigma> z d'"
  shows "readable d'"
  unfolding readable_def
proof (intro allI impI)
  fix i x assume "dir_meta d' i = Some x"
  then show "\<exists>m. x = Meta m"
    using assms by (cases "i = se_ID \<sigma>") (auto simp: sized_def readable_def)
qed

lemma trip_check_merging:
  assumes law: "ck_law ck"
  shows "trip (recoverable ck \<sigma>) (\<lambda>d. merging ck \<sigma> d \<and> readable d) (check_dir ck flt)
    (\<lambda>_ d. settled \<sigma> d \<and> readable d) (\<lambda>d. merging ck \<sigma> d \<and> faulty flt)"
proof (rule trip_look [where h = "\<lambda>d. if length (projr (getSnapshots d)) = 1 then done_with ()
    else CheckpointRemove ck flt (se_ID \<sigma>)"])
  fix s :: fs assume d: "merging ck \<sigma> (fs_dir s) \<and> readable (fs_dir s)"
  then have "placed \<sigma> (fs_dir s)" by (simp add: merging_def)
  then obtain ms z where ms: "getSnapshots (fs_dir s) = Inr ms" "ms \<noteq> []" "last ms = (se_meta \<sigma>)\<lparr>sm_Size := z\<rparr>"
    by (rule placed_newest) (use d in simp)
  obtain b where "file_at (DbN (se_ID \<sigma>)) (fs_dir s) = Some b" "good_db b"
    using d by (auto simp: merging_def new_db_def)
  moreover have "ms ! 0 = last ms" if "length ms = 1" using ms that by (cases ms) auto
  ultimately show "check_dir ck flt s = (if length (projr (getSnapshots (fs_dir s))) = 1 then done_with ()
    else CheckpointRemove ck flt (se_ID \<sigma>)) s"
    using ms by (simp add: check_dir_def done_with_def Let_def good_db_valid)
next
  fix d assume d: "merging ck \<sigma> d \<and> readable d"
  then have pl: "placed \<sigma> d" by (simp add: merging_def)
  show "trip (recoverable ck \<sigma>) (\<lambda>d'. d' = d) (if length (projr (getSnapshots d)) = 1 then done_with ()
    else CheckpointRemove ck flt (se_ID \<sigma>)) (\<lambda>_ d. settled \<sigma> d \<and> readable d) (\<lambda>d. merging ck \<sigma> d \<and> faulty flt)"
  proof (cases "length (projr (getSnapshots d)) = 1")
    case True
    obtain ms z where ms: "getSnapshots d = Inr ms" "ms \<noteq> []" "last ms = (se_meta \<sigma>)\<lparr>sm_Size := z\<rparr>"
      by (rule placed_newest [OF pl]) (use d in auto)
    have single: "set ms = {last ms}" using True ms by (cases ms) auto
    have "file_at (WalN (se_ID \<sigma>)) d = None"
    proof (rule ccontr)
      assume "file_at (WalN (se_ID \<sigma>)) d \<noteq> None"
      then obtain i x where i: "i \<noteq> se_ID \<sigma>" "dir_meta d i = Some x" using d by (auto simp: merging_def)
      then obtain m where m: "dir_meta d i = Some (Meta m)" using d by (auto simp: readable_def)
      have "m \<in> set ms" using getSnapshots_set(1) [OF _ ms(1)] m pl by (auto simp: placed_def wf_dir_def)
      then have "m = last ms" using single by blast
      then show False using placed_ids [OF pl m] i(1) ms(3) by simp
    qed
    then have "settled \<sigma> d" using d pl law by (auto simp: settled_def merging_def new_db_def ck_final_none)
    then show ?thesis using True d by (simp add: trip_done_at)
  next
    case False
    have "trip (recoverable ck \<sigma>) (\<lambda>d'. d' = d) (CheckpointRemove ck flt (se_ID \<sigma>))
        (\<lambda>_ d. settled \<sigma> d \<and> readable d) (\<lambda>d. merging ck \<sigma> d \<and> faulty flt)"
    proof (rule trip_weaken [OF trip_conj [OF trip_checkpoint_new [OF law, of \<sigma> flt]
            dirs_are_CheckpointRemove [of "dir_meta d" ck flt "se_ID \<sigma>"]]])
      fix x d' assume "settled \<sigma> d' \<and> dirs_are (dir_meta d) d'"
      then show "settled \<sigma> d' \<and> readable d'" using dirs_are_listed(1) [OF pl] d by blast
    qed (use d in \<open>simp_all add: dirs_are_def\<close>)
    then show ?thesis using False by simp
  qed
qed


lemma dirs_besides_updateMetaSize:
  "trip (\<lambda>_. True) (\<lambda>d. \<forall>i. i \<noteq> q \<longrightarrow> dir_meta d i = \<mu> i) (updateMetaSize flt q z)
     (\<lambda>_ d. \<forall>i. i \<noteq> q \<longrightarrow> dir_meta d i = \<mu> i) (\<lambda>_. True)"
proof -
  have "trip (\<lambda>_. True) (\<lambda>d. \<forall>i. i \<noteq> q \<longrightarrow> dir_meta d i = \<mu> i) (fs_step flt (put_meta (DirN q) x))
     (\<lambda>_ d. \<forall>i. i \<noteq> q \<longrightarrow> dir_meta d i = \<mu> i) (\<lambda>_. True)" for x
    by (rule trip_step) simp_all
  from trip_and_then [OF this this]
  have "trip (\<lambda>_. True) (\<lambda>d. \<forall>i. i \<noteq> q \<longrightarrow> dir_meta d i = \<mu> i)
     (and_then (fs_step flt (put_meta (DirN q) BadMeta)) (\<lambda>_. fs_step flt (put_meta (DirN q) (Meta m))))
     (\<lambda>_ d. \<forall>i. i \<noteq> q \<longrightarrow> dir_meta d i = \<mu> i) (\<lambda>_. True)" for m .
  then show ?thesis
    unfolding trip_unless updateMetaSize_def writeMeta_def by (auto split: sum.splits option.splits inode.splits)
qed

lemma trip_resize:
  assumes law: "ck_law ck" and pl: "placed \<sigma> d0" "readable d0"
  shows "trip (recoverable ck \<sigma>) (\<lambda>d. settled \<sigma> d \<and> dirs_are (dir_meta d0) d)
    (\<lambda>s. case file_at (DbN (se_ID \<sigma>)) (fs_dir s) of
        None \<Rightarrow> (Inl ''stat: no such file or directory'', s)
      | Some b \<Rightarrow> updateMetaSize flt (se_ID \<sigma>) (length b) s)
    (\<lambda>_ d. settled \<sigma> d \<and> readable d) (\<lambda>d. settled \<sigma> d \<and> faulty flt)"
proof (rule trip_look [where h = "\<lambda>_. updateMetaSize flt (se_ID \<sigma>) (length (se_new \<sigma>))"])
  fix d assume d: "settled \<sigma> d \<and> dirs_are (dir_meta d0) d"
  then have l: "listed \<sigma> d" using dirs_are_listed(2) [OF pl] by (simp add: settled_def)
  show "trip (recoverable ck \<sigma>) (\<lambda>d'. d' = d) (updateMetaSize flt (se_ID \<sigma>) (length (se_new \<sigma>)))
    (\<lambda>_ d. settled \<sigma> d \<and> readable d) (\<lambda>d. settled \<sigma> d \<and> faulty flt)"
  proof (rule trip_weaken [OF trip_conj [OF trip_updateMetaSize [OF law, of \<sigma> flt "length (se_new \<sigma>)"]
        dirs_besides_updateMetaSize [of "se_ID \<sigma>" "dir_meta d"]]])
    fix x d' assume d': "(settled \<sigma> d' \<and> sized \<sigma> (length (se_new \<sigma>)) d') \<and> (\<forall>i. i \<noteq> se_ID \<sigma> \<longrightarrow> dir_meta d' i = dir_meta d i)"
    have "readable d" using dirs_are_listed(1) [OF pl] d by simp
    then have "readable d'" by (rule sized_readable [where \<sigma> = \<sigma> and z = "length (se_new \<sigma>)"]) (use d' in simp_all)
    then show "settled \<sigma> d' \<and> readable d'" using d' by simp
  qed (use d l in simp_all)
qed (simp add: settled_def)

lemma trip_check_unmerged:
  assumes law: "ck_law ck"
  shows "trip (recoverable ck \<sigma>) (\<lambda>d. unmerged ck \<sigma> d \<and> readable d) (check_dir ck flt)
    (\<lambda>_ d. settled \<sigma> d \<and> readable d) (\<lambda>d. recoverable ck \<sigma> d \<and> faulty flt)"
proof (rule trip_look [where h = "\<lambda>_. and_then (os_Rename flt (DbN (sm_ID (fst (the (se_old \<sigma>))))) (DbN (se_ID \<sigma>)))
    (\<lambda>_. and_then (CheckpointRemove ck flt (se_ID \<sigma>))
      (\<lambda>_ s. case file_at (DbN (se_ID \<sigma>)) (fs_dir s) of
        None \<Rightarrow> (Inl ''stat: no such file or directory'', s)
      | Some b \<Rightarrow> updateMetaSize flt (se_ID \<sigma>) (length b) s))"])
  fix s :: fs assume d: "unmerged ck \<sigma> (fs_dir s) \<and> readable (fs_dir s)"
  then have pl: "placed \<sigma> (fs_dir s)" by (simp add: unmerged_def)
  then obtain ms z where ms: "getSnapshots (fs_dir s) = Inr ms" "ms \<noteq> []" "last ms = (se_meta \<sigma>)\<lparr>sm_Size := z\<rparr>"
    by (rule placed_newest) (use d in simp)
  obtain mp b where old: "se_old \<sigma> = Some (mp, b)" using d by (auto simp: unmerged_def)
  note prev = unmerged_prev [OF conjunct1 [OF d] conjunct2 [OF d] old ms]
  have "file_at (DbN (sm_ID mp)) (fs_dir s) = Some b" "good_db b" "file_at (DbN (se_ID \<sigma>)) (fs_dir s) = None"
    using d old by (simp_all add: unmerged_def old_is_def)
  moreover have "length ms \<noteq> 1" using prev(1) by simp
  ultimately show "check_dir ck flt s = and_then (os_Rename flt (DbN (sm_ID (fst (the (se_old \<sigma>))))) (DbN (se_ID \<sigma>)))
    (\<lambda>_. and_then (CheckpointRemove ck flt (se_ID \<sigma>))
      (\<lambda>_ s. case file_at (DbN (se_ID \<sigma>)) (fs_dir s) of
        None \<Rightarrow> (Inl ''stat: no such file or directory'', s)
      | Some b \<Rightarrow> updateMetaSize flt (se_ID \<sigma>) (length b) s)) s"
    using ms prev(2) old by (simp add: check_dir_def Let_def good_db_valid no_file_invalid)
next
  fix d assume d: "unmerged ck \<sigma> d \<and> readable d"
  then have pl: "placed \<sigma> d" by (simp add: unmerged_def)
  obtain mp b where old: "se_old \<sigma> = Some (mp, b)" using d by (auto simp: unmerged_def)
  have E: "recoverable ck \<sigma> d" if "unmerged ck \<sigma> d \<or> merging ck \<sigma> d \<or> settled \<sigma> d" for d
    using that by (auto simp: recoverable_phases recoverable_phases(4) [OF law])
  have "trip (recoverable ck \<sigma>) (\<lambda>d'. d' = d) (os_Rename flt (DbN (sm_ID mp)) (DbN (se_ID \<sigma>)))
    (\<lambda>_ d'. merging ck \<sigma> d' \<and> dirs_are (dir_meta d) d') (\<lambda>d. recoverable ck \<sigma> d \<and> faulty flt)"
    by (rule trip_weaken [OF trip_conj [OF trip_move [OF old] dirs_are_move [of "dir_meta d"]]])
      (use d E in \<open>simp_all add: dirs_are_def\<close>)
  moreover have "trip (recoverable ck \<sigma>) (\<lambda>d'. merging ck \<sigma> d' \<and> dirs_are (dir_meta d) d') (CheckpointRemove ck flt (se_ID \<sigma>))
    (\<lambda>_ d'. settled \<sigma> d' \<and> dirs_are (dir_meta d) d') (\<lambda>d. recoverable ck \<sigma> d \<and> faulty flt)"
    by (rule trip_weaken [OF trip_conj [OF trip_checkpoint_new [OF law] dirs_are_CheckpointRemove]]) (use E in simp_all)
  moreover have "trip (recoverable ck \<sigma>) (\<lambda>d'. settled \<sigma> d' \<and> dirs_are (dir_meta d) d')
     (\<lambda>s. case file_at (DbN (se_ID \<sigma>)) (fs_dir s) of
        None \<Rightarrow> (Inl ''stat: no such file or directory'', s)
      | Some b \<Rightarrow> updateMetaSize flt (se_ID \<sigma>) (length b) s)
    (\<lambda>_ d. settled \<sigma> d \<and> readable d) (\<lambda>d. recoverable ck \<sigma> d \<and> faulty flt)"
    by (rule trip_weaken [OF trip_resize [OF law pl]]) (use d E in simp_all)
  ultimately show "trip (recoverable ck \<sigma>) (\<lambda>d'. d' = d)
    (and_then (os_Rename flt (DbN (sm_ID (fst (the (se_old \<sigma>))))) (DbN (se_ID \<sigma>)))
    (\<lambda>_. and_then (CheckpointRemove ck flt (se_ID \<sigma>))
      (\<lambda>_ s. case file_at (DbN (se_ID \<sigma>)) (fs_dir s) of
        None \<Rightarrow> (Inl ''stat: no such file or directory'', s)
      | Some b \<Rightarrow> updateMetaSize flt (se_ID \<sigma>) (length b) s)))
    (\<lambda>_ d. settled \<sigma> d \<and> readable d) (\<lambda>d. recoverable ck \<sigma> d \<and> faulty flt)"
    unfolding old option.sel fst_conv by (rule trip_and_then [OF _ trip_and_then])
qed


text \<open>A directory whose metadata cannot be read stays as it is.\<close>

lemma trip_check_unreadable:
  assumes "\<And>d. I d \<Longrightarrow> wf_dir d \<and> \<not> readable d"
  shows "trip R I (check_dir ck flt) J I"
proof (rule tripI)
  fix s assume s: "seen R s" "I (fs_dir s)"
  have "\<nexists>ms. getSnapshots (fs_dir s) = Inr ms"
    using getSnapshots_readable [OF wf_dir_distinct] assms [OF s(2)] by blast
  then obtain e where "getSnapshots (fs_dir s) = Inl e" by (cases "getSnapshots (fs_dir s)") auto
  then show "case check_dir ck flt s of (Inr x, s') \<Rightarrow> seen R s' \<and> J x (fs_dir s')
      | (Inl e, s') \<Rightarrow> seen R s' \<and> I (fs_dir s')" using s by (simp add: check_dir_def)
qed

lemma trip_disj:
  assumes "trip R I m J E" "trip R I' m J E"
  shows "trip R (\<lambda>d. I d \<or> I' d) m J E"
proof (rule tripI)
  fix s assume s: "seen R s" "I (fs_dir s) \<or> I' (fs_dir s)"
  from s(2) show "case m s of (Inr x, s') \<Rightarrow> seen R s' \<and> J x (fs_dir s') | (Inl e, s') \<Rightarrow> seen R s' \<and> E (fs_dir s')"
    by (rule disjE) (erule tripD [OF assms(1) s(1)] tripD [OF assms(2) s(1)])+
qed

text \<open>After an error: something failed, or metadata could not be read from the beginning.\<close>

definition stuck :: "checkpoint \<Rightarrow> sess \<Rightarrow> faults \<Rightarrow> bool \<Rightarrow> sdir \<Rightarrow> bool" where
  "stuck ck \<sigma> flt rd d \<longleftrightarrow> recoverable ck \<sigma> d \<and> (faulty flt \<or> \<not> rd)"

lemma trip_check:
  assumes law: "ck_law ck"
  shows "trip (recoverable ck \<sigma>) (\<lambda>d. recoverable ck \<sigma> d \<and> readable d = rd)
    (and_then (RemoveAllTmpSnapshotData flt) (\<lambda>_. check_dir ck flt)) (\<lambda>_. restored \<sigma>) (stuck ck \<sigma> flt rd)"
proof -
  let ?in = "\<lambda>d. (unmerged ck \<sigma> d \<or> merging ck \<sigma> d) \<and> readable d = rd"
  have pl: "wf_dir d" "no_tmp d" if "?in d" for d
    using that by (auto simp: unmerged_def merging_def placed_def no_tmp_def)
  have A: "trip (recoverable ck \<sigma>) (phaseA \<sigma>) (and_then (RemoveAllTmpSnapshotData flt) (\<lambda>_. check_dir ck flt))
      (\<lambda>_. restored \<sigma>) (\<lambda>d. phaseA \<sigma> d \<and> faulty flt)"
    by (rule trip_weaken [OF trip_and_then [OF trip_RemoveAllTmp trip_check_A [OF law]]]) (simp_all add: restored_def)
  have m: "trip (recoverable ck \<sigma>) (\<lambda>d. merging ck \<sigma> d \<and> readable d) (check_dir ck flt) (\<lambda>_. restored \<sigma>) (stuck ck \<sigma> flt rd)"
    by (rule trip_weaken [OF trip_check_merging [OF law]]) (simp_all add: restored_def stuck_def recoverable_phases)
  have u: "trip (recoverable ck \<sigma>) (\<lambda>d. unmerged ck \<sigma> d \<and> readable d) (check_dir ck flt) (\<lambda>_. restored \<sigma>) (stuck ck \<sigma> flt rd)"
    by (rule trip_weaken [OF trip_check_unmerged [OF law]]) (simp_all add: restored_def stuck_def)
  have n: "trip (recoverable ck \<sigma>) (\<lambda>d. ?in d \<and> \<not> readable d) (check_dir ck flt) (\<lambda>_. restored \<sigma>) (stuck ck \<sigma> flt rd)"
    by (rule trip_weaken [OF trip_check_unreadable [where I = "\<lambda>d. ?in d \<and> \<not> readable d"]])
      (auto simp: pl stuck_def recoverable_phases)
  have "trip (recoverable ck \<sigma>) ?in (check_dir ck flt) (\<lambda>_. restored \<sigma>) (stuck ck \<sigma> flt rd)"
    by (rule trip_weaken [OF trip_disj [OF n trip_disj [OF m u]]]) auto
  moreover have "trip (recoverable ck \<sigma>) ?in (RemoveAllTmpSnapshotData flt) (\<lambda>_. ?in) (stuck ck \<sigma> flt rd)"
    by (rule trip_RemoveAllTmp_none) (use pl in blast)
  ultimately have B: "trip (recoverable ck \<sigma>) ?in (and_then (RemoveAllTmpSnapshotData flt) (\<lambda>_. check_dir ck flt))
      (\<lambda>_. restored \<sigma>) (stuck ck \<sigma> flt rd)" by (intro trip_and_then)
  have "trip (recoverable ck \<sigma>) (phaseA \<sigma>) (and_then (RemoveAllTmpSnapshotData flt) (\<lambda>_. check_dir ck flt))
      (\<lambda>_. restored \<sigma>) (stuck ck \<sigma> flt rd)"
    by (rule trip_weaken [OF A]) (simp_all add: stuck_def recoverable_phases)
  from trip_disj [OF this B] show ?thesis by (rule trip_weaken) (auto simp: recoverable_def)
qed

lemma restored_recoverable: "ck_law ck \<Longrightarrow> restored \<sigma> d \<Longrightarrow> recoverable ck \<sigma> d"
  by (auto simp: restored_def recoverable_phases)

lemma fs_step_id:
  "fst (fs_step flt id s) = Inr () \<or> faulty flt" "fs_dir (snd (fs_step flt id s)) = fs_dir s"
  "seen R s \<Longrightarrow> R (fs_dir s) \<Longrightarrow> seen R (snd (fs_step flt id s))"
  by (auto simp: fs_step_def seen_def faulty_def split: option.splits)

lemma trip_NewStore:
  assumes law: "ck_law ck"
  shows "trip (recoverable ck \<sigma>) (\<lambda>d. recoverable ck \<sigma> d \<and> readable d = rd) (NewStore ck flt) (\<lambda>_. restored \<sigma>) (stuck ck \<sigma> flt rd)"
proof (rule tripI)
  fix s assume s: "seen (recoverable ck \<sigma>) s" "recoverable ck \<sigma> (fs_dir s) \<and> readable (fs_dir s) = rd"
  obtain r t where m: "and_then (RemoveAllTmpSnapshotData flt) (\<lambda>_. check_dir ck flt) s = (r, t)"
    by (cases "and_then (RemoveAllTmpSnapshotData flt) (\<lambda>_. check_dir ck flt) s")
  obtain r' t' where y: "fs_step flt id t = (r', t')" by (cases "fs_step flt id t")
  have t: "seen (recoverable ck \<sigma>) t" "case r of Inr _ \<Rightarrow> restored \<sigma> (fs_dir t) | Inl _ \<Rightarrow> stuck ck \<sigma> flt rd (fs_dir t)"
    using tripD [OF trip_check [OF law, where flt = flt] s] m by (simp_all split: sum.splits)
  then have R: "recoverable ck \<sigma> (fs_dir t)"
    using restored_recoverable [OF law] by (auto simp: stuck_def split: sum.splits)
  have t': "fs_dir t' = fs_dir t" "seen (recoverable ck \<sigma>) t'" "r' = Inr () \<or> faulty flt"
    using fs_step_id(1,2) [of flt t] fs_step_id(3) [OF t(1) R, of flt] y by auto
  show "case NewStore ck flt s of (Inr x, s') \<Rightarrow> seen (recoverable ck \<sigma>) s' \<and> restored \<sigma> (fs_dir s')
      | (Inl e, s') \<Rightarrow> seen (recoverable ck \<sigma>) s' \<and> stuck ck \<sigma> flt rd (fs_dir s')"
  proof (cases "fs_dir s = []")
    case True
    then have "phaseA \<sigma> []" using s(2) by (auto simp: recoverable_def unmerged_def merging_def placed_def dir_meta_def)
    then show ?thesis using True s(1) by (simp add: NewStore_def restored_def no_tmp_def)
  next
    case False
    then show ?thesis using m y t t' R
      by (auto simp: NewStore_def check_def syncDir_def stuck_def split: sum.splits)
  qed
qed

end
