(* ===== verification/Snapshot_Crash.thy ===== *)
theory Snapshot_Crash
  imports Snapshot_Recovery
begin

text \<open>
  A snapshot from its creation to the end of \<^verbatim>\<open>Close\<close>, with any faults, on any store with a sound newest
  snapshot. Every directory on the way is one the start-up check recovers, and when the sink closes
  the new snapshot is the only one.
\<close>

section \<open>Taking a snapshot\<close>

text \<open>\<^verbatim>\<open>Persist\<close> copies the data to the sink in pieces.\<close>

fun snapshot_Persist :: "faults \<Rightarrow> (nat \<times> bytes) list \<Rightarrow> sink_st \<Rightarrow> unit fsop" where
  "snapshot_Persist flt [] k s = (Inr (), s)"
| "snapshot_Persist flt ((part, p) # ps) k s = and_then (sink_Write flt part p k) (\<lambda>_. snapshot_Persist flt ps k) s"

text \<open>What Raft does with a snapshot: it creates a sink, persists the snapshot, and closes the sink, or
  cancels it after an error.\<close>

definition take_snapshot ::
  "checkpoint \<Rightarrow> paths \<Rightarrow> faults \<Rightarrow> nat \<Rightarrow> nat \<Rightarrow> nat \<Rightarrow> (nat \<times> bytes) list \<Rightarrow> multi_rsw \<times> fs \<Rightarrow>
   (string, unit) result \<times> multi_rsw \<times> fs" where
  "take_snapshot ck ext flt now index trm chunks st = (case ss_Create flt now index trm st of
     (Inl e, st) \<Rightarrow> (Inl e, st)
   | (Inr kh, l, s) \<Rightarrow> (case snapshot_Persist flt chunks (fst kh) s of
       (Inl e, s) \<Rightarrow> (case locking_Cancel flt kh (l, s) of (_, _, st) \<Rightarrow> (Inl e, st))
     | (Inr _, s) \<Rightarrow> (case locking_Close ck ext flt kh (l, s) of (r, _, st) \<Rightarrow> (r, st))))"

section \<open>What comes in\<close>

definition incoming :: "paths \<Rightarrow> bytes \<Rightarrow> bytes" where
  "incoming ext b = (if b = [] \<or> maxFilenameLen < length b then b
     else case ext b of Inr (Some c) \<Rightarrow> c | _ \<Rightarrow> b)"

text \<open>The database the new snapshot stands for.\<close>

definition installed :: "checkpoint \<Rightarrow> (snap_meta \<times> bytes) option \<Rightarrow> bytes \<Rightarrow> bytes" where
  "installed ck old x = (if IsValidSQLiteFile (Some x) then x
     else case old of Some (_, b) \<Rightarrow> ck_final ck b (if x = [] then None else Some x) | None \<Rightarrow> [])"

text \<open>Data the sink does not refuse.\<close>

definition acceptable :: "(snap_meta \<times> bytes) option \<Rightarrow> paths \<Rightarrow> bytes \<Rightarrow> bool" where
  "acceptable old ext b \<longleftrightarrow> (old = None \<longrightarrow> IsValidSQLiteFile (Some b)) \<and>
     (b \<noteq> [] \<longrightarrow> (length b \<le> maxFilenameLen \<longrightarrow> \<not> isl (ext b)) \<and>
       (IsValidSQLiteFile (Some (incoming ext b)) \<or> old \<noteq> None \<and> IsValidSQLiteWALFile (Some (incoming ext b))))"

text \<open>After an error: something failed, or the data was refused.\<close>

definition halted :: "checkpoint \<Rightarrow> sess \<Rightarrow> faults \<Rightarrow> paths \<Rightarrow> bytes \<Rightarrow> sdir \<Rightarrow> bool" where
  "halted ck \<sigma> flt ext b d \<longleftrightarrow> recoverable ck \<sigma> d \<and> (faulty flt \<or> \<not> acceptable (se_old \<sigma>) ext b)"

section \<open>Writing\<close>

definition holding :: "sess \<Rightarrow> meta_file \<Rightarrow> bytes \<Rightarrow> sdir \<Rightarrow> bool" where
  "holding \<sigma> x b d \<longleftrightarrow> phaseA \<sigma> d \<and> map_of d (TmpN (se_ID \<sigma>)) = Some (DirI x (Some b)) \<and>
     map_of d (DbN (se_ID \<sigma>)) = None \<and> map_of d (WalN (se_ID \<sigma>)) = None"

lemma holding_data: "holding \<sigma> x b d \<Longrightarrow> data_file (se_ID \<sigma>) d = Some b"
  by (simp add: holding_def data_file_def)

lemma holding_put_data: "holding \<sigma> x b d \<Longrightarrow> holding \<sigma> x c (put_data (se_ID \<sigma>) (Some c) d)"
  by (simp add: holding_def put_data_def phaseA_update_tmp)

lemma holding_put_meta: "holding \<sigma> x b d \<Longrightarrow> holding \<sigma> y b (put_meta (TmpN (se_ID \<sigma>)) y d)"
  by (simp add: holding_def put_meta_def phaseA_update_tmp)

lemma holding_A: "holding \<sigma> x b d \<Longrightarrow> phaseA \<sigma> d"
  by (simp add: holding_def)

lemma trip_create:
  "trip (recoverable ck \<sigma>) (\<lambda>d. phaseA \<sigma> d \<and> no_tmp d \<and> map_of d (DbN (se_ID \<sigma>)) = None \<and> map_of d (WalN (se_ID \<sigma>)) = None)
     (and_then (os_MkdirAll flt (TmpN (se_ID \<sigma>))) (\<lambda>_. fs_step flt (put_data (se_ID \<sigma>) (Some []))))
     (\<lambda>_. holding \<sigma> NoMeta []) (\<lambda>d. phaseA \<sigma> d \<and> faulty flt)"
proof (rule trip_and_then [where J = "\<lambda>_ d. phaseA \<sigma> d \<and> map_of d (TmpN (se_ID \<sigma>)) = Some (DirI NoMeta None) \<and>
    map_of d (DbN (se_ID \<sigma>)) = None \<and> map_of d (WalN (se_ID \<sigma>)) = None"])
  show "trip (recoverable ck \<sigma>) (\<lambda>d. phaseA \<sigma> d \<and> no_tmp d \<and> map_of d (DbN (se_ID \<sigma>)) = None \<and> map_of d (WalN (se_ID \<sigma>)) = None)
     (os_MkdirAll flt (TmpN (se_ID \<sigma>))) (\<lambda>_ d. phaseA \<sigma> d \<and> map_of d (TmpN (se_ID \<sigma>)) = Some (DirI NoMeta None) \<and>
    map_of d (DbN (se_ID \<sigma>)) = None \<and> map_of d (WalN (se_ID \<sigma>)) = None) (\<lambda>d. phaseA \<sigma> d \<and> faulty flt)"
    by (rule trip_look [where h = "\<lambda>_. fs_step flt (AList.update (TmpN (se_ID \<sigma>)) (DirI NoMeta None))"])
      (simp add: os_MkdirAll_def no_tmp_def, rule trip_step, simp_all add: phaseA_update_tmp recoverable_phases)
next
  fix x :: unit
  show "trip (recoverable ck \<sigma>) (\<lambda>d. phaseA \<sigma> d \<and> map_of d (TmpN (se_ID \<sigma>)) = Some (DirI NoMeta None) \<and>
    map_of d (DbN (se_ID \<sigma>)) = None \<and> map_of d (WalN (se_ID \<sigma>)) = None)
     (fs_step flt (put_data (se_ID \<sigma>) (Some []))) (\<lambda>_. holding \<sigma> NoMeta []) (\<lambda>d. phaseA \<sigma> d \<and> faulty flt)"
    by (rule trip_step) (simp_all add: holding_def put_data_def phaseA_update_tmp recoverable_phases)
qed

lemma trip_write:
  assumes "sk_fd k" "sk_meta k = se_meta \<sigma>"
  shows "trip (recoverable ck \<sigma>) (holding \<sigma> x b) (sink_Write flt part p k) (\<lambda>_. holding \<sigma> x (b @ p))
    (\<lambda>d. phaseA \<sigma> d \<and> faulty flt)"
proof (rule tripI)
  fix s assume s: "seen (recoverable ck \<sigma>) s" "holding \<sigma> x b (fs_dir s)"
  have h: "holding \<sigma> x c (put_data (se_ID \<sigma>) (Some c) (fs_dir s))" for c by (rule holding_put_data [OF s(2)])
  have A: "phaseA \<sigma> (put_data (se_ID \<sigma>) (Some c) (fs_dir s))" for c using h holding_A by blast
  show "case sink_Write flt part p k s of (Inr y, s') \<Rightarrow> seen (recoverable ck \<sigma>) s' \<and> holding \<sigma> x (b @ p) (fs_dir s')
      | (Inl e, s') \<Rightarrow> seen (recoverable ck \<sigma>) s' \<and> phaseA \<sigma> (fs_dir s') \<and> faulty flt"
    using assms s(1) h A recoverable_phases(1) [OF A]
    by (auto simp: sink_Write_def Let_def fs_step_def holding_data [OF s(2)] seen_def faulty_def split: option.splits)
qed

lemma trip_Persist:
  assumes "sk_fd k" "sk_meta k = se_meta \<sigma>"
  shows "trip (recoverable ck \<sigma>) (holding \<sigma> x b) (snapshot_Persist flt ps k)
    (\<lambda>_. holding \<sigma> x (b @ concat (map snd ps))) (\<lambda>d. phaseA \<sigma> d \<and> faulty flt)"
proof (induction ps arbitrary: b)
  case Nil
  then show ?case by (simp add: trip_def)
next
  case (Cons y ps)
  obtain part p where y: "y = (part, p)" by (cases y)
  have "trip (recoverable ck \<sigma>) (holding \<sigma> x b) (and_then (sink_Write flt part p k) (\<lambda>_. snapshot_Persist flt ps k))
    (\<lambda>_. holding \<sigma> x ((b @ p) @ concat (map snd ps))) (\<lambda>d. phaseA \<sigma> d \<and> faulty flt)"
    by (rule trip_and_then [OF trip_write [OF assms] Cons.IH])
  then show ?case by (simp add: y trip_def)
qed

lemma trip_writeMeta:
  "trip (recoverable ck \<sigma>) (holding \<sigma> x b) (writeMeta flt (TmpN (se_ID \<sigma>)) m) (\<lambda>_. holding \<sigma> (Meta m) b)
    (\<lambda>d. phaseA \<sigma> d \<and> faulty flt)"
proof (rule trip_look [where h = "\<lambda>_. and_then (fs_step flt (put_meta (TmpN (se_ID \<sigma>)) BadMeta))
    (\<lambda>_. fs_step flt (put_meta (TmpN (se_ID \<sigma>)) (Meta m)))"])
  fix d assume d: "holding \<sigma> x b d"
  have *: "trip (recoverable ck \<sigma>) (holding \<sigma> x b) (fs_step flt (put_meta (TmpN (se_ID \<sigma>)) y)) (\<lambda>_. holding \<sigma> y b)
      (\<lambda>d. phaseA \<sigma> d \<and> faulty flt)" for x y
  proof (rule trip_step)
    fix d assume "holding \<sigma> x b d"
    from holding_put_meta [OF this, of y]
    show "recoverable ck \<sigma> (put_meta (TmpN (se_ID \<sigma>)) y d) \<and> holding \<sigma> y b (put_meta (TmpN (se_ID \<sigma>)) y d)"
      using holding_A recoverable_phases(1) by blast
  qed (simp add: holding_A)
  show "trip (recoverable ck \<sigma>) (\<lambda>d'. d' = d) (and_then (fs_step flt (put_meta (TmpN (se_ID \<sigma>)) BadMeta))
    (\<lambda>_. fs_step flt (put_meta (TmpN (se_ID \<sigma>)) (Meta m)))) (\<lambda>_. holding \<sigma> (Meta m) b) (\<lambda>d. phaseA \<sigma> d \<and> faulty flt)"
    by (rule trip_weaken [OF trip_and_then [OF * *]]) (use d in simp_all)
qed (simp add: writeMeta_def holding_def)


section \<open>Putting the data in place\<close>

text \<open>The data is beside the temporary directory, ready for the rename.\<close>

definition staged :: "checkpoint \<Rightarrow> sess \<Rightarrow> nat \<Rightarrow> sdir \<Rightarrow> bool" where
  "staged ck \<sigma> sz d \<longleftrightarrow> phaseA \<sigma> d \<and> (\<exists>c. map_of d (TmpN (se_ID \<sigma>)) = Some (DirI (Meta (se_meta \<sigma>)) c)) \<and>
     (sz \<noteq> 0 \<and> good_db (se_new \<sigma>) \<and> file_at (DbN (se_ID \<sigma>)) d = Some (se_new \<sigma>) \<and> file_at (WalN (se_ID \<sigma>)) d = None \<or>
      file_at (DbN (se_ID \<sigma>)) d = None \<and> (\<exists>mp b. se_old \<sigma> = Some (mp, b) \<and> new_db ck \<sigma> d b) \<and>
      (IsValidSQLiteWALFile (file_at (WalN (se_ID \<sigma>)) d) \<or> sz = 0))"

lemma staged_empty:
  assumes "ck_law ck" "holding \<sigma> (Meta (se_meta \<sigma>)) [] d" "se_old \<sigma> = Some (mp, b)" "se_new \<sigma> = b"
  shows "staged ck \<sigma> 0 d"
proof -
  have "good_db b" using assms(2,3) by (simp add: holding_def phaseA_def old_is_def)
  then show ?thesis using assms by (simp add: staged_def holding_def file_at_def new_db_def ck_final_none)
qed

lemma staged_full:
  assumes "holding \<sigma> (Meta (se_meta \<sigma>)) x d" "good_db x" "se_new \<sigma> = x" "sz \<noteq> 0"
  shows "staged ck \<sigma> sz (AList.update (DbN (se_ID \<sigma>)) (FileI x) (put_data (se_ID \<sigma>) None d))"
proof -
  have "phaseA \<sigma> (AList.update (DbN (se_ID \<sigma>)) (FileI x) (put_data (se_ID \<sigma>) None d))"
    by (rule phaseA_update_file [OF phaseA_put_data [OF holding_A [OF assms(1)]]]) simp
  then show ?thesis using assms by (simp add: staged_def holding_def put_data_def file_at_def)
qed

lemma staged_wal:
  assumes "ck_law ck" "holding \<sigma> (Meta (se_meta \<sigma>)) x d" "IsValidSQLiteWALFile (Some x)"
    "se_old \<sigma> = Some (mp, b)" "se_new \<sigma> = ck_final ck b (Some x)"
  shows "staged ck \<sigma> sz (AList.update (WalN (se_ID \<sigma>)) (FileI x) (put_data (se_ID \<sigma>) None d))"
proof -
  have "phaseA \<sigma> (AList.update (WalN (se_ID \<sigma>)) (FileI x) (put_data (se_ID \<sigma>) None d))"
    by (rule phaseA_update_file [OF phaseA_put_data [OF holding_A [OF assms(2)]]]) simp
  moreover have "good_db b" using assms(2,4) by (simp add: holding_def phaseA_def old_is_def)
  ultimately show ?thesis using assms by (simp add: staged_def holding_def put_data_def file_at_def new_db_def)
qed

text \<open>What a session's new database is.\<close>

definition brings :: "checkpoint \<Rightarrow> paths \<Rightarrow> sess \<Rightarrow> bytes \<Rightarrow> bool" where
  "brings ck ext \<sigma> b \<longleftrightarrow> se_new \<sigma> = installed ck (se_old \<sigma>) (incoming ext b) \<and>
     (IsValidSQLiteFile (Some (incoming ext b)) \<longrightarrow> good_db (incoming ext b))"

lemma trip_fetch:
  assumes "b \<noteq> []"
  shows "trip (recoverable ck \<sigma>) (holding \<sigma> x b) (fetch_path ext flt (se_ID \<sigma>) b)
    (\<lambda>_. holding \<sigma> x (incoming ext b)) (halted ck \<sigma> flt ext b)"
proof (cases "maxFilenameLen < length b")
  case True
  then show ?thesis by (simp add: fetch_path_def incoming_def trip_done)
next
  case False
  show ?thesis
  proof (cases "ext b")
    case (Inl e)
    then have "\<not> acceptable (se_old \<sigma>) ext b" using assms False by (simp add: acceptable_def)
    then show ?thesis using False Inl assms
      by (auto simp: fetch_path_def halted_def recoverable_phases holding_A intro!: trip_fail)
  next
    case (Inr c)
    have "trip (recoverable ck \<sigma>) (holding \<sigma> x b) (fs_step flt (put_data (se_ID \<sigma>) (Some y)))
        (\<lambda>_. holding \<sigma> x y) (halted ck \<sigma> flt ext b)" for y
    proof (rule trip_step)
      fix d assume "holding \<sigma> x b d"
      from holding_put_data [OF this, of y]
      show "recoverable ck \<sigma> (put_data (se_ID \<sigma>) (Some y) d) \<and> holding \<sigma> x y (put_data (se_ID \<sigma>) (Some y) d)"
        using holding_A recoverable_phases(1) by blast
    qed (simp add: halted_def recoverable_phases holding_A)
    then show ?thesis using False Inr assms
      by (cases c) (simp_all add: fetch_path_def incoming_def trip_done)
  qed
qed

lemma valid_not_empty: "IsValidSQLiteFile (Some b) \<Longrightarrow> b \<noteq> []" "IsValidSQLiteWALFile (Some b) \<Longrightarrow> b \<noteq> []"
  by (auto simp: IsValidSQLiteFile_def IsValidSQLiteWALFile_def)

lemma trip_place:
  assumes law: "ck_law ck" and br: "brings ck ext \<sigma> b" and ne: "b \<noteq> []"
    and ms: "ms = [] \<longleftrightarrow> se_old \<sigma> = None" "\<forall>mp c. se_old \<sigma> = Some (mp, c) \<longrightarrow> last ms = mp"
  shows "trip (recoverable ck \<sigma>) (holding \<sigma> (Meta (se_meta \<sigma>)) b) (place_data ext flt (se_ID \<sigma>) b ms)
    (\<lambda>_. staged ck \<sigma> (length b)) (halted ck \<sigma> flt ext b)"
  unfolding place_data_def
proof (rule trip_and_then [OF trip_fetch [OF ne]])
  fix u :: unit
  let ?x = "incoming ext b"
  define put where "put = (\<lambda>n :: string \<Rightarrow> fname. fs_step flt (\<lambda>d. AList.update (n (se_ID \<sigma>)) (FileI ?x) (put_data (se_ID \<sigma>) None d)))"
  define h where "h = (if IsValidSQLiteFile (Some ?x) then put DbN
     else if IsValidSQLiteWALFile (Some ?x) \<and> se_old \<sigma> \<noteq> None then put WalN else fail (if IsValidSQLiteWALFile (Some ?x)
       then ''index out of range'' else ''invalid snapshot data file''))"
  show "trip (recoverable ck \<sigma>) (holding \<sigma> (Meta (se_meta \<sigma>)) ?x)
    (\<lambda>s. let f = data_file (se_ID \<sigma>) (fs_dir s) in
        if IsValidSQLiteFile f then
          fs_step flt (\<lambda>d. AList.update (DbN (se_ID \<sigma>)) (FileI (the f)) (put_data (se_ID \<sigma>) None d)) s
        else if IsValidSQLiteWALFile f then
          (if ms = [] then fail ''index out of range'' s
           else if \<not> IsValidSQLiteFile (file_at (DbN (sm_ID (last ms))) (fs_dir s))
           then fail ''previous snapshot data is not a SQLite file'' s
           else fs_step flt (\<lambda>d. AList.update (WalN (se_ID \<sigma>)) (FileI (the f)) (put_data (se_ID \<sigma>) None d)) s)
        else fail ''invalid snapshot data file'' s)
    (\<lambda>_. staged ck \<sigma> (length b)) (halted ck \<sigma> flt ext b)"
  proof (rule trip_look [where h = "\<lambda>_. h"])
    fix s :: fs assume s: "holding \<sigma> (Meta (se_meta \<sigma>)) ?x (fs_dir s)"
    have "IsValidSQLiteFile (file_at (DbN (sm_ID (last ms))) (fs_dir s))" if old: "se_old \<sigma> \<noteq> None"
    proof -
      obtain mp c where o: "se_old \<sigma> = Some (mp, c)" using old by (cases "se_old \<sigma>") auto
      then have "old_is \<sigma> (fs_dir s)" using s by (simp add: holding_def phaseA_def)
      then show ?thesis using o ms(2) by (simp add: old_is_def good_db_valid)
    qed
    then show "(let f = data_file (se_ID \<sigma>) (fs_dir s) in
        if IsValidSQLiteFile f then
          fs_step flt (\<lambda>d. AList.update (DbN (se_ID \<sigma>)) (FileI (the f)) (put_data (se_ID \<sigma>) None d)) s
        else if IsValidSQLiteWALFile f then
          (if ms = [] then fail ''index out of range'' s
           else if \<not> IsValidSQLiteFile (file_at (DbN (sm_ID (last ms))) (fs_dir s))
           then fail ''previous snapshot data is not a SQLite file'' s
           else fs_step flt (\<lambda>d. AList.update (WalN (se_ID \<sigma>)) (FileI (the f)) (put_data (se_ID \<sigma>) None d)) s)
        else fail ''invalid snapshot data file'' s) = h s"
      using ms(1) by (cases "se_old \<sigma> = None") (auto simp add: h_def put_def holding_data [OF s] fail_def)
  next
    fix d assume d: "holding \<sigma> (Meta (se_meta \<sigma>)) ?x d"
    have A: "phaseA \<sigma> d" by (rule holding_A [OF d])
    have put: "trip (recoverable ck \<sigma>) (\<lambda>d'. d' = d) (put n) (\<lambda>_. staged ck \<sigma> (length b)) (halted ck \<sigma> flt ext b)"
      if "staged ck \<sigma> (length b) (AList.update (n (se_ID \<sigma>)) (FileI ?x) (put_data (se_ID \<sigma>) None d))" for n
      unfolding put_def
      by (rule trip_step) (use that A in \<open>simp_all add: staged_def halted_def recoverable_phases\<close>)
    show "trip (recoverable ck \<sigma>) (\<lambda>d'. d' = d) h (\<lambda>_. staged ck \<sigma> (length b)) (halted ck \<sigma> flt ext b)"
    proof (cases "IsValidSQLiteFile (Some ?x)")
      case True
      have "staged ck \<sigma> (length b) (AList.update (DbN (se_ID \<sigma>)) (FileI ?x) (put_data (se_ID \<sigma>) None d))"
        by (rule staged_full [OF d]) (use br True ne in \<open>simp_all add: brings_def installed_def\<close>)
      then show ?thesis using put True by (simp add: h_def)
    next
      case False
      show ?thesis
      proof (cases "IsValidSQLiteWALFile (Some ?x) \<and> se_old \<sigma> \<noteq> None")
        case True
        then obtain mp c where o: "se_old \<sigma> = Some (mp, c)" by (cases "se_old \<sigma>") auto
        have "staged ck \<sigma> (length b) (AList.update (WalN (se_ID \<sigma>)) (FileI ?x) (put_data (se_ID \<sigma>) None d))"
          by (rule staged_wal [OF law d conjunct1 [OF True] o])
            (use br False True o valid_not_empty(2) [of ?x] in \<open>simp add: brings_def installed_def\<close>)
        then show ?thesis using put True False by (simp add: h_def)
      next
        case bad: False
        then have "\<not> acceptable (se_old \<sigma>) ext b" using False ne by (auto simp: acceptable_def)
        then have "halted ck \<sigma> flt ext b d" using A by (simp add: halted_def recoverable_phases)
        then show ?thesis unfolding h_def using bad False by (simp only: if_False) (rule trip_fail, simp)
      qed
    qed
  qed
qed


section \<open>The rename\<close>

definition arrived :: "checkpoint \<Rightarrow> sess \<Rightarrow> nat \<Rightarrow> sdir \<Rightarrow> bool" where
  "arrived ck \<sigma> sz d \<longleftrightarrow> readable d \<and> (settled \<sigma> d \<and> sz \<noteq> 0 \<or>
     unmerged ck \<sigma> d \<and> (IsValidSQLiteWALFile (file_at (WalN (se_ID \<sigma>)) d) \<or> sz = 0))"

lemma phaseA_readable:
  assumes "phaseA \<sigma> d"
  shows "readable d"
proof -
  have "\<exists>ms. getSnapshots d = Inr ms"
    using phaseA_newest(2,3) [OF assms] by (cases "se_old \<sigma>") auto
  moreover have "distinct (map fst d)" using assms by (simp add: phaseA_def wf_dir_def)
  ultimately show ?thesis using getSnapshots_readable by blast
qed

lemma staged_rename:
  assumes "staged ck \<sigma> sz d"
  shows "arrived ck \<sigma> sz (mv (TmpN (se_ID \<sigma>)) (DirN (se_ID \<sigma>)) d)"
proof -
  obtain c where c: "map_of d (TmpN (se_ID \<sigma>)) = Some (DirI (Meta (se_meta \<sigma>)) c)" and A: "phaseA \<sigma> d"
    using assms by (auto simp: staged_def)
  have mv: "mv (TmpN (se_ID \<sigma>)) (DirN (se_ID \<sigma>)) d =
      AList.update (DirN (se_ID \<sigma>)) (DirI (Meta (se_meta \<sigma>)) c) (AList.delete (TmpN (se_ID \<sigma>)) d)" (is "_ = ?d")
    using c by (simp add: mv_def)
  have eq: "\<exists>z. se_meta \<sigma> = (se_meta \<sigma>)\<lparr>sm_Size := z\<rparr>"
    by (rule exI [of _ "sm_Size (se_meta \<sigma>)"]) simp
  have wf: "wf_dir d" "below \<sigma> d" "old_is \<sigma> d" using A by (simp_all add: phaseA_def)
  have "\<forall>i. map_of ?d (TmpN i) = None" using phaseA_tmpD [OF A] by simp
  then have pl: "placed \<sigma> ?d" using wf eq by (simp add: placed_def)
  have old: "old_is \<sigma> ?d" using wf by simp
  have rd: "readable ?d" using phaseA_readable [OF A] by (simp add: readable_def)
  from assms consider "sz \<noteq> 0" "good_db (se_new \<sigma>)" "file_at (DbN (se_ID \<sigma>)) d = Some (se_new \<sigma>)" "file_at (WalN (se_ID \<sigma>)) d = None"
    | "file_at (DbN (se_ID \<sigma>)) d = None" "\<exists>mp b. se_old \<sigma> = Some (mp, b) \<and> new_db ck \<sigma> d b"
      "IsValidSQLiteWALFile (file_at (WalN (se_ID \<sigma>)) d) \<or> sz = 0"
    unfolding staged_def by (elim conjE disjE) simp_all
  then show ?thesis
  proof cases
    case 1
    then have "settled \<sigma> ?d" using pl by (simp add: settled_def)
    then show ?thesis using rd 1 by (simp add: arrived_def mv)
  next
    case 2
    then have "unmerged ck \<sigma> ?d" using pl old by (simp add: unmerged_def new_db_def)
    then show ?thesis using rd 2 by (simp add: arrived_def mv)
  qed
qed

lemma arrived_recoverable: "ck_law ck \<Longrightarrow> arrived ck \<sigma> sz d \<Longrightarrow> recoverable ck \<sigma> d"
  by (auto simp: arrived_def recoverable_phases)

lemma trip_rename:
  assumes law: "ck_law ck"
  shows "trip (recoverable ck \<sigma>) (staged ck \<sigma> sz) (os_Rename flt (TmpN (se_ID \<sigma>)) (DirN (se_ID \<sigma>)))
    (\<lambda>_. arrived ck \<sigma> sz) (\<lambda>d. recoverable ck \<sigma> d \<and> faulty flt)"
proof (rule trip_look [where h = "\<lambda>_. fs_step flt (mv (TmpN (se_ID \<sigma>)) (DirN (se_ID \<sigma>)))"])
  fix s :: fs assume "staged ck \<sigma> sz (fs_dir s)"
  then have "map_of (fs_dir s) (TmpN (se_ID \<sigma>)) \<noteq> None" by (auto simp: staged_def)
  then show "os_Rename flt (TmpN (se_ID \<sigma>)) (DirN (se_ID \<sigma>)) s = fs_step flt (mv (TmpN (se_ID \<sigma>)) (DirN (se_ID \<sigma>))) s"
    by (auto simp: os_Rename_def)
next
  fix d assume d: "staged ck \<sigma> sz d"
  then have "recoverable ck \<sigma> d" by (simp add: staged_def recoverable_phases)
  then show "trip (recoverable ck \<sigma>) (\<lambda>d'. d' = d) (fs_step flt (mv (TmpN (se_ID \<sigma>)) (DirN (se_ID \<sigma>))))
    (\<lambda>_. arrived ck \<sigma> sz) (\<lambda>d. recoverable ck \<sigma> d \<and> faulty flt)"
    by (intro trip_step) (use staged_rename [OF d] arrived_recoverable [OF law] in auto)
qed

lemma trip_sync:
  assumes "\<And>d. I d \<Longrightarrow> R d"
  shows "trip R I (syncDir flt) (\<lambda>_. I) (\<lambda>d. R d \<and> faulty flt)"
  unfolding syncDir_def by (rule trip_step) (use assms in simp_all)

lemma trip_merge:
  assumes law: "ck_law ck"
  shows "trip (recoverable ck \<sigma>) (arrived ck \<sigma> sz) (merge_wal ck flt sz)
    (\<lambda>_ d. settled \<sigma> d \<and> readable d) (\<lambda>d. recoverable ck \<sigma> d \<and> faulty flt)"
proof (rule trip_look [where h = "\<lambda>d. if unmerged ck \<sigma> d then and_then
    (os_Rename flt (DbN (sm_ID (fst (the (se_old \<sigma>))))) (DbN (se_ID \<sigma>))) (\<lambda>_. CheckpointRemove ck flt (se_ID \<sigma>))
    else done_with ()"])
  fix s :: fs assume s: "arrived ck \<sigma> sz (fs_dir s)"
  then have rd: "readable (fs_dir s)" "placed \<sigma> (fs_dir s)" by (auto simp: arrived_def settled_def unmerged_def)
  obtain ms z where ms: "getSnapshots (fs_dir s) = Inr ms" "ms \<noteq> []" "last ms = (se_meta \<sigma>)\<lparr>sm_Size := z\<rparr>"
    by (rule placed_newest [OF rd(2,1)])
  show "merge_wal ck flt sz s = (if unmerged ck \<sigma> (fs_dir s) then and_then
    (os_Rename flt (DbN (sm_ID (fst (the (se_old \<sigma>))))) (DbN (se_ID \<sigma>))) (\<lambda>_. CheckpointRemove ck flt (se_ID \<sigma>))
    else done_with ()) s"
  proof (cases "unmerged ck \<sigma> (fs_dir s)")
    case True
    then obtain mp b where old: "se_old \<sigma> = Some (mp, b)" by (auto simp: unmerged_def)
    have "IsValidSQLiteWALFile (file_at (WalN (se_ID \<sigma>)) (fs_dir s)) \<or> sz = 0"
      using s True by (auto simp: arrived_def settled_def unmerged_def)
    then show ?thesis
      using unmerged_prev [OF True rd(1) old ms] ms old True by (simp add: merge_wal_def Let_def)
  next
    case False
    then have "file_at (WalN (se_ID \<sigma>)) (fs_dir s) = None" "sz \<noteq> 0" using s by (auto simp: arrived_def settled_def)
    then show ?thesis using ms False by (simp add: merge_wal_def done_with_def IsValidSQLiteWALFile_def Let_def)
  qed
next
  fix d assume d: "arrived ck \<sigma> sz d"
  then have rd: "readable d" "placed \<sigma> d" by (auto simp: arrived_def settled_def unmerged_def)
  show "trip (recoverable ck \<sigma>) (\<lambda>d'. d' = d) (if unmerged ck \<sigma> d then and_then
    (os_Rename flt (DbN (sm_ID (fst (the (se_old \<sigma>))))) (DbN (se_ID \<sigma>))) (\<lambda>_. CheckpointRemove ck flt (se_ID \<sigma>))
    else done_with ()) (\<lambda>_ d. settled \<sigma> d \<and> readable d) (\<lambda>d. recoverable ck \<sigma> d \<and> faulty flt)"
  proof (cases "unmerged ck \<sigma> d")
    case True
    then obtain mp b where old: "se_old \<sigma> = Some (mp, b)" by (auto simp: unmerged_def)
    have 1: "trip (recoverable ck \<sigma>) (\<lambda>d'. d' = d) (os_Rename flt (DbN (sm_ID mp)) (DbN (se_ID \<sigma>)))
      (\<lambda>_ d'. merging ck \<sigma> d' \<and> dirs_are (dir_meta d) d') (\<lambda>d. recoverable ck \<sigma> d \<and> faulty flt)"
      by (rule trip_weaken [OF trip_conj [OF trip_move [OF old] dirs_are_move [of "dir_meta d"]]])
        (use True in \<open>simp_all add: dirs_are_def recoverable_phases\<close>)
    have 2: "trip (recoverable ck \<sigma>) (\<lambda>d'. merging ck \<sigma> d' \<and> dirs_are (dir_meta d) d') (CheckpointRemove ck flt (se_ID \<sigma>))
      (\<lambda>_ d. settled \<sigma> d \<and> readable d) (\<lambda>d. recoverable ck \<sigma> d \<and> faulty flt)"
      by (rule trip_weaken [OF trip_conj [OF trip_checkpoint_new [OF law] dirs_are_CheckpointRemove [of "dir_meta d"]]])
        (use dirs_are_listed(1) [OF rd(2,1)] in \<open>simp_all add: recoverable_phases\<close>)
    show ?thesis using trip_and_then [OF 1 2] True old by simp
  next
    case False
    then show ?thesis using d by (simp add: arrived_def trip_done_at)
  qed
qed


section \<open>Closing the sink\<close>

lemma phaseA_list:
  assumes "phaseA \<sigma> d"
  obtains ms where "getSnapshots d = Inr ms" "ms = [] \<longleftrightarrow> se_old \<sigma> = None"
    "\<forall>mp c. se_old \<sigma> = Some (mp, c) \<longrightarrow> last ms = mp"
proof (cases "se_old \<sigma>")
  case None
  then show ?thesis using that [OF phaseA_newest(3) [OF assms None]] by simp
next
  case (Some y)
  obtain mp c where y: "y = (mp, c)" by (cases y)
  obtain ms where "getSnapshots d = Inr ms" "ms \<noteq> []" "last ms = mp"
    using phaseA_newest(2) [OF assms] Some y by blast
  then show ?thesis using that Some y by simp
qed

lemma old_less:
  assumes "phaseA \<sigma> d" "se_old \<sigma> = Some (mp, b)"
  shows "cmp_Less mp (se_meta \<sigma>)"
proof -
  have "below \<sigma> d" "sm_ID mp \<noteq> se_ID \<sigma>" "dir_meta d (sm_ID mp) = Some (Meta mp)"
    using assms by (simp_all add: phaseA_def old_is_def)
  then show ?thesis using belowD(3) by blast
qed

lemma trip_process:
  assumes law: "ck_law ck" and br: "brings ck ext \<sigma> b"
  shows "trip (recoverable ck \<sigma>) (holding \<sigma> (Meta (se_meta \<sigma>)) b) (process_data ck ext flt (se_meta \<sigma>))
    (\<lambda>_ d. settled \<sigma> d \<and> readable d) (halted ck \<sigma> flt ext b)"
proof (rule trip_look [where h = "\<lambda>d. if se_old \<sigma> = None \<and> \<not> IsValidSQLiteFile (Some b)
    then fail ''data for first snapshot must be a valid SQLite file''
    else and_then (if length b \<noteq> 0 then place_data ext flt (se_ID \<sigma>) b (projr (getSnapshots d)) else done_with ())
      (\<lambda>_. and_then (os_Rename flt (TmpN (se_ID \<sigma>)) (DirN (se_ID \<sigma>)))
        (\<lambda>_. and_then (syncDir flt) (\<lambda>_. and_then (merge_wal ck flt (length b)) (\<lambda>_. syncDir flt))))"])
  fix s :: fs assume s: "holding \<sigma> (Meta (se_meta \<sigma>)) b (fs_dir s)"
  then have A: "phaseA \<sigma> (fs_dir s)" by (rule holding_A)
  obtain ms where ms: "getSnapshots (fs_dir s) = Inr ms" "ms = [] \<longleftrightarrow> se_old \<sigma> = None"
    "\<forall>mp c. se_old \<sigma> = Some (mp, c) \<longrightarrow> last ms = mp" by (rule phaseA_list [OF A])
  have "cmp_Less (last ms) (se_meta \<sigma>)" if "se_old \<sigma> \<noteq> None"
    using that ms(3) old_less [OF A] by (cases "se_old \<sigma>") auto
  then show "process_data ck ext flt (se_meta \<sigma>) s = (if se_old \<sigma> = None \<and> \<not> IsValidSQLiteFile (Some b)
    then fail ''data for first snapshot must be a valid SQLite file''
    else and_then (if length b \<noteq> 0 then place_data ext flt (se_ID \<sigma>) b (projr (getSnapshots (fs_dir s))) else done_with ())
      (\<lambda>_. and_then (os_Rename flt (TmpN (se_ID \<sigma>)) (DirN (se_ID \<sigma>)))
        (\<lambda>_. and_then (syncDir flt) (\<lambda>_. and_then (merge_wal ck flt (length b)) (\<lambda>_. syncDir flt))))) s"
    using ms(1,2) by (cases "se_old \<sigma>") (simp_all add: process_data_def holding_data [OF s] fail_def)
next
  fix d assume d: "holding \<sigma> (Meta (se_meta \<sigma>)) b d"
  then have A: "phaseA \<sigma> d" by (rule holding_A)
  show "trip (recoverable ck \<sigma>) (\<lambda>d'. d' = d) (if se_old \<sigma> = None \<and> \<not> IsValidSQLiteFile (Some b)
    then fail ''data for first snapshot must be a valid SQLite file''
    else and_then (if length b \<noteq> 0 then place_data ext flt (se_ID \<sigma>) b (projr (getSnapshots d)) else done_with ())
      (\<lambda>_. and_then (os_Rename flt (TmpN (se_ID \<sigma>)) (DirN (se_ID \<sigma>)))
        (\<lambda>_. and_then (syncDir flt) (\<lambda>_. and_then (merge_wal ck flt (length b)) (\<lambda>_. syncDir flt)))))
    (\<lambda>_ d. settled \<sigma> d \<and> readable d) (halted ck \<sigma> flt ext b)"
  proof (cases "se_old \<sigma> = None \<and> \<not> IsValidSQLiteFile (Some b)")
    case True
    then have "halted ck \<sigma> flt ext b d" using A by (simp add: halted_def acceptable_def recoverable_phases)
    then have "trip (recoverable ck \<sigma>) (\<lambda>d'. d' = d) (fail ''data for first snapshot must be a valid SQLite file'')
        (\<lambda>_ d. settled \<sigma> d \<and> readable d) (halted ck \<sigma> flt ext b)" by (intro trip_fail) simp
    then show ?thesis using True by simp
  next
    case False
    obtain ms where ms: "getSnapshots d = Inr ms" "ms = [] \<longleftrightarrow> se_old \<sigma> = None"
      "\<forall>mp c. se_old \<sigma> = Some (mp, c) \<longrightarrow> last ms = mp" by (rule phaseA_list [OF A])
    have 1: "trip (recoverable ck \<sigma>) (\<lambda>d'. d' = d)
        (if length b \<noteq> 0 then place_data ext flt (se_ID \<sigma>) b (projr (getSnapshots d)) else done_with ())
        (\<lambda>_. staged ck \<sigma> (length b)) (halted ck \<sigma> flt ext b)"
    proof (cases "b = []")
      case True
      then have "se_old \<sigma> \<noteq> None" using False by (auto dest: valid_not_empty)
      then obtain mp c where o: "se_old \<sigma> = Some (mp, c)" by auto
      have "good_db c" using A o by (simp add: phaseA_def old_is_def)
      then have "se_new \<sigma> = c"
        using br True o law valid_not_empty(1) [of "[]"] by (auto simp: brings_def installed_def incoming_def ck_final_none)
      then have "staged ck \<sigma> (length b) d" using staged_empty [OF law _ o] d True by simp
      then show ?thesis using True by (simp add: trip_done_at)
    next
      case ne: False
      show ?thesis using ne ms(1)
        by simp (rule trip_weaken [OF trip_place [OF law br ne ms(2,3)]], use d in simp_all)
    qed
    have E: "halted ck \<sigma> flt ext b d" if "recoverable ck \<sigma> d \<and> faulty flt" for d using that by (simp add: halted_def)
    have R: "recoverable ck \<sigma> d" if "settled \<sigma> d" for d using that by (rule recoverable_phases(4) [OF law])
    have 2: "trip (recoverable ck \<sigma>) (staged ck \<sigma> (length b)) (and_then (os_Rename flt (TmpN (se_ID \<sigma>)) (DirN (se_ID \<sigma>)))
        (\<lambda>_. and_then (syncDir flt) (\<lambda>_. and_then (merge_wal ck flt (length b)) (\<lambda>_. syncDir flt))))
        (\<lambda>_ d. settled \<sigma> d \<and> readable d) (\<lambda>d. recoverable ck \<sigma> d \<and> faulty flt)"
      by (rule trip_and_then [OF trip_rename [OF law] trip_and_then [OF trip_sync [OF arrived_recoverable [OF law]]
            trip_and_then [OF trip_merge [OF law] trip_sync]]]) (use R in simp_all)
    have 3: "trip (recoverable ck \<sigma>) (staged ck \<sigma> (length b)) (and_then (os_Rename flt (TmpN (se_ID \<sigma>)) (DirN (se_ID \<sigma>)))
        (\<lambda>_. and_then (syncDir flt) (\<lambda>_. and_then (merge_wal ck flt (length b)) (\<lambda>_. syncDir flt))))
        (\<lambda>_ d. settled \<sigma> d \<and> readable d) (halted ck \<sigma> flt ext b)"
      by (rule trip_weaken [OF 2]) (use E in simp_all)
    show ?thesis unfolding if_not_P [OF False] by (rule trip_and_then [OF 1 3])
  qed
qed


lemma trip_cleanup: "trip (recoverable ck \<sigma>) (recoverable ck \<sigma>) (RemoveAllTmpSnapshotData flt)
    (\<lambda>_. recoverable ck \<sigma>) (recoverable ck \<sigma>)"
proof -
  have "trip (recoverable ck \<sigma>) (phaseA \<sigma>) (RemoveAllTmpSnapshotData flt) (\<lambda>_. recoverable ck \<sigma>) (recoverable ck \<sigma>)"
    by (rule trip_weaken [OF trip_RemoveAllTmp]) (simp_all add: recoverable_phases)
  moreover have "trip (recoverable ck \<sigma>) (\<lambda>d. unmerged ck \<sigma> d \<or> merging ck \<sigma> d) (RemoveAllTmpSnapshotData flt)
      (\<lambda>_ d. unmerged ck \<sigma> d \<or> merging ck \<sigma> d) (recoverable ck \<sigma>)"
    by (rule trip_RemoveAllTmp_none) (auto simp: unmerged_def merging_def placed_def no_tmp_def)
  then have "trip (recoverable ck \<sigma>) (\<lambda>d. unmerged ck \<sigma> d \<or> merging ck \<sigma> d) (RemoveAllTmpSnapshotData flt)
      (\<lambda>_. recoverable ck \<sigma>) (recoverable ck \<sigma>)"
    by (rule trip_weaken) (auto simp: recoverable_phases)
  ultimately show ?thesis by (rule trip_weaken [OF trip_disj]) (auto simp: recoverable_def)
qed

lemma trip_processSnapshotData:
  assumes law: "ck_law ck" and br: "brings ck ext \<sigma> b"
  shows "trip (recoverable ck \<sigma>) (holding \<sigma> (Meta (se_meta \<sigma>)) b) (processSnapshotData ck ext flt (se_meta \<sigma>))
    (\<lambda>_ d. settled \<sigma> d \<and> readable d) (halted ck \<sigma> flt ext b)"
proof (rule tripI)
  fix s assume s: "seen (recoverable ck \<sigma>) s" "holding \<sigma> (Meta (se_meta \<sigma>)) b (fs_dir s)"
  obtain r t where m: "process_data ck ext flt (se_meta \<sigma>) s = (r, t)" by (cases "process_data ck ext flt (se_meta \<sigma>) s")
  note t = tripD [OF trip_process [OF law br, where flt = flt] s, unfolded m]
  show "case processSnapshotData ck ext flt (se_meta \<sigma>) s of
      (Inr x, s') \<Rightarrow> seen (recoverable ck \<sigma>) s' \<and> settled \<sigma> (fs_dir s') \<and> readable (fs_dir s')
    | (Inl e, s') \<Rightarrow> seen (recoverable ck \<sigma>) s' \<and> halted ck \<sigma> flt ext b (fs_dir s')"
  proof (cases r)
    case (Inr x)
    then show ?thesis using t m by (simp add: processSnapshotData_def)
  next
    case (Inl e)
    then have t: "seen (recoverable ck \<sigma>) t" "halted ck \<sigma> flt ext b (fs_dir t)" using t by simp_all
    then have "recoverable ck \<sigma> (fs_dir t)" by (simp add: halted_def)
    from tripD [OF trip_cleanup t(1) this, of flt]
    have "seen (recoverable ck \<sigma>) (snd (RemoveAllTmpSnapshotData flt t))"
      "recoverable ck \<sigma> (fs_dir (snd (RemoveAllTmpSnapshotData flt t)))" by (auto split: prod.splits sum.splits)
    then show ?thesis using m Inl t(2) by (simp add: processSnapshotData_def halted_def)
  qed
qed

lemma trip_set_size:
  assumes law: "ck_law ck"
  shows "trip (recoverable ck \<sigma>) (\<lambda>d. settled \<sigma> d \<and> readable d) (set_size flt (se_ID \<sigma>))
    (\<lambda>_ d. settled \<sigma> d \<and> readable d \<and> sized \<sigma> (length (se_new \<sigma>)) d) (\<lambda>d. recoverable ck \<sigma> d \<and> faulty flt)"
proof (rule trip_look [where h = "\<lambda>_. updateMetaSize flt (se_ID \<sigma>) (length (se_new \<sigma>))"])
  fix s :: fs assume s: "settled \<sigma> (fs_dir s) \<and> readable (fs_dir s)"
  then have pl: "placed \<sigma> (fs_dir s)" by (simp add: settled_def)
  obtain ms z where "getSnapshots (fs_dir s) = Inr ms" "ms \<noteq> []" "last ms = (se_meta \<sigma>)\<lparr>sm_Size := z\<rparr>"
    by (rule placed_newest [OF pl]) (use s in auto)
  then show "set_size flt (se_ID \<sigma>) s = updateMetaSize flt (se_ID \<sigma>) (length (se_new \<sigma>)) s"
    using s by (simp add: set_size_def getDBPath_def settled_def)
next
  fix d assume d: "settled \<sigma> d \<and> readable d"
  then have "listed \<sigma> d"
    using dirs_are_listed(2) [of \<sigma> d d] by (simp add: settled_def dirs_are_def)
  then have l: "settled \<sigma> d \<and> listed \<sigma> d" using d by simp
  show "trip (recoverable ck \<sigma>) (\<lambda>d'. d' = d) (updateMetaSize flt (se_ID \<sigma>) (length (se_new \<sigma>)))
    (\<lambda>_ d. settled \<sigma> d \<and> readable d \<and> sized \<sigma> (length (se_new \<sigma>)) d) (\<lambda>d. recoverable ck \<sigma> d \<and> faulty flt)"
  proof (rule trip_weaken [OF trip_conj [OF trip_updateMetaSize [OF law, of \<sigma> flt "length (se_new \<sigma>)"]
        dirs_besides_updateMetaSize [of "se_ID \<sigma>" "dir_meta d"]]])
    fix x d' assume d': "(settled \<sigma> d' \<and> sized \<sigma> (length (se_new \<sigma>)) d') \<and> (\<forall>i. i \<noteq> se_ID \<sigma> \<longrightarrow> dir_meta d' i = dir_meta d i)"
    have "readable d'"
      by (rule sized_readable [where \<sigma> = \<sigma> and z = "length (se_new \<sigma>)" and d = d]) (use d d' in simp_all)
    then show "settled \<sigma> d' \<and> readable d' \<and> sized \<sigma> (length (se_new \<sigma>)) d'" using d' by simp
  qed (use l recoverable_phases(4) [OF law] in simp_all)
qed

section \<open>Reaping\<close>

text \<open>The directories still to be removed are among the names \<open>ns\<close> or have the IDs \<open>is\<close>.\<close>

definition reaping :: "sess \<Rightarrow> fname list \<Rightarrow> string list \<Rightarrow> sdir \<Rightarrow> bool" where
  "reaping \<sigma> ns is d \<longleftrightarrow> settled \<sigma> d \<and> sized \<sigma> (length (se_new \<sigma>)) d \<and> map_of d FlagN = None \<and>
     DirN (se_ID \<sigma>) \<notin> set ns \<and> DbN (se_ID \<sigma>) \<notin> set ns \<and>
     (\<forall>j. j \<noteq> se_ID \<sigma> \<longrightarrow> dir_meta d j \<noteq> None \<longrightarrow> DirN j \<in> set ns \<or> j \<in> set is)"

lemma below_shrink:
  assumes "below \<sigma> d" "\<And>i x. dir_meta d' i = Some x \<Longrightarrow> dir_meta d i = Some x \<or> x = NoMeta \<and> dir_meta d i \<noteq> None"
  shows "below \<sigma> d'"
  unfolding below_def
proof (intro allI impI conjI)
  fix i x assume i: "i \<noteq> se_ID \<sigma>" "dir_meta d' i = Some x"
  show "apart i (se_ID \<sigma>)" using assms(2) [OF i(2)] belowD(1) [OF assms(1) i(1)] by auto
  fix m assume "x = Meta m"
  then have "dir_meta d i = Some (Meta m)" using assms(2) [OF i(2)] by simp
  then show "sm_ID m = i" "cmp_Less m (se_meta \<sigma>)" using belowD(2,3) [OF assms(1) i(1)] by simp_all
qed

lemma settled_delete:
  assumes "settled \<sigma> d" "n \<noteq> DirN (se_ID \<sigma>)" "n \<noteq> DbN (se_ID \<sigma>)"
  shows "settled \<sigma> (AList.delete n d)"
proof -
  have "below \<sigma> d" using assms(1) by (simp add: settled_def placed_def)
  then have "below \<sigma> (AList.delete n d)" by (rule below_shrink) (simp split: if_splits)
  then show ?thesis using assms by (simp add: settled_def placed_def)
qed

lemma settled_emptied:
  assumes "settled \<sigma> d" "j \<noteq> se_ID \<sigma>" "dir_meta d j \<noteq> None"
  shows "settled \<sigma> (AList.update (DirN j) (DirI NoMeta None) d)"
proof -
  have "below \<sigma> d" using assms(1) by (simp add: settled_def placed_def)
  then have "below \<sigma> (AList.update (DirN j) (DirI NoMeta None) d)"
    by (rule below_shrink) (use assms(3) in \<open>auto split: if_splits\<close>)
  then show ?thesis using assms by (simp add: settled_def placed_def)
qed


lemma reaping_delete:
  assumes "reaping \<sigma> (n # ns) is d"
  shows "reaping \<sigma> ns is (AList.delete n d)"
  using assms settled_delete [of \<sigma> d n] unfolding reaping_def sized_def by auto

lemma reaping_emptied:
  assumes "reaping \<sigma> (DirN j # ns) is d" "dir_meta d j \<noteq> None"
  shows "reaping \<sigma> (DirN j # ns) is (AList.update (DirN j) (DirI NoMeta None) d)"
  using assms settled_emptied [of \<sigma> d j] unfolding reaping_def sized_def by auto

lemma reaping_recoverable: "ck_law ck \<Longrightarrow> reaping \<sigma> ns is d \<Longrightarrow> recoverable ck \<sigma> d"
  using recoverable_phases(4) unfolding reaping_def by blast

lemma trip_remove_name:
  assumes law: "ck_law ck"
  shows "trip (recoverable ck \<sigma>) (reaping \<sigma> (n # ns) is) (os_RemoveAll flt n) (\<lambda>_. reaping \<sigma> ns is)
    (\<lambda>d. recoverable ck \<sigma> d \<and> faulty flt)"
proof -
  have R: "recoverable ck \<sigma> d" if "reaping \<sigma> ns is d" for ns d using that by (rule reaping_recoverable [OF law])
  have del: "trip (recoverable ck \<sigma>) (reaping \<sigma> (n # ns) is) (fs_step flt (AList.delete n)) (\<lambda>_. reaping \<sigma> ns is)
    (\<lambda>d. recoverable ck \<sigma> d \<and> faulty flt)"
    by (rule trip_step) (use R reaping_delete in blast)+
  have dirs: "trip (recoverable ck \<sigma>) (\<lambda>d. reaping \<sigma> (n # ns) is d \<and> (\<exists>m b. map_of d n = Some (DirI m b)))
    (os_RemoveAll flt n) (\<lambda>_. reaping \<sigma> ns is) (\<lambda>d. recoverable ck \<sigma> d \<and> faulty flt)"
  proof (rule trip_remove_dir [where M = "reaping \<sigma> (n # ns) is"])
    fix d assume d: "reaping \<sigma> (n # ns) is d \<and> (\<exists>m b. map_of d n = Some (DirI m b))"
    then have k: "\<exists>m b. kind_ok n (DirI m b)" "no_tmp d"
      by (auto simp: reaping_def settled_def placed_def wf_dir_def no_tmp_def)
    then obtain j where j: "n = DirN j" using d by (cases n) (auto simp: no_tmp_def)
    then have "dir_meta d j \<noteq> None" using d by (auto simp: dir_meta_def)
    then have "reaping \<sigma> (n # ns) is (AList.update n (DirI NoMeta None) d)" using reaping_emptied d j by blast
    then show "recoverable ck \<sigma> (AList.update n (DirI NoMeta None) d) \<and> reaping \<sigma> (n # ns) is (AList.update n (DirI NoMeta None) d)"
      using R by blast
  qed (use R reaping_delete in blast)+
  have files: "trip (recoverable ck \<sigma>) (\<lambda>d. reaping \<sigma> (n # ns) is d \<and> (\<nexists>m b. map_of d n = Some (DirI m b)))
    (os_RemoveAll flt n) (\<lambda>_. reaping \<sigma> ns is) (\<lambda>d. recoverable ck \<sigma> d \<and> faulty flt)"
  proof (rule trip_look [where h = "\<lambda>_. fs_step flt (AList.delete n)"])
    fix d assume "reaping \<sigma> (n # ns) is d \<and> (\<nexists>m b. map_of d n = Some (DirI m b))"
    then show "trip (recoverable ck \<sigma>) (\<lambda>d'. d' = d) (fs_step flt (AList.delete n)) (\<lambda>_. reaping \<sigma> ns is)
        (\<lambda>d. recoverable ck \<sigma> d \<and> faulty flt)"
      by (intro trip_weaken [OF del]) simp_all
  qed (auto simp: os_RemoveAll_def split: option.splits inode.splits)
  show ?thesis by (rule trip_weaken [OF trip_disj [OF dirs files]]) blast+
qed

lemma trip_removeAllPrefix:
  assumes law: "ck_law ck" and ap: "apart i (se_ID \<sigma>)"
  shows "trip (recoverable ck \<sigma>) (reaping \<sigma> [] (i # is)) (removeAllPrefix flt i) (\<lambda>_. reaping \<sigma> [] is)
    (\<lambda>d. recoverable ck \<sigma> d \<and> faulty flt)"
proof (rule trip_look [where h = "\<lambda>d. for_each (os_RemoveAll flt) (glob i d)"])
  fix d assume d: "reaping \<sigma> [] (i # is) d"
  have "DirN (se_ID \<sigma>) \<notin> set (glob i d)" "DbN (se_ID \<sigma>) \<notin> set (glob i d)"
    using apart_matches [OF ap] by (auto simp: glob_map_of)
  moreover have "DirN i \<in> set (glob i d)" if "dir_meta d i \<noteq> None"
    using that by (auto simp: glob_map_of dir_meta_def matches_def has_prefix_iff split: option.splits)
  ultimately have "reaping \<sigma> (glob i d) is d" using d unfolding reaping_def by auto
  then show "trip (recoverable ck \<sigma>) (\<lambda>d'. d' = d) (for_each (os_RemoveAll flt) (glob i d)) (\<lambda>_. reaping \<sigma> [] is)
      (\<lambda>d. recoverable ck \<sigma> d \<and> faulty flt)"
    by (intro trip_weaken [OF trip_for_each [where I = "\<lambda>ns. reaping \<sigma> ns is" and xs = "glob i d",
            OF trip_remove_name [OF law]]]) simp_all
qed (simp add: removeAllPrefix_def)

lemma trip_reap_loop:
  assumes law: "ck_law ck" and "\<forall>m\<in>set ms. apart (sm_ID m) (se_ID \<sigma>)"
  shows "trip (recoverable ck \<sigma>) (reaping \<sigma> [] (map sm_ID ms)) (reap_loop flt k ms) (\<lambda>_. reaping \<sigma> [] [])
    (\<lambda>d. recoverable ck \<sigma> d \<and> faulty flt)"
  using assms(2)
proof (induction ms arbitrary: k)
  case Nil
  then show ?case by (simp add: trip_def)
next
  case (Cons m ms)
  have "trip (recoverable ck \<sigma>) (reaping \<sigma> [] (sm_ID m # map sm_ID ms))
    (and_then (removeAllPrefix flt (sm_ID m)) (\<lambda>_. reap_loop flt (k + 1) ms)) (\<lambda>_. reaping \<sigma> [] [])
    (\<lambda>d. recoverable ck \<sigma> d \<and> faulty flt)"
    by (rule trip_and_then [OF trip_removeAllPrefix [OF law] Cons.IH]) (use Cons.prems in simp_all)
  then show ?case by (simp add: trip_def)
qed


lemma trip_Reap:
  assumes law: "ck_law ck"
  shows "trip (recoverable ck \<sigma>)
    (\<lambda>d. settled \<sigma> d \<and> readable d \<and> sized \<sigma> (length (se_new \<sigma>)) d \<and> map_of d FlagN = None) (Reap flt)
    (\<lambda>_. reaping \<sigma> [] []) (\<lambda>d. recoverable ck \<sigma> d \<and> faulty flt)"
proof (rule trip_look [where h = "\<lambda>d. reap_loop flt 0 (butlast (projr (getSnapshots d)))"])
  fix s :: fs assume s: "settled \<sigma> (fs_dir s) \<and> readable (fs_dir s) \<and> sized \<sigma> (length (se_new \<sigma>)) (fs_dir s) \<and>
    map_of (fs_dir s) FlagN = None"
  then have pl: "placed \<sigma> (fs_dir s)" by (simp add: settled_def)
  obtain ms z where ms: "getSnapshots (fs_dir s) = Inr ms" "ms \<noteq> []" "last ms = (se_meta \<sigma>)\<lparr>sm_Size := z\<rparr>"
    by (rule placed_newest [OF pl]) (use s in auto)
  have "butlast ms = []" if "length ms \<le> 1" using that ms(2) by (cases ms) auto
  then show "Reap flt s = reap_loop flt 0 (butlast (projr (getSnapshots (fs_dir s)))) s"
    using ms(1) by (simp add: Reap_def)
next
  fix d assume d: "settled \<sigma> d \<and> readable d \<and> sized \<sigma> (length (se_new \<sigma>)) d \<and> map_of d FlagN = None"
  then have pl: "placed \<sigma> d" by (simp add: settled_def)
  then have b: "below \<sigma> d" "distinct (map fst d)" by (simp_all add: placed_def wf_dir_def)
  obtain ms z where ms: "getSnapshots d = Inr ms" "ms \<noteq> []" "last ms = (se_meta \<sigma>)\<lparr>sm_Size := z\<rparr>"
    by (rule placed_newest [OF pl]) (use d in auto)
  have split: "ms = butlast ms @ [last ms]" using ms(2) by simp
  have "distinct ms" using getSnapshots_distinct [OF b(2) ms(1)] placed_ids [OF pl] by blast
  then have nl: "last ms \<notin> set (butlast ms)" using split by (metis distinct_append disjoint_iff list.set_intros(1))
  have mem: "\<exists>i. dir_meta d i = Some (Meta m)" if "m \<in> set ms" for m
    using getSnapshots_set(1) [OF b(2) ms(1)] that by blast
  have ap: "\<forall>m\<in>set (butlast ms). apart (sm_ID m) (se_ID \<sigma>)"
  proof
    fix m assume m: "m \<in> set (butlast ms)"
    then obtain i where i: "dir_meta d i = Some (Meta m)" using mem in_set_butlastD by metis
    have "i \<noteq> se_ID \<sigma>"
    proof
      assume "i = se_ID \<sigma>"
      obtain j where j: "dir_meta d j = Some (Meta (last ms))" using mem ms(2) last_in_set by metis
      then have "j = se_ID \<sigma>" using placed_ids [OF pl j] ms(3) by simp
      then have "m = last ms" using i j \<open>i = se_ID \<sigma>\<close> by simp
      then show False using m nl by simp
    qed
    then show "apart (sm_ID m) (se_ID \<sigma>)" using belowD(1) [OF b(1) _ i] placed_ids [OF pl i] by simp
  qed
  have "j \<in> set (map sm_ID (butlast ms))" if j: "j \<noteq> se_ID \<sigma>" "dir_meta d j \<noteq> None" for j
  proof -
    obtain m where m: "dir_meta d j = Some (Meta m)" using d j(2) by (auto simp: readable_def)
    have id: "sm_ID m = j" by (rule placed_ids [OF pl m])
    have "m \<in> set ms" using getSnapshots_set(1) [OF b(2) ms(1)] m by blast
    moreover have "m \<noteq> last ms" using id j(1) ms(3) by auto
    ultimately have "m \<in> set (butlast ms)" using split by (metis Un_iff empty_iff insert_iff list.set set_append)
    then show ?thesis using id by auto
  qed
  then have "reaping \<sigma> [] (map sm_ID (butlast ms)) d" using d by (simp add: reaping_def)
  then show "trip (recoverable ck \<sigma>) (\<lambda>d'. d' = d) (reap_loop flt 0 (butlast (projr (getSnapshots d))))
      (\<lambda>_. reaping \<sigma> [] []) (\<lambda>d. recoverable ck \<sigma> d \<and> faulty flt)"
    using ms(1) by (intro trip_weaken [OF trip_reap_loop [OF law]]) (use ap in simp_all)
qed

lemma trip_unset:
  assumes law: "ck_law ck"
  shows "trip (recoverable ck \<sigma>) (\<lambda>d. settled \<sigma> d \<and> readable d \<and> sized \<sigma> z d) (unsetFullNeeded flt)
    (\<lambda>_ d. settled \<sigma> d \<and> readable d \<and> sized \<sigma> z d \<and> map_of d FlagN = None) (\<lambda>d. recoverable ck \<sigma> d \<and> faulty flt)"
  unfolding unsetFullNeeded_def
proof (rule trip_step)
  fix d assume d: "settled \<sigma> d \<and> readable d \<and> sized \<sigma> z d"
  then have "settled \<sigma> (AList.delete FlagN d)" using settled_delete by blast
  then show "recoverable ck \<sigma> (AList.delete FlagN d) \<and> settled \<sigma> (AList.delete FlagN d) \<and> readable (AList.delete FlagN d) \<and>
      sized \<sigma> z (AList.delete FlagN d) \<and> map_of (AList.delete FlagN d) FlagN = None"
    using d recoverable_phases(4) [OF law] by (simp add: readable_def sized_def)
qed (use recoverable_phases(4) [OF law] in blast)

lemma trip_finish:
  assumes law: "ck_law ck" and br: "brings ck ext \<sigma> b"
  shows "trip (recoverable ck \<sigma>) (holding \<sigma> x b) (finish ck ext flt (se_meta \<sigma>))
    (\<lambda>_. reaping \<sigma> [] []) (halted ck \<sigma> flt ext b)"
proof -
  have E: "halted ck \<sigma> flt ext b d" if "recoverable ck \<sigma> d \<and> faulty flt" for d using that by (simp add: halted_def)
  have E': "halted ck \<sigma> flt ext b d" if "phaseA \<sigma> d \<and> faulty flt" for d
    using that by (simp add: halted_def recoverable_phases)
  have 1: "trip (recoverable ck \<sigma>) (holding \<sigma> x b) (fs_step flt id) (\<lambda>_. holding \<sigma> x b) (halted ck \<sigma> flt ext b)"
    by (rule trip_step) (use E' holding_A recoverable_phases(1) in auto)
  have 2: "trip (recoverable ck \<sigma>) (holding \<sigma> x b) (writeMeta flt (TmpN (se_ID \<sigma>)) (se_meta \<sigma>))
      (\<lambda>_. holding \<sigma> (Meta (se_meta \<sigma>)) b) (halted ck \<sigma> flt ext b)"
    by (rule trip_weaken [OF trip_writeMeta]) (use E' in simp_all)
  have 3: "trip (recoverable ck \<sigma>) (\<lambda>d. settled \<sigma> d \<and> readable d) (and_then (set_size flt (se_ID \<sigma>))
      (\<lambda>_. and_then (unsetFullNeeded flt) (\<lambda>_. Reap flt))) (\<lambda>_. reaping \<sigma> [] []) (\<lambda>d. recoverable ck \<sigma> d \<and> faulty flt)"
    by (rule trip_and_then [OF trip_set_size [OF law] trip_and_then [OF trip_unset [OF law] trip_Reap [OF law]]])
  have 4: "trip (recoverable ck \<sigma>) (\<lambda>d. settled \<sigma> d \<and> readable d) (and_then (set_size flt (se_ID \<sigma>))
      (\<lambda>_. and_then (unsetFullNeeded flt) (\<lambda>_. Reap flt))) (\<lambda>_. reaping \<sigma> [] []) (halted ck \<sigma> flt ext b)"
    by (rule trip_weaken [OF 3]) (use E in simp_all)
  show ?thesis unfolding finish_def
    by (rule trip_and_then [OF 1 trip_and_then [OF 2 trip_and_then [OF trip_processSnapshotData [OF law br] 4]]])
qed


section \<open>A whole snapshot\<close>

definition new_meta :: "nat \<Rightarrow> nat \<Rightarrow> nat \<Rightarrow> snap_meta" where
  "new_meta now index trm = \<lparr>sm_ID = snapshotName trm index now, sm_Index = index, sm_Term = trm, sm_Size = 0\<rparr>"

definition latest_db :: "sdir \<Rightarrow> (snap_meta \<times> bytes) option" where
  "latest_db d = (case getSnapshots d of
     Inl _ \<Rightarrow> None
   | Inr ms \<Rightarrow> if ms = [] then None else Some (last ms, the (file_at (DbN (sm_ID (last ms))) d)))"

text \<open>A store that a new snapshot can come into: no temporary data, the newest snapshot is a sound
  database, all snapshots are earlier than the new one, and no name clashes with its ID.\<close>

definition ready :: "sdir \<Rightarrow> snap_meta \<Rightarrow> bool" where
  "ready d m \<longleftrightarrow> wf_dir d \<and> no_tmp d \<and> readable d \<and>
     (\<forall>i m'. dir_meta d i = Some (Meta m') \<longrightarrow> sm_ID m' = i \<and> apart i (sm_ID m) \<and> cmp_Less m' m) \<and>
     (\<forall>n. map_of d n \<noteq> None \<longrightarrow> \<not> matches (sm_ID m) n) \<and>
     (case newest d of None \<Rightarrow> True | Some (_, f, w) \<Rightarrow> w = None \<and> (\<exists>b. f = Some b \<and> good_db b))"

definition session :: "checkpoint \<Rightarrow> paths \<Rightarrow> sdir \<Rightarrow> snap_meta \<Rightarrow> bytes \<Rightarrow> sess" where
  "session ck ext d m b =
     \<lparr>se_old = latest_db d, se_meta = m, se_new = installed ck (latest_db d) (incoming ext b)\<rparr>"

lemma session_simps [simp]:
  "se_old (session ck ext d m b) = latest_db d" "se_meta (session ck ext d m b) = m"
  "se_new (session ck ext d m b) = installed ck (latest_db d) (incoming ext b)"
  by (simp_all add: session_def)

lemma ready_absent:
  assumes "ready d m"
  shows "map_of d (DbN (sm_ID m)) = None" "map_of d (WalN (sm_ID m)) = None" "dir_meta d (sm_ID m) = None"
proof -
  have "map_of d n = None" if "matches (sm_ID m) n" for n using assms that unfolding ready_def by blast
  moreover have "matches (sm_ID m) (DbN (sm_ID m))" "matches (sm_ID m) (WalN (sm_ID m))" "matches (sm_ID m) (DirN (sm_ID m))"
    by (simp_all add: matches_def has_prefix_iff)
  ultimately show "map_of d (DbN (sm_ID m)) = None" "map_of d (WalN (sm_ID m)) = None" "dir_meta d (sm_ID m) = None"
    by (simp_all add: dir_meta_def)
qed

lemma ready_old:
  assumes r: "ready d m" and l: "latest_db d = Some (mp, b)"
  shows "dir_meta d (sm_ID mp) = Some (Meta mp)" "good_db b" "file_at (DbN (sm_ID mp)) d = Some b"
    "file_at (WalN (sm_ID mp)) d = None"
    "\<And>i x. i \<noteq> sm_ID mp \<Longrightarrow> dir_meta d i = Some x \<Longrightarrow> \<exists>m. x = Meta m \<and> cmp_Less m mp"
proof -
  obtain ms where ms: "getSnapshots d = Inr ms" "ms \<noteq> []" "mp = last ms" "b = the (file_at (DbN (sm_ID mp)) d)"
    using l by (auto simp: latest_db_def split: sum.splits if_splits)
  have d: "distinct (map fst d)" "readable d" using r by (simp_all add: ready_def wf_dir_def)
  have ids: "sm_ID m' = i" if "dir_meta d i = Some (Meta m')" for i m' using r that by (simp add: ready_def)
  note s = getSnapshots_set [OF d(1) ms(1)]
  have "mp \<in> set ms" using ms by simp
  then obtain i where "dir_meta d i = Some (Meta mp)" using s(1) by blast
  then show "dir_meta d (sm_ID mp) = Some (Meta mp)" using ids by blast
  have "newest d = Some (meta_key mp, file_at (DbN (sm_ID mp)) d, file_at (WalN (sm_ID mp)) d)"
    using ms by (simp add: newest_def Let_def)
  then have "file_at (WalN (sm_ID mp)) d = None \<and> (\<exists>b. file_at (DbN (sm_ID mp)) d = Some b \<and> good_db b)"
    using r by (simp add: ready_def)
  then show "good_db b" "file_at (DbN (sm_ID mp)) d = Some b" "file_at (WalN (sm_ID mp)) d = None" using ms(4) by auto
  fix j x assume j: "j \<noteq> sm_ID mp" "dir_meta d j = Some x"
  then obtain m' where m': "x = Meta m'" using d(2) by (auto simp: readable_def)
  then have "m' \<in> set ms" using s(1) j(2) by blast
  moreover have "ms = butlast ms @ [mp]" using ms by simp
  ultimately have "m' \<in> set (butlast ms) \<or> m' = mp" by (metis Un_iff empty_iff insert_iff list.set set_append)
  moreover have "m' \<noteq> mp" using ids j m' by auto
  ultimately have "meta_key m' \<le> meta_key mp"
    using s(2) \<open>ms = butlast ms @ [mp]\<close> sorted_append [of "map meta_key (butlast ms)" "[meta_key mp]"]
    by (metis (no_types, lifting) imageI list.set_intros(1) list.set_map list.simps(8,9) map_append)
  moreover have "sm_ID m' \<noteq> sm_ID mp" using ids [of j m'] j m' by auto
  then have "meta_key m' \<noteq> meta_key mp" by (simp add: meta_key_def)
  ultimately show "\<exists>m. x = Meta m \<and> cmp_Less m mp" using m' by (simp add: cmp_Less_key)
qed

lemma ready_phaseA:
  assumes r: "ready d m"
  shows "phaseA (session ck ext d m b) d"
proof -
  have nq: "dir_meta d (sm_ID m) = None" by (rule ready_absent [OF r])
  have "old_is (session ck ext d m b) d"
  proof (cases "latest_db d")
    case None
    then have "getSnapshots d = Inr []"
      using r getSnapshots_readable [of d] by (auto simp: latest_db_def ready_def wf_dir_def split: sum.splits if_splits)
    then have "dir_meta d i = None" for i
    proof -
      have "dir_meta d i \<noteq> Some (Meta x)" for x
        using getSnapshots_set(1) [of d "[]" x] \<open>getSnapshots d = Inr []\<close> r by (auto simp: ready_def wf_dir_def)
      then show ?thesis using r unfolding ready_def readable_def by (metis not_Some_eq)
    qed
    then show ?thesis using None by (simp add: old_is_def)
  next
    case (Some y)
    obtain mp c where y: "y = (mp, c)" by (cases y)
    note o = ready_old [OF r Some [unfolded y]]
    have "sm_ID mp \<noteq> sm_ID m" using o(1) nq by auto
    then show ?thesis using o Some y by (simp add: old_is_def)
  qed
  moreover have "below (session ck ext d m b) d"
    unfolding below_def
  proof (intro allI impI conjI)
    fix i x assume i: "dir_meta d i = Some x"
    then obtain m' where "x = Meta m'" using r by (auto simp: ready_def readable_def)
    then have "apart i (sm_ID m)" "sm_ID m' = i" "cmp_Less m' m" using r i by (simp_all add: ready_def)
    then show "apart i (se_ID (session ck ext d m b))" by simp
    fix k assume "x = Meta k"
    then show "sm_ID k = i" "cmp_Less k (se_meta (session ck ext d m b))"
      using r i by (simp_all add: ready_def)
  qed
  moreover have "no_tmp d" "wf_dir d" using r by (simp_all add: ready_def)
  moreover have "\<forall>n. map_of d n \<noteq> None \<longrightarrow> \<not> matches (sm_ID m) n" using r by (simp add: ready_def)
  ultimately show ?thesis using nq unfolding phaseA_def session_simps by (simp add: no_tmp_def)
qed


lemma trip_Cancel: "trip (recoverable ck \<sigma>) (phaseA \<sigma>) (and_then (fs_step flt id) (\<lambda>_. RemoveAllTmpSnapshotData flt))
    (\<lambda>_. phaseA \<sigma>) (phaseA \<sigma>)"
proof (rule trip_and_then)
  show "trip (recoverable ck \<sigma>) (phaseA \<sigma>) (fs_step flt id) (\<lambda>_. phaseA \<sigma>) (phaseA \<sigma>)"
    by (rule trip_step) (simp_all add: recoverable_phases)
  show "trip (recoverable ck \<sigma>) (phaseA \<sigma>) (RemoveAllTmpSnapshotData flt) (\<lambda>_. phaseA \<sigma>) (phaseA \<sigma>)"
    by (rule trip_weaken [OF trip_RemoveAllTmp]) simp_all
qed

text \<open>The locked part of a snapshot.\<close>

definition locked_part ::
  "checkpoint \<Rightarrow> paths \<Rightarrow> faults \<Rightarrow> snap_meta \<Rightarrow> (nat \<times> bytes) list \<Rightarrow> unit fsop" where
  "locked_part ck ext flt m chunks s =
    (case and_then (os_MkdirAll flt (TmpN (sm_ID m))) (\<lambda>_. fs_step flt (put_data (sm_ID m) (Some []))) s of
       (Inl e, s) \<Rightarrow> (Inl e, s)
     | (Inr _, s) \<Rightarrow> (case snapshot_Persist flt chunks \<lparr>sk_meta = m, sk_fd = True, sk_opened = True\<rparr> s of
         (Inl e, s) \<Rightarrow> (Inl e, snd (and_then (fs_step flt id) (\<lambda>_. RemoveAllTmpSnapshotData flt) s))
       | (Inr _, s) \<Rightarrow> (case finish ck ext flt m s of (Inl e, s) \<Rightarrow> (Inl e, s) | (Inr _, s) \<Rightarrow> (Inr (), s))))"

lemma take_snapshot_locked:
  assumes "\<not> writerActive l" "numReaders l = 0"
  shows "take_snapshot ck ext flt now index trm chunks (l, s) =
    (case locked_part ck ext flt (new_meta now index trm) chunks s of (r, s) \<Rightarrow> (r, l, s))"
proof -
  have l: "snd (EndWrite (l\<lparr>writerActive := True\<rparr>)) = l" "BeginWrite l = (MOk, l\<lparr>writerActive := True\<rparr>)"
    using assms by (simp_all add: EndWrite_def BeginWrite_def)
  show ?thesis
    by (auto simp: take_snapshot_def locked_part_def ss_Create_def sink_Open_def NewSink_def l new_meta_def [symmetric] Let_def
        locking_Cancel_def locking_Close_def sink_Cancel_def sink_Close_def split: prod.splits sum.splits)
qed

lemma trip_locked_part:
  assumes law: "ck_law ck" and r: "ready d m" and c: "b = concat (map snd chunks)"
    and good: "IsValidSQLiteFile (Some (incoming ext b)) \<longrightarrow> good_db (incoming ext b)"
  defines "\<sigma> \<equiv> session ck ext d m b"
  shows "trip (recoverable ck \<sigma>) (\<lambda>d'. d' = d) (locked_part ck ext flt m chunks)
    (\<lambda>_. reaping \<sigma> [] []) (halted ck \<sigma> flt ext b)"
proof (rule tripI)
  fix s assume s: "seen (recoverable ck \<sigma>) s" "fs_dir s = d"
  let ?k = "\<lparr>sk_meta = m, sk_fd = True, sk_opened = True\<rparr>"
  have m: "se_ID \<sigma> = sm_ID m" "se_meta \<sigma> = m" by (simp_all add: \<sigma>_def)
  have br: "brings ck ext \<sigma> b" using good by (simp add: brings_def \<sigma>_def)
  have A: "phaseA \<sigma> d" "no_tmp d" using ready_phaseA [OF r] r by (simp_all add: \<sigma>_def ready_def)
  obtain r1 s1 where 1: "and_then (os_MkdirAll flt (TmpN (sm_ID m))) (\<lambda>_. fs_step flt (put_data (sm_ID m) (Some []))) s = (r1, s1)"
    by (meson surj_pair)
  have t1: "seen (recoverable ck \<sigma>) s1" "case r1 of Inr _ \<Rightarrow> holding \<sigma> NoMeta [] (fs_dir s1) | Inl _ \<Rightarrow> phaseA \<sigma> (fs_dir s1) \<and> faulty flt"
    using tripD [OF trip_create [of ck \<sigma> flt] s(1)] s(2) A ready_absent [OF r] 1 by (simp_all add: m split: sum.splits)
  have E: "halted ck \<sigma> flt ext b e" if "phaseA \<sigma> e" "faulty flt" for e
    using that by (simp add: halted_def recoverable_phases)
  obtain r2 s2 where 2: "snapshot_Persist flt chunks ?k s1 = (r2, s2)" by (meson surj_pair)
  obtain r3 s3 where 3: "finish ck ext flt m s2 = (r3, s3)" by (meson surj_pair)
  show "case locked_part ck ext flt m chunks s of (Inr x, s') \<Rightarrow> seen (recoverable ck \<sigma>) s' \<and> reaping \<sigma> [] [] (fs_dir s')
      | (Inl e, s') \<Rightarrow> seen (recoverable ck \<sigma>) s' \<and> halted ck \<sigma> flt ext b (fs_dir s')"
  proof (cases r1)
    case (Inl e)
    then show ?thesis using 1 t1 E by (simp add: locked_part_def)
  next
    case r1: (Inr u)
    have t2: "seen (recoverable ck \<sigma>) s2" "case r2 of Inr _ \<Rightarrow> holding \<sigma> NoMeta b (fs_dir s2) | Inl _ \<Rightarrow> phaseA \<sigma> (fs_dir s2) \<and> faulty flt"
      using tripD [OF trip_Persist [of ?k \<sigma> ck NoMeta "[]" flt chunks] t1(1)] t1(2) r1 2
      by (simp_all add: m c split: sum.splits)
    show ?thesis
    proof (cases r2)
      case (Inl e)
      then have p: "phaseA \<sigma> (fs_dir s2)" "faulty flt" using t2 by simp_all
      have "seen (recoverable ck \<sigma>) (snd (and_then (fs_step flt id) (\<lambda>_. RemoveAllTmpSnapshotData flt) s2))"
        "phaseA \<sigma> (fs_dir (snd (and_then (fs_step flt id) (\<lambda>_. RemoveAllTmpSnapshotData flt) s2)))"
        using tripD [OF trip_Cancel t2(1) p(1), of flt] by (auto split: prod.splits sum.splits)
      then show ?thesis using 1 r1 2 Inl E p by (simp add: locked_part_def)
    next
      case r2: (Inr u)
      have t3: "seen (recoverable ck \<sigma>) s3" "case r3 of Inr _ \<Rightarrow> reaping \<sigma> [] [] (fs_dir s3) | Inl _ \<Rightarrow> halted ck \<sigma> flt ext b (fs_dir s3)"
        using tripD [OF trip_finish [OF law br, of NoMeta flt] t2(1)] t2(2) r2 3 by (simp_all add: m split: sum.splits)
      then show ?thesis using 1 r1 2 r2 3 by (auto simp: locked_part_def split: sum.splits)
    qed
  qed
qed

lemma reaped_newest:
  assumes "reaping \<sigma> [] [] d"
  shows "newest d = Some (meta_key (se_meta \<sigma>), Some (se_new \<sigma>), None)"
    "snap_List d = Inr [(se_meta \<sigma>)\<lparr>sm_Size := length (se_new \<sigma>)\<rparr>]" "FullNeeded d = Inr False"
    "getSnapshots d = Inr [(se_meta \<sigma>)\<lparr>sm_Size := length (se_new \<sigma>)\<rparr>]"
proof -
  have st: "settled \<sigma> d" "sized \<sigma> (length (se_new \<sigma>)) d" "map_of d FlagN = None"
    and only: "\<And>j. j \<noteq> se_ID \<sigma> \<Longrightarrow> dir_meta d j = None"
    using assms by (auto simp: reaping_def)
  have rd: "readable d" unfolding readable_def
  proof (intro allI impI)
    fix i x assume "dir_meta d i = Some x"
    then show "\<exists>m. x = Meta m" using only [of i] st(2) by (cases "i = se_ID \<sigma>") (auto simp: sized_def)
  qed
  show "newest d = Some (meta_key (se_meta \<sigma>), Some (se_new \<sigma>), None)" by (rule settled_newest [OF st(1) rd])
  have pl: "placed \<sigma> d" using st(1) by (simp add: settled_def)
  have dist: "distinct (map fst d)" using pl by (simp add: placed_def wf_dir_def)
  obtain ms where ms: "getSnapshots d = Inr ms" "ms \<noteq> []" using placed_newest [OF pl rd] by metis
  let ?m = "(se_meta \<sigma>)\<lparr>sm_Size := length (se_new \<sigma>)\<rparr>"
  have "x \<in> set ms \<longleftrightarrow> x = ?m" for x
  proof -
    have "(\<exists>i. dir_meta d i = Some (Meta x)) \<longleftrightarrow> dir_meta d (se_ID \<sigma>) = Some (Meta x)"
      using only by (metis option.distinct(1))
    then show ?thesis using getSnapshots_set(1) [OF dist ms(1), of x] st(2) by (auto simp: sized_def)
  qed
  then have "set ms = {?m}" by auto
  moreover have "distinct ms" using getSnapshots_distinct [OF dist ms(1)] placed_ids [OF pl] by blast
  ultimately have "ms = [?m]" by (simp add: singleton_list)
  then show g: "getSnapshots d = Inr [?m]" using ms by simp
  show "FullNeeded d = Inr False" using g st(3) by (simp add: FullNeeded_def)
  have "readMeta (DirN (se_ID \<sigma>)) d = Inr ?m"
    using st(2) by (auto simp: readMeta_def sized_def dir_meta_def split: option.splits inode.splits)
  then show "snap_List d = Inr [?m]" using g by (simp add: snap_List_def)
qed


section \<open>Crashes\<close>

text \<open>The directories a crash can leave: one of those on the way, or, when the start after a crash is itself
  cut short, one of those on its way.\<close>

inductive after_crash :: "checkpoint \<Rightarrow> sdir list \<Rightarrow> sdir \<Rightarrow> bool" for ck ds where
  crash: "d \<in> set ds \<Longrightarrow> after_crash ck ds d"
| crash_again: "after_crash ck ds d \<Longrightarrow> d' \<in> set (fs_seen (snd (NewStore ck flt (start d)))) \<Longrightarrow> after_crash ck ds d'"

lemma NewStore_start:
  assumes law: "ck_law ck" and R: "recoverable ck \<sigma> d"
  shows "case NewStore ck flt (start d) of
      (Inr x, s') \<Rightarrow> seen (recoverable ck \<sigma>) s' \<and> restored \<sigma> (fs_dir s')
    | (Inl e, s') \<Rightarrow> seen (recoverable ck \<sigma>) s' \<and> stuck ck \<sigma> flt (readable d) (fs_dir s')"
proof (rule tripD [OF trip_NewStore [OF law]])
  show "seen (recoverable ck \<sigma>) (start d)" "recoverable ck \<sigma> (fs_dir (start d)) \<and> readable (fs_dir (start d)) = readable d"
    using R by (simp_all add: start_def seen_def)
qed

lemma after_crash_recoverable:
  assumes law: "ck_law ck"
  shows "after_crash ck ds e \<Longrightarrow> \<forall>d\<in>set ds. recoverable ck \<sigma> d \<Longrightarrow> recoverable ck \<sigma> e"
proof (induction rule: after_crash.induct)
  case (crash_again d d' flt)
  then have "seen (recoverable ck \<sigma>) (snd (NewStore ck flt (start d)))"
    using NewStore_start [OF law, of \<sigma> d flt] by (auto split: prod.splits sum.splits)
  then show ?case using crash_again.hyps(2) by (simp add: seen_def)
qed blast

text \<open>A start that finds all metadata readable keeps it so.\<close>

lemma recoverable_unreadable:
  assumes "recoverable ck \<sigma> d" "\<not> readable d"
  shows "wf_dir d" "no_tmp d" "d \<noteq> []"
proof -
  have "\<not> phaseA \<sigma> d" using assms(2) phaseA_readable by blast
  then have "placed \<sigma> d" using assms(1) by (auto simp: recoverable_def unmerged_def merging_def)
  then show "wf_dir d" "no_tmp d" "d \<noteq> []" by (auto simp: placed_def no_tmp_def dir_meta_def)
qed

lemma unreadable_blocks:
  assumes "wf_dir d" "no_tmp d" "d \<noteq> []" "\<not> readable d"
  shows "isl (fst (NewStore ck flt (start d)))"
proof -
  have "\<nexists>ms. getSnapshots d = Inr ms" using getSnapshots_readable [OF wf_dir_distinct] assms by blast
  then obtain e where "getSnapshots d = Inl e" by (cases "getSnapshots d") auto
  then have "and_then (RemoveAllTmpSnapshotData flt) (\<lambda>_. check_dir ck flt) (start d) = (Inl e, start d)"
    using assms by (simp add: RemoveAllTmpSnapshotData_def no_tmp_dirs and_then_def check_dir_def start_def)
  then show ?thesis using assms(3)
    by (auto simp: NewStore_def check_def start_def split: prod.splits sum.splits)
qed


lemma take_snapshot_result:
  assumes "ck_law ck" "ready d (new_meta now index trm)" "\<not> writerActive l" "numReaders l = 0"
    and "IsValidSQLiteFile (Some (incoming ext (concat (map snd chunks)))) \<longrightarrow> good_db (incoming ext (concat (map snd chunks)))"
    and "take_snapshot ck ext flt now index trm chunks (l, start d) = (r, l', s)"
  shows "l' = l"
    and "r = Inr () \<Longrightarrow> newest (fs_dir s) = Some (meta_key (new_meta now index trm),
        Some (installed ck (latest_db d) (incoming ext (concat (map snd chunks)))), None) \<and>
      snap_List (fs_dir s) = Inr [(new_meta now index trm)\<lparr>sm_Size :=
        length (installed ck (latest_db d) (incoming ext (concat (map snd chunks))))\<rparr>] \<and>
      FullNeeded (fs_dir s) = Inr False"
    and "(\<forall>n. flt n = None) \<Longrightarrow> acceptable (latest_db d) ext (concat (map snd chunks)) \<Longrightarrow> r = Inr ()"
proof -
  let ?m = "new_meta now index trm" and ?b = "concat (map snd chunks)"
  let ?\<sigma> = "session ck ext d ?m ?b"
  have A: "phaseA ?\<sigma> d" by (rule ready_phaseA [OF assms(2)])
  have st: "seen (recoverable ck ?\<sigma>) (start d)" using A by (simp add: start_def seen_def recoverable_phases)
  have part: "locked_part ck ext flt ?m chunks (start d) = (r, s)" and l: "l' = l"
    using assms(6) by (simp_all add: take_snapshot_locked [OF assms(3,4)] split: prod.splits)
  show "l' = l" by (rule l)
  have res: "case r of Inr _ \<Rightarrow> reaping ?\<sigma> [] [] (fs_dir s) | Inl _ \<Rightarrow> halted ck ?\<sigma> flt ext ?b (fs_dir s)"
    using tripD [OF trip_locked_part [OF assms(1,2) refl assms(5), of flt] st] part by (simp add: start_def split: sum.splits)
  {
    assume "r = Inr ()"
    then have "reaping ?\<sigma> [] [] (fs_dir s)" using res by simp
    from reaped_newest [OF this] show "newest (fs_dir s) = Some (meta_key ?m,
        Some (installed ck (latest_db d) (incoming ext ?b)), None) \<and>
      snap_List (fs_dir s) = Inr [?m\<lparr>sm_Size := length (installed ck (latest_db d) (incoming ext ?b))\<rparr>] \<and>
      FullNeeded (fs_dir s) = Inr False" by simp
  next
    assume "\<forall>n. flt n = None" "acceptable (latest_db d) ext ?b"
    then have "\<not> halted ck ?\<sigma> flt ext ?b (fs_dir s)" by (simp add: halted_def faulty_def)
    then show "r = Inr ()" using res by (cases r) simp_all
  }
qed

text \<open>A store with one snapshot, a checkpoint that puts the WAL after the first bytes of the file, and a WAL.\<close>

definition sample_db :: bytes where
  "sample_db = string_bytes ''SQLite format 3'' @ [0, 16, 0, 2, 2, 7, 7]"

definition sample_ck :: checkpoint where
  "sample_ck b w = (case w of None \<Rightarrow> Inr [] | Some w \<Rightarrow> Inr [take 20 b @ w])"

definition sample_dir :: sdir where
  "sample_dir = [(DirN ''1-2-3'', DirI (Meta \<lparr>sm_ID = ''1-2-3'', sm_Index = 2, sm_Term = 1, sm_Size = 22\<rparr>) None),
     (DbN ''1-2-3'', FileI sample_db), (FlagN, FileI [])]"

definition sample_wal :: bytes where
  "sample_wal = [0x37, 0x7f, 0x06, 0x82, 1, 2]"

lemma good_db_prefix:
  assumes "good_db b" "20 \<le> length b"
  shows "good_db (take 20 b @ w)"
proof -
  have valid: "IsValidSQLiteFile (Some c) \<longleftrightarrow> IsValidSQLiteData (take 16 c)" if "20 \<le> length c" for c
    using that by (cases c) (simp_all add: IsValidSQLiteFile_def)
  have mode: "IsDELETEModeEnabledSQLiteFile (Some c) = Some (IsDELETEModeEnabled (take 20 c))" if "20 \<le> length c" for c
    using that by (simp add: IsDELETEModeEnabledSQLiteFile_def)
  have "20 \<le> length (take 20 b @ w)" "take 16 (take 20 b @ w) = take 16 b" "take 20 (take 20 b @ w) = take 20 b"
    using assms(2) by simp_all
  then show ?thesis using assms valid mode by (simp add: good_db_def)
qed

lemma good_db_length: "good_db b \<Longrightarrow> 20 \<le> length b"
  by (simp add: good_db_def IsDELETEModeEnabledSQLiteFile_def split: if_splits)

lemma sample_law: "ck_law sample_ck"
proof -
  have good: "good_db (take 20 b @ w)" "sample_ck (take 20 b @ w) (Some w) = Inr [take 20 b @ w]" if "good_db b" for b w
    using good_db_prefix [OF that good_db_length [OF that]] good_db_length [OF that] by (simp_all add: sample_ck_def)
  show ?thesis unfolding ck_law_def
  proof (intro conjI allI impI)
    fix b w assume b: "good_db b"
    show "\<exists>bs. sample_ck b w = Inr bs \<and> (\<forall>b'\<in>set bs. good_db b' \<and>
        (\<exists>bs'. sample_ck b' w = Inr bs' \<and> last (b' # bs') = last (b # bs)))"
    proof (cases w)
      case None
      then show ?thesis by (intro exI [of _ "[]"]) (simp add: sample_ck_def)
    next
      case (Some v)
      then show ?thesis using good [OF b, of v]
        by (intro exI [of _ "[take 20 b @ v]"]) (simp add: sample_ck_def)
    qed
  qed (simp add: sample_ck_def)
qed

lemma sample_ID: "sm_ID (new_meta 5 4 2) = ''2-4-5''"
  by code_simp

lemma sample_good: "good_db sample_db"
  unfolding good_db_def by code_simp

lemma sample_newest: "getSnapshots sample_dir = Inr [\<lparr>sm_ID = ''1-2-3'', sm_Index = 2, sm_Term = 1, sm_Size = 22\<rparr>]"
  by code_simp

lemma sample_dir_meta: "dir_meta sample_dir i =
    (if i = ''1-2-3'' then Some (Meta \<lparr>sm_ID = ''1-2-3'', sm_Index = 2, sm_Term = 1, sm_Size = 22\<rparr>) else None)"
  by (auto simp: dir_meta_def sample_dir_def)

lemma sample_store_ready: "ready sample_dir (new_meta 5 4 2)"
proof -
  have "cmp_Less \<lparr>sm_ID = ''1-2-3'', sm_Index = 2, sm_Term = 1, sm_Size = 22\<rparr> (new_meta 5 4 2)" by code_simp
  moreover have "apart ''1-2-3'' ''2-4-5''" by code_simp
  moreover have "wf_dir sample_dir" by (auto simp: wf_dir_def sample_dir_def)
  moreover have "no_tmp sample_dir" by (simp add: no_tmp_def sample_dir_def)
  moreover have "\<not> matches ''2-4-5'' n" if "map_of sample_dir n \<noteq> None" for n
    using that by (auto simp: sample_dir_def matches_def split: if_splits)
  moreover have "newest sample_dir = Some (meta_key \<lparr>sm_ID = ''1-2-3'', sm_Index = 2, sm_Term = 1, sm_Size = 22\<rparr>,
      Some sample_db, None)"
    by (simp add: newest_def sample_newest) (simp add: sample_dir_def file_at_def)
  ultimately show ?thesis
    by (auto simp: ready_def sample_ID readable_def sample_dir_meta sample_good)
qed

text \<open>What a crash leaves after the rename of the temporary directory.\<close>

definition sample_left :: sdir where
  "sample_left = [(DirN ''1-2-3'', DirI (Meta \<lparr>sm_ID = ''1-2-3'', sm_Index = 2, sm_Term = 1, sm_Size = 22\<rparr>) None),
     (DbN ''1-2-3'', FileI sample_db), (FlagN, FileI []), (WalN ''2-4-5'', FileI sample_wal),
     (DirN ''2-4-5'', DirI (Meta \<lparr>sm_ID = ''2-4-5'', sm_Index = 4, sm_Term = 2, sm_Size = 0\<rparr>) None)]"

lemma sample_left_readable: "readable sample_left"
proof -
  have "\<exists>m. x = Meta m" if "dir_meta sample_left i = Some x" for i x
    using that by (simp add: dir_meta_def sample_left_def split: if_splits) blast+
  then show ?thesis by (simp add: readable_def)
qed

lemma sample_left_seen: "sample_left \<in> set (fs_seen (snd (snd
    (take_snapshot sample_ck (\<lambda>_. Inr None) (\<lambda>_. None) 5 4 2 [(0, sample_wal)] (NewMultiRSW, start sample_dir)))))"
  by code_simp

lemma sample_lock: "\<not> writerActive NewMultiRSW" "numReaders NewMultiRSW = 0"
  by (simp_all add: NewMultiRSW_def)

lemma sample_wal_data: "IsValidSQLiteFile (Some (incoming (\<lambda>_. Inr None) (concat (map snd [(0::nat, sample_wal)])))) \<longrightarrow>
    good_db (incoming (\<lambda>_. Inr None) (concat (map snd [(0::nat, sample_wal)])))"
proof -
  have "\<not> IsValidSQLiteFile (Some (incoming (\<lambda>_. Inr None) (concat (map snd [(0::nat, sample_wal)]))))" by code_simp
  then show ?thesis by simp
qed

text \<open>The exception is real. The last writes of \<^verbatim>\<open>Close\<close> rewrite the metadata in place and empty the directory of the
  old snapshot; a crash then leaves a directory with which no store starts again.\<close>

lemma crash_window:
  "\<exists>e\<in>set (fs_seen (snd (snd (take_snapshot sample_ck (\<lambda>_. Inr None) (\<lambda>_. None) 5 4 2 [(0, sample_wal)]
     (NewMultiRSW, start sample_dir))))). \<forall>ck. isl (fst (NewStore ck (\<lambda>_. None) (start e)))"
proof -
  have "[(DirN ''1-2-3'', DirI (Meta \<lparr>sm_ID = ''1-2-3'', sm_Index = 2, sm_Term = 1, sm_Size = 22\<rparr>) None),
      (FlagN, FileI []), (DirN ''2-4-5'', DirI BadMeta None), (DbN ''2-4-5'', FileI (take 20 sample_db @ sample_wal))]
    \<in> set (fs_seen (snd (snd (take_snapshot sample_ck (\<lambda>_. Inr None) (\<lambda>_. None) 5 4 2 [(0, sample_wal)]
     (NewMultiRSW, start sample_dir)))))" (is "?e \<in> _")
    by code_simp
  moreover have "isl (fst (NewStore ck (\<lambda>_. None) (start ?e)))" for ck
  proof (rule unreadable_blocks)
    show "\<not> readable ?e"
    proof
      assume "readable ?e"
      moreover have "dir_meta ?e ''2-4-5'' = Some BadMeta" by (simp add: dir_meta_def)
      ultimately show False unfolding readable_def by blast
    qed
  qed (auto simp: wf_dir_def no_tmp_def)
  ultimately show ?thesis by blast
qed

text \<open>C5: A crash at any point of a snapshot, with any operation failing before, and any number of further
  crashes while the store starts again, leave a directory with which one of two things holds. Either
  the metadata of some snapshot cannot be read. Or the store starts, and its newest snapshot is the old
  one or the new one, complete, with no WAL left beside it.\<close>

theorem crash_recovers:
  assumes "ck_law ck" "ready d (new_meta now index trm)" "\<not> writerActive l" "numReaders l = 0"
    and "IsValidSQLiteFile (Some (incoming ext (concat (map snd chunks)))) \<longrightarrow> good_db (incoming ext (concat (map snd chunks)))"
    and "after_crash ck (fs_seen (snd (snd (take_snapshot ck ext flt now index trm chunks (l, start d))))) e"
  shows "\<not> readable e \<or> (\<exists>t. NewStore ck (\<lambda>_. None) (start e) = (Inr (), t) \<and>
    newest (fs_dir t) \<in> {newest d, Some (meta_key (new_meta now index trm),
      Some (installed ck (latest_db d) (incoming ext (concat (map snd chunks)))), None)})"
proof (cases "readable e")
  case True
  let ?m = "new_meta now index trm" and ?b = "concat (map snd chunks)"
  let ?\<sigma> = "session ck ext d ?m ?b"
  have A: "phaseA ?\<sigma> d" by (rule ready_phaseA [OF assms(2)])
  have "seen (recoverable ck ?\<sigma>) (start d)" using A by (simp add: start_def seen_def recoverable_phases)
  from tripD [OF trip_locked_part [OF assms(1,2) refl assms(5), of flt] this]
  have "seen (recoverable ck ?\<sigma>) (snd (locked_part ck ext flt ?m chunks (start d)))"
    by (auto simp: start_def split: prod.splits sum.splits)
  then have "\<forall>e\<in>set (fs_seen (snd (snd (take_snapshot ck ext flt now index trm chunks (l, start d))))). recoverable ck ?\<sigma> e"
    by (simp add: take_snapshot_locked [OF assms(3,4)] seen_def split: prod.splits)
  from after_crash_recoverable [OF assms(1,6) this] have R: "recoverable ck ?\<sigma> e" .
  obtain r t where t: "NewStore ck (\<lambda>_. None) (start e) = (r, t)" by (meson surj_pair)
  have "case r of Inr _ \<Rightarrow> restored ?\<sigma> (fs_dir t) | Inl _ \<Rightarrow> stuck ck ?\<sigma> (\<lambda>_. None) True (fs_dir t)"
    using NewStore_start [OF assms(1) R, of "\<lambda>_. None"] t True by (simp split: sum.splits)
  then have t2: "r = Inr ()" "restored ?\<sigma> (fs_dir t)" by (cases r; simp add: stuck_def faulty_def)+
  have "newest (fs_dir t) = newest d" if "phaseA ?\<sigma> (fs_dir t)" using phaseA_newest(1) [OF that] phaseA_newest(1) [OF A] by simp
  moreover have "newest (fs_dir t) = Some (meta_key ?m, Some (installed ck (latest_db d) (incoming ext ?b)), None)"
    if "settled ?\<sigma> (fs_dir t)" "readable (fs_dir t)" using settled_newest [OF that] by simp
  ultimately show ?thesis using t t2 by (auto simp: restored_def)
qed simp

theorem crash_recovers_witness:
  "\<exists>t. NewStore sample_ck (\<lambda>_. None) (start sample_left) = (Inr (), t) \<and>
    newest (fs_dir t) \<in> {newest sample_dir, Some (meta_key (new_meta 5 4 2),
      Some (installed sample_ck (latest_db sample_dir) (incoming (\<lambda>_. Inr None) (concat (map snd [(0::nat, sample_wal)])))), None)}"
proof -
  have crash: "after_crash sample_ck (fs_seen (snd (snd (take_snapshot sample_ck (\<lambda>_. Inr None) (\<lambda>_. None) 5 4 2
      [(0, sample_wal)] (NewMultiRSW, start sample_dir))))) sample_left"
    by (rule after_crash.crash [OF sample_left_seen])
  note recovers = crash_recovers [OF sample_law sample_store_ready sample_lock sample_wal_data crash]
  from recovers show ?thesis
  proof (rule disjE)
    assume "\<not> readable sample_left"
    then show ?thesis using sample_left_readable by (rule notE)
  qed assumption
qed



end
