(* ===== verification/Spec2Isabelle.thy ===== *)
theory Spec2Isabelle
  imports Http_Service Snapshot_Crash
begin

text \<open>
  \<^bold>\<open>A verification library for rqlite\<close>

  rqlite is a relational database replicated by Raft. A node accepts SQL over HTTP, passes writes
  through the Raft log, applies committed entries to a SQLite database in WAL mode, and takes
  snapshots of it that are a SQLite file or a compacted WAL on top of the previous one. A node that
  is not the leader forwards requests to the leader over its own protocol. This development models
  that path from the bytes of the WAL to the answers of the HTTP API.

  \<^bold>\<open>How the code is modelled.\<close> A struct is a record, an enumeration or a message with variants a
  datatype. An operation is a function; one that changes state returns the new state, and one that
  can fail returns a value of \<open>'e + 'a\<close>, the error on the left. Machine integers are words where
  they can wrap and are otherwise given with their bounds. Panics are branches of their own. Every
  definition is executable; loops are structural recursions, functions with a termination proof,
  or, where the code may loop forever, \<^theory_text>\<open>partial_function (option)\<close>, for which returning is a
  property to prove. No definition takes fuel. Interleavings are sequences of steps, and what the
  environment decides (clocks, file errors, lost messages, crashes) is an argument.

  Code outside the repository is a parameter, and what is relied on is a named law, each with an
  instance in the witnesses: gzip (\<open>gzip_lib\<close>, \<open>gzip_inverse\<close>), protobuf (\<open>pb_codec\<close>,
  \<open>pb_inverse\<close>), the SQLite engine (\<open>db_lib\<close>) and, one level below, the SQL driver
  (\<open>sql_driver\<close> with \<open>tx_law\<close>, \<open>stays_in_tx\<close>, \<open>ro_law\<close>), Raft (\<open>raft_ops\<close>,
  \<open>raft_apply_law\<close>), SQLite's checkpoint, the network between nodes (\<open>transport\<close>,
  \<open>delivers\<close>), the JSON decoder, the float and duration parsers, and the SQL rewriter.

  \<^bold>\<open>The write-ahead log\<close> (\<^verbatim>\<open>db/wal\<close>). \<open>Bytes_IO\<close> has readers, writers and byte order;
  \<open>Wal_Format\<close> the header, frames and checksums, \<open>Wal_Reader\<close> the reader and the full scanner,
  \<open>Wal_Writer\<close> the writer, \<open>Wal_Compact\<close> the compacting scanner. The locale \<open>wal_iterator\<close> is the
  contract of the two scanners, interpreted on both. The lemmas show that scanning yields exactly
  the valid prefix of a log and only that, that a written log is read back, and
  (\<open>Wal_Compaction\<close>, \<open>Wal_Properties\<close>) that compacting keeps the database a checkpoint gives,
  by a refinement to the last frame of each page, and that the two ways of producing the compacted
  log agree byte for byte.

  \<^bold>\<open>Commands\<close> (\<^verbatim>\<open>command\<close>). \<open>Command_Types\<close> has the messages, \<open>Marshal\<close> the
  marshaller with its compression thresholds, \<open>Chunking\<close> the chunker and dechunker, with round
  trips; chunks out of order are refused.

  \<^bold>\<open>Synchronisation and queueing\<close> (\<^verbatim>\<open>rsync\<close>, \<^verbatim>\<open>queue/queue.go\<close>). \<open>Rsync\<close> models every
  primitive, with exclusion for the multi-reader lock over all sequences of operations, notification
  of targets and the end of retry loops. \<open>Queue\<close> is a step relation of writers and the goroutine:
  what is written is delivered in order and in batches, and the queue is never stuck.

  \<^bold>\<open>The database layer\<close> (\<^verbatim>\<open>db\<close>). \<open>Db_State\<close> has the classification of files and
  statements, \<open>Db_Layer\<close> the swappable database and the change streamer over \<open>db_lib\<close>, and
  \<open>Db_Exec\<close> the execution of requests in \<^verbatim>\<open>db/db.go\<close> over the driver: transactions are atomic,
  queries do not write, result sets are typed; \<open>with_driver\<close> makes a \<open>db_lib\<close> of a driver.

  \<^bold>\<open>The store\<close> (\<^verbatim>\<open>store\<close>). \<open>Go_Net\<close> has host and port parsing, \<open>Store_Types\<close> the
  state, servers and staleness, \<open>Command_Processor\<close> the processing of log entries, \<open>Store_Fsm\<close>
  the state machine (replicas that apply the same entries agree, by a simulation that erases clocks
  and file names), \<open>Store_Request\<close> Execute, Query and Request with the consistency levels,
  \<open>Store_Cluster\<close> bootstrap, join, removal, reaping, load and restore, \<open>Store_Snapshot\<close> the
  snapshots of the state machine, backup, boot and recovery of a node.

  \<^bold>\<open>The snapshot store\<close> (\<^verbatim>\<open>snapshot\<close>). \<open>Snapshot_Store\<close> models the directory and every
  operation as a program of single steps on the file system, each of which may fail or be the last
  before a crash; \<open>Snapshot_Recovery\<close> is a small program logic for such programs, and
  \<open>Snapshot_Crash\<close> shows that after any number of crashes the store starts with the old or the new
  snapshot complete.

  \<^bold>\<open>Access and services\<close> (\<^verbatim>\<open>auth\<close>, \<^verbatim>\<open>cluster\<close>, \<^verbatim>\<open>http\<close>). \<open>Auth\<close> has the
  credential store and the locale \<open>guarded_handler\<close>, the contract of a service behind it: refused
  commands have no effect. \<open>Cluster_Service\<close> has the service nodes offer each other, with its
  framing, the client, and the law of a network that may lose requests and replies;
  \<open>Http_Request\<close> the parsing of bodies and parameters, \<open>Http_Service\<close> routing, handlers,
  forwarding and the queue worker. The locale is interpreted on both services. The store behind them
  is a record of operations (\<open>store_ops\<close>), with the modelled store as its instance
  (\<open>node_ops\<close>); the client of the HTTP service is the modelled one (\<open>client_ops\<close>).

  \<^bold>\<open>This theory\<close> composes the layers: a transaction that goes through the log of replicas,
  executed by the driver level of the database, is atomic with the same outcome on each.

  \<^bold>\<open>Not modelled.\<close> Raft, SQLite and the other libraries themselves. Sockets, the multiplexer
  and the connection pool (\<^verbatim>\<open>tcp\<close>), TLS (\<^verbatim>\<open>rtls\<close>), cloud storage (\<^verbatim>\<open>aws\<close>), discovery
  (\<^verbatim>\<open>disco\<close>) and the programs under \<^verbatim>\<open>cmd\<close>: input and output without a state to reason
  about. The walk of the SQL rewriter over the syntax tree, because the tree is a third-party type.
  The contents of diagnostic pages, statistics counters that nothing reads, and log messages. Timing
  is abstracted to the order of events. The generated protobuf code is represented by the messages
  it is generated from.
\<close>

section \<open>Transactions on every replica\<close>

text \<open>C6: A replicated transaction is atomic, and with the same outcome everywhere. Two replicas that
  agree apply the same log entry, an \<^verbatim>\<open>Execute\<close> with the transaction flag, each with its own
  clock and files, on databases behind the same driver. Then both give the same answer and agree
  again, and on either the transaction did one of three things: it returned an error and left the
  database as it was; or it returned the answers up to the first failed statement and left the
  database as it was; or it answered every statement and all of them took effect.\<close>

theorem replicated_transaction_atomic:
  assumes "tx_law D db base" and "Transaction req" and "\<forall>s\<in>set (Statements req). stays_in_tx D base s"
    and "encodes C cmd (l_Data (ap_log a))" and "cmd_Type cmd = TYPE_EXECUTE"
    and "UnmarshalSubCommand (gzip C) (pb_Execute C) cmd = Inr er" and "er_Request er = Some req"
    and "agree s t" and "same_entry a b"
  shows "\<exists>rs err s' t'. fsmApply C (with_driver D ro L) a s = (Inr (FsmExecuteQuery rs (map_option err_str err)), s') \<and>
    fsmApply C (with_driver D ro L) b t = (Inr (FsmExecuteQuery rs (map_option err_str err)), t') \<and> agree s' t' \<and>
    atomic_outcome D (with_timeout req) answered
      (\<lambda>s. executeStmtWithConn D (with_timeout req) s OnTx (DbTimeout req)) db (stmts_of req)
      (sdb (s_db s)) ((rs, err), sdb (s_db s'))"
proof -
  let ?L = "with_driver D ro L"
  obtain rs err c where ex: "db_Execute D req (sdb (s_db s)) = ((rs, err), c)" by (metis prod.exhaust)
  then have "lib_Execute ?L (er_Request er) (er_Timings er) (sdb (s_db s)) = ((rs, map_option err_str err), c)"
    using assms(7) by simp
  then have p: "Process C ?L (ap_env a) (l_Data (ap_log a)) \<lparr>ps_dm = s_dm s, ps_db = s_db s\<rparr> =
      (Inr (cmd, True, FsmExecuteQuery rs (map_option err_str err)), \<lparr>ps_dm = s_dm s, ps_db = (s_db s)\<lparr>sdb := c\<rparr>\<rparr>)"
    using Process_execute [OF assms(4-6), of ?L "\<lparr>ps_dm = s_dm s, ps_db = s_db s\<rparr>"] by simp
  have a: "ap_setfull a = None" using assms(9) by (simp add: same_entry_def)
  obtain r s' where s: "fsmApply C ?L a s = (r, s')" by (metis prod.exhaust)
  obtain q t' where t: "fsmApply C ?L b t = (q, t')" by (metis prod.exhaust)
  have "r = Inr (FsmExecuteQuery rs (map_option err_str err))" and "sdb (s_db s') = c"
    using fsmApply_shared(1,2) [OF p a s] by simp_all
  moreover have "r = q" and "agree s' t'" using fsmApply_agree [OF assms(8,9) s t] by simp_all
  ultimately show ?thesis using Execute_atomic [OF assms(1-3), of "sdb (s_db s)"] ex s t by auto
qed

definition sample_transfer :: ExecuteRequest where
  "sample_transfer = \<lparr>er_Request = Some (sample_tx [sample_stmt ''INSERT'' False, sample_stmt ''BAD'' False]), er_Timings = False\<rparr>"

definition sample_transfer_command :: Command where
  "sample_transfer_command = \<lparr>cmd_Type = TYPE_EXECUTE, SubCommand = [3], Compressed = False\<rparr>"

definition sample_transfer_codecs :: codecs where
  "sample_transfer_codecs = sample_codecs sample_transfer_command (sample_query LEVEL_NONE) sample_transfer"

theorem replicated_transaction_atomic_witness:
  "\<forall>L. \<exists>rs err s' t'.
     fsmApply sample_transfer_codecs (with_driver sample_driver id L) (sample_entry 1 1 [1]) (new_store ''n1'' ([7], [])) =
       (Inr (FsmExecuteQuery rs (map_option err_str err)), s') \<and>
     fsmApply sample_transfer_codecs (with_driver sample_driver id L) ((sample_entry 1 1 [1])\<lparr>ap_now := 99\<rparr>) (new_store ''n2'' ([7], [])) =
       (Inr (FsmExecuteQuery rs (map_option err_str err)), t') \<and> agree s' t'"
proof -
  let ?C = sample_transfer_codecs and ?cmd = sample_transfer_command
  have c: "encodes ?C ?cmd (l_Data (ap_log (sample_entry 1 1 [1])))" "cmd_Type ?cmd = TYPE_EXECUTE"
    by (simp_all add: encodes_def sample_transfer_codecs_def sample_codecs_def sample_pb_inverse cmd_Marshal_def
        sample_pb_marshal sample_entry_def) (simp add: sample_transfer_command_def)
  have u: "UnmarshalSubCommand (gzip ?C) (pb_Execute ?C) ?cmd = Inr sample_transfer"
    by (simp add: UnmarshalSubCommand_def sample_transfer_codecs_def sample_codecs_def sample_pb_def
        sample_transfer_command_def)
  let ?req = "sample_tx [sample_stmt ''INSERT'' False, sample_stmt ''BAD'' False]"
  have r: "er_Request sample_transfer = Some ?req" "Transaction ?req"
    "\<forall>s\<in>set (Statements ?req). stays_in_tx sample_driver snd s"
    by (simp_all add: sample_transfer_def sample_tx_def sample_stays_in_tx)
  have a: "agree (new_store ''n1'' (([7], []) :: nat list \<times> nat list)) (new_store ''n2'' ([7], []))"
    by (simp add: agree_def new_store_def)
  have e: "same_entry (sample_entry 1 1 [1]) ((sample_entry 1 1 [1])\<lparr>ap_now := 99\<rparr>)"
    by (simp add: same_entry_def sample_entry_def fine_env_def good_env_def)
  show ?thesis
    using replicated_transaction_atomic [OF sample_tx_law r(2,3) c u r(1) a e] by blast
qed

end
